(* ===== verification/Pit_Prelude.thy ===== *)
theory Pit_Prelude
  imports Main "HOL-Library.Word" "HOL-Library.Multiset"
begin

section \<open>Shared types, counting and decimal text\<close>

text \<open>
  What every component of the development uses: the machine integers and the time type of the
  code, the number of list elements with a property and how a list update changes it (the thread
  models keep their counters equal to such numbers), and the decimal rendering that the
  \<^verbatim>\<open>format!\<close> calls of the code rely on. Nothing in this theory models a line of
  the repository by itself.
\<close>

subsection \<open>Machine integers, time, errors\<close>

text \<open>
  The code runs on 64-bit hosts: \<^verbatim>\<open>usize\<close> and \<^verbatim>\<open>u64\<close> are 64-bit words with
  wrap-around. A \<^verbatim>\<open>Duration\<close> and an \<^verbatim>\<open>Instant\<close> count nanoseconds. An
  \<^verbatim>\<open>anyhow::Error\<close> is used by this code through its rendered message only, so it is a
  string, and a fallible function returns \<open>string + 'a\<close> with \<open>Inl\<close> for the error.
\<close>

type_synonym u8 = "8 word"
type_synonym u16 = "16 word"
type_synonym u32 = "32 word"
type_synonym u64 = "64 word"
type_synonym usize = "64 word"
type_synonym duration = nat
type_synonym instant = nat

text \<open>\<^verbatim>\<open>later.duration_since(earlier)\<close> saturates at zero, as natural subtraction does.\<close>

definition duration_since :: "instant \<Rightarrow> instant \<Rightarrow> duration" where
  "duration_since later earlier = later - earlier"

text \<open>\<^verbatim>\<open>duration.as_micros()\<close> rounds down.\<close>

definition micros :: "duration \<Rightarrow> nat" where
  "micros d = d div 1000"

text \<open>\<^verbatim>\<open>duration.as_nanos().min(u64::MAX as u128) as u64\<close>\<close>

definition nanos_u64 :: "duration \<Rightarrow> u64" where
  "nanos_u64 d = word_of_nat (min d (2 ^ 64 - 1))"

lemma unat_nanos_u64: "unat (nanos_u64 d) = min d (2 ^ 64 - 1)"
proof -
  have "min d (2 ^ 64 - 1) < 2 ^ 64" by simp
  then show ?thesis by (simp add: nanos_u64_def unat_of_nat take_bit_eq_mod)
qed

lemma unat_of_nat_64:
  "n < 2 ^ 64 \<Longrightarrow> unat (word_of_nat n :: 64 word) = n"
  by (simp add: unat_of_nat take_bit_eq_mod)

lemma of_nat_64_inj:
  "m < 2 ^ 64 \<Longrightarrow> n < 2 ^ 64 \<Longrightarrow> (word_of_nat m :: 64 word) = word_of_nat n \<Longrightarrow> m = n"
  by (metis unat_of_nat_64)

text \<open>
  The \<^verbatim>\<open>f64\<close> arithmetic of reports, rounding included, is a parameter: \<open>fl_default\<close> is
  \<^verbatim>\<open>0.0\<close> and \<open>fl_of_int\<close> is \<^verbatim>\<open>as f64\<close>.
\<close>

record 'f floats =
  fl_default :: 'f
  fl_one :: 'f
  fl_sum_start :: 'f
  fl_of_int :: "nat \<Rightarrow> 'f"
  fl_add :: "'f \<Rightarrow> 'f \<Rightarrow> 'f"
  fl_sub :: "'f \<Rightarrow> 'f \<Rightarrow> 'f"
  fl_div :: "'f \<Rightarrow> 'f \<Rightarrow> 'f"
  fl_min :: "'f \<Rightarrow> 'f \<Rightarrow> 'f"
  fl_square :: "'f \<Rightarrow> 'f"
  fl_sqrt :: "'f \<Rightarrow> 'f"

subsection \<open>Counting list elements\<close>

definition cnt :: "('a \<Rightarrow> bool) \<Rightarrow> 'a list \<Rightarrow> nat" where
  "cnt P xs = length (filter P xs)"

lemma cnt_Nil [simp]: "cnt P [] = 0"
  and cnt_Cons [simp]: "cnt P (x # xs) = of_bool (P x) + cnt P xs"
  and cnt_append [simp]: "cnt P (xs @ ys) = cnt P xs + cnt P ys"
  by (simp_all add: cnt_def)

lemma cnt_le_length: "cnt P xs \<le> length xs"
  by (simp add: cnt_def)

lemma cnt_replicate [simp]: "cnt P (replicate n x) = (if P x then n else 0)"
  by (induction n) auto

lemma cnt_0_iff: "cnt P xs = 0 \<longleftrightarrow> (\<forall>i<length xs. \<not> P (xs ! i))"
  by (auto simp: cnt_def filter_empty_conv all_set_conv_all_nth)

lemma cnt_pos_iff: "0 < cnt P xs \<longleftrightarrow> (\<exists>i<length xs. P (xs ! i))"
  using cnt_0_iff [of P xs] by auto

lemma cnt_mono: "(\<And>x. x \<in> set xs \<Longrightarrow> P x \<Longrightarrow> Q x) \<Longrightarrow> cnt P xs \<le> cnt Q xs"
  by (induction xs) (auto simp: of_bool_def split: if_splits intro: le_SucI)

lemma cnt_cong: "(\<And>x. x \<in> set xs \<Longrightarrow> P x = Q x) \<Longrightarrow> cnt P xs = cnt Q xs"
  by (induction xs) auto

lemma cnt_disj: "(\<And>x. \<not> (P x \<and> Q x)) \<Longrightarrow> cnt (\<lambda>x. P x \<or> Q x) xs = cnt P xs + cnt Q xs"
  by (induction xs) (auto simp: of_bool_def)

lemma cnt_eq_length_iff: "cnt P xs = length xs \<longleftrightarrow> (\<forall>x\<in>set xs. P x)"
  by (auto simp: cnt_def filter_id_conv length_filter_less
    dest: length_filter_less [of _ xs P])

text \<open>An update moves one element, so it changes a count by what left and what came.\<close>

lemma cnt_update:
  "i < length xs \<Longrightarrow> cnt P (xs[i := y]) + of_bool (P (xs ! i)) = cnt P xs + of_bool (P y)"
proof (induction xs arbitrary: i)
  case Nil
  then show ?case by simp
next
  case (Cons x xs)
  then show ?case by (cases i) (auto simp: ac_simps)
qed

lemma of_nat_cnt_update:
  assumes "i < length xs"
  shows "(of_nat (cnt P (xs[i := y])) :: 'a::ring_1)
    = of_nat (cnt P xs) - of_bool (P (xs ! i)) + of_bool (P y)"
proof -
  have "(of_nat (cnt P (xs[i := y]) + of_bool (P (xs ! i))) :: 'a)
      = of_nat (cnt P xs + of_bool (P y))"
    using cnt_update [OF assms, of P y] by simp
  then show ?thesis by (simp add: of_bool_def eq_diff_eq split: if_splits)
qed

lemma cnt_update_same:
  "i < length xs \<Longrightarrow> P y = P (xs ! i) \<Longrightarrow> cnt P (xs[i := y]) = cnt P xs"
  using cnt_update [of i xs P y] by simp

lemma cnt_update_in:
  "i < length xs \<Longrightarrow> P y \<Longrightarrow> \<not> P (xs ! i) \<Longrightarrow> cnt P (xs[i := y]) = Suc (cnt P xs)"
  using cnt_update [of i xs P y] by simp

lemma cnt_update_out:
  "i < length xs \<Longrightarrow> \<not> P y \<Longrightarrow> P (xs ! i) \<Longrightarrow> Suc (cnt P (xs[i := y])) = cnt P xs"
  using cnt_update [of i xs P y] by simp

lemma cnt_card: "cnt P xs = card {i. i < length xs \<and> P (xs ! i)}"
  by (simp add: cnt_def length_filter_conv_card)

lemma cnt_less:
  assumes "i < length xs" "Q (xs ! i)" "\<not> P (xs ! i)" and "\<And>x. P x \<Longrightarrow> Q x"
  shows "cnt P xs < cnt Q xs"
  unfolding cnt_card by (intro psubset_card_mono) (use assms in auto)

lemma cnt_less_length: "i < length xs \<Longrightarrow> \<not> P (xs ! i) \<Longrightarrow> cnt P xs < length xs"
  using cnt_less [of i xs "\<lambda>_. True" P] by (simp add: cnt_def)

lemma cnt_pointwise:
  assumes "length ys = length xs" and "\<And>i. i < length xs \<Longrightarrow> P (ys ! i) = Q (xs ! i)"
  shows "cnt P ys = cnt Q xs"
  unfolding cnt_card by (rule arg_cong [of _ _ card]) (use assms in auto)

text \<open>The same for a sum of weights: the termination measures are such sums.\<close>

lemma sum_list_update_weight:
  fixes f :: "'a \<Rightarrow> nat"
  shows "i < length xs \<Longrightarrow>
    sum_list (map f (xs[i := y])) + f (xs ! i) = sum_list (map f xs) + f y"
proof (induction xs arbitrary: i)
  case Nil
  then show ?case by simp
next
  case (Cons x xs)
  then show ?case by (cases i) (auto simp: ac_simps)
qed

lemma sum_list_update_mset:
  fixes f :: "'a \<Rightarrow> 'b multiset"
  shows "i < length xs \<Longrightarrow>
    sum_list (map f (xs[i := y])) + f (xs ! i) = sum_list (map f xs) + f y"
proof (induction xs arbitrary: i)
  case Nil
  then show ?case by simp
next
  case (Cons x xs)
  then show ?case by (cases i) (auto simp: ac_simps)
qed

text \<open>For evaluating concrete runs.\<close>

lemma replicate_numeral: "replicate (numeral k) x = x # replicate (pred_numeral k) x"
  by (simp add: numeral_eq_Suc)

lemma upt_0_numeral: "[0..<numeral k] = [0..<pred_numeral k] @ [pred_numeral k]"
  by (simp add: numeral_eq_Suc)

end
