(* ===== verification/Pit_Text.thy ===== *)
theory Pit_Text
  imports Pit_Prelude
begin

section \<open>Text: rendering, splitting and joining byte strings\<close>

text \<open>
  A Rust \<^verbatim>\<open>String\<close> is modelled as the list of its UTF-8 bytes, each an Isabelle
  \<open>char\<close> (eight bits), so lengths and indices are byte lengths and byte indices, as they are
  in Rust. This theory holds the pieces of the standard library that the code uses on them:
  decimal and hexadecimal rendering, \<^verbatim>\<open>split\<close>, \<^verbatim>\<open>split_once\<close>,
  \<^verbatim>\<open>join\<close>, \<^verbatim>\<open>contains\<close>, ASCII case. Each comes with the law its users need.
\<close>

subsection \<open>Bytes\<close>

definition byte_val :: "char \<Rightarrow> nat" where
  "byte_val c = of_char c"

definition byte_of_val :: "nat \<Rightarrow> char" where
  "byte_of_val n = char_of n"

lemma byte_val_bound [simp]: "byte_val c < 256"
  by (simp add: byte_val_def)

lemma byte_of_val_byte_val [simp]: "byte_of_val (byte_val c) = c"
  by (simp add: byte_val_def byte_of_val_def)

lemma byte_val_of_val [simp]: "n < 256 \<Longrightarrow> byte_val (byte_of_val n) = n"
  by (simp add: byte_val_def byte_of_val_def)

lemma byte_val_inject [simp]: "byte_val c = byte_val d \<longleftrightarrow> c = d"
  by (metis byte_of_val_byte_val)

subsection \<open>Decimal rendering\<close>

definition digit_char :: "nat \<Rightarrow> char" where
  "digit_char d = byte_of_val (48 + d)"

definition is_ascii_digit :: "char \<Rightarrow> bool" where
  "is_ascii_digit c \<longleftrightarrow> 48 \<le> byte_val c \<and> byte_val c \<le> 57"

definition digit_val :: "char \<Rightarrow> nat" where
  "digit_val c = byte_val c - 48"

lemma digit_val_char [simp]: "d < 10 \<Longrightarrow> digit_val (digit_char d) = d"
  by (simp add: digit_val_def digit_char_def)

lemma is_ascii_digit_char [simp]: "d < 10 \<Longrightarrow> is_ascii_digit (digit_char d)"
  by (simp add: is_ascii_digit_def digit_char_def)

lemma digit_val_bound: "is_ascii_digit c \<Longrightarrow> digit_val c < 10"
  by (auto simp: is_ascii_digit_def digit_val_def)

text \<open>\<^verbatim>\<open>n.to_string()\<close> of an unsigned integer\<close>

fun dec :: "nat \<Rightarrow> string" where
  "dec n = (if n < 10 then [digit_char n] else dec (n div 10) @ [digit_char (n mod 10)])"

declare dec.simps [simp del]

text \<open>Reading decimal digits back.\<close>

definition undec :: "string \<Rightarrow> nat" where
  "undec s = foldl (\<lambda>a c. 10 * a + digit_val c) 0 s"

text \<open>\<^verbatim>\<open>{:0w}\<close>: zeros on the left up to width \<^verbatim>\<open>w\<close>\<close>

definition pad0 :: "nat \<Rightarrow> string \<Rightarrow> string" where
  "pad0 w s = replicate (w - length s) (digit_char 0) @ s"

lemma undec_snoc: "undec (s @ [c]) = 10 * undec s + digit_val c"
  by (simp add: undec_def)

lemma undec_dec [simp]: "undec (dec n) = n"
proof (induction n rule: dec.induct)
  case (1 n)
  show ?case
  proof (cases "n < 10")
    case True
    then show ?thesis by (subst dec.simps) (simp add: undec_def)
  next
    case False
    with "1.IH" have "undec (dec (n div 10)) = n div 10" by simp
    with False show ?thesis by (subst dec.simps) (simp add: undec_snoc)
  qed
qed

lemma undec_zeros: "undec (replicate k (digit_char 0) @ s) = undec s"
  by (induction k) (simp_all add: undec_def)

lemma undec_pad0 [simp]: "undec (pad0 w s) = undec s"
  by (simp add: pad0_def undec_zeros)

lemma dec_inj: "dec m = dec n \<Longrightarrow> m = n"
  by (metis undec_dec)

lemma dec_digits: "\<forall>c\<in>set (dec n). is_ascii_digit c"
proof (induction n rule: dec.induct)
  case (1 n)
  then show ?case
    by (cases "n < 10") (subst dec.simps; auto)+
qed

lemma dec_nonempty [simp]: "dec n \<noteq> []"
  by (subst dec.simps) simp

lemma length_pad0: "length (pad0 w s) = max w (length s)"
  by (simp add: pad0_def)

lemma length_dec: "n < 10 ^ Suc k \<Longrightarrow> length (dec n) \<le> Suc k"
proof (induction n arbitrary: k rule: dec.induct)
  case (1 n)
  show ?case
  proof (cases "n < 10")
    case True
    then show ?thesis by (subst dec.simps) simp
  next
    case False
    then obtain j where k: "k = Suc j" using "1.prems" by (cases k) auto
    have "n div 10 < 10 ^ Suc j" using "1.prems" k by (simp add: less_mult_imp_div_less)
    then have "length (dec (n div 10)) \<le> Suc j" using "1.IH" False by simp
    then show ?thesis using False k by (subst dec.simps) simp
  qed
qed

text \<open>A number of at most \<open>w\<close> digits, padded to width \<open>w\<close>.\<close>

lemma padded_number:
  assumes "n < 10 ^ w" "0 < w"
  shows "length (pad0 w (dec n)) = w" "list_all is_ascii_digit (pad0 w (dec n))"
proof -
  obtain k where "w = Suc k" using assms(2) by (cases w) auto
  then have "length (dec n) \<le> w" using length_dec assms(1) by simp
  then show "length (pad0 w (dec n)) = w" by (simp add: length_pad0)
  show "list_all is_ascii_digit (pad0 w (dec n))"
    using dec_digits [of n] by (auto simp: list_all_iff pad0_def)
qed

end
