(* ===== verification/Sched_Types.thy ===== *)
theory Sched_Types
  imports Pit_Text
begin

section \<open>Scheduler data: identifiers, lanes, events, reports, snapshots\<close>

text \<open>
  The data model of \<^verbatim>\<open>crates/pit-scheduler/src/lib.rs\<close> (lines 11 to 310) and the
  operations on it that are not concurrent: the identifiers and how they are shown, lane states,
  lifecycle events, reports and snapshots, the private per-batch \<^verbatim>\<open>RunState\<close> and the
  constructors and read accessors of \<^verbatim>\<open>PitScheduler\<close>. The two concurrent entry
  points are in the theories on the shared pool and on batch runs.
\<close>

subsection \<open>Identifiers\<close>

datatype ExecutionId = ExecutionId (eid_num: u64)

datatype LaneId = LaneId (lane_num: nat)

text \<open>The derived \<^verbatim>\<open>Ord\<close> of \<^verbatim>\<open>ExecutionId\<close> compares the numbers.\<close>

instantiation ExecutionId :: linorder
begin

definition less_eq_ExecutionId :: "ExecutionId \<Rightarrow> ExecutionId \<Rightarrow> bool" where
  "less_eq_ExecutionId a b \<longleftrightarrow> eid_num a \<le> eid_num b"

definition less_ExecutionId :: "ExecutionId \<Rightarrow> ExecutionId \<Rightarrow> bool" where
  "less_ExecutionId a b \<longleftrightarrow> eid_num a < eid_num b"

instance
  by standard (auto simp: less_eq_ExecutionId_def less_ExecutionId_def intro: ExecutionId.expand)

end

text \<open>
  \<^verbatim>\<open>write!(formatter, "{:04}", self.0 + 1)\<close>. The addition is on \<^verbatim>\<open>u64\<close>:
  with overflow checks (a debug build) it panics on the last identifier, which is \<open>None\<close> here;
  without them it wraps.
\<close>

definition display_execution_id :: "bool \<Rightarrow> ExecutionId \<Rightarrow> string option" where
  "display_execution_id overflow_checks e =
     (if overflow_checks \<and> eid_num e = - 1 then None
      else Some (pad0 4 (dec (unat (eid_num e + 1)))))"

definition display_lane_id :: "LaneId \<Rightarrow> string" where
  "display_lane_id l = dec (lane_num l)"

lemma undec_display_execution_id:
  "display_execution_id chk e = Some s \<Longrightarrow> undec s = unat (eid_num e + 1)"
  by (auto simp: display_execution_id_def split: if_splits)

lemma display_execution_id_inj:
  assumes "display_execution_id chk e = Some s" and "display_execution_id chk' f = Some s"
  shows "e = f"
proof -
  have "unat (eid_num e + 1) = unat (eid_num f + 1)"
    using undec_display_execution_id [OF assms(1)] undec_display_execution_id [OF assms(2)]
    by simp
  then have "eid_num e + 1 = eid_num f + 1"
    by (rule unsigned_word_eqI)
  then show ?thesis by (simp add: ExecutionId.expand)
qed

subsection \<open>Lanes, events, reports\<close>

record ExecutionLane =
  lane_id_of :: LaneId

datatype LaneState = LaneFree | LaneRunning ExecutionId

datatype ExecutionEvent =
    EvQueued ExecutionId
  | EvStarted ExecutionId LaneId duration
  | EvCompleted ExecutionId LaneId duration
  | EvFailed ExecutionId LaneId duration string

fun event_id :: "ExecutionEvent \<Rightarrow> ExecutionId" where
  "event_id (EvQueued e) = e"
| "event_id (EvStarted e _ _) = e"
| "event_id (EvCompleted e _ _) = e"
| "event_id (EvFailed e _ _ _) = e"

record ExecutionReport =
  execution_id :: ExecutionId
  lane_id :: LaneId
  started :: nat
  queued_for :: duration
  scheduling_gap :: duration
  rep_duration :: duration
  success :: bool
  rep_error :: "string option"

record 'a ExecutionResult =
  report :: ExecutionReport
  result_value :: "'a option"

record SchedulerSnapshot =
  snap_lane_count :: usize
  snap_running :: usize
  snap_queued :: usize
  snap_completed :: usize
  snap_failed :: usize
  snap_peak_active :: usize
  snap_lanes :: "LaneState list"

record 'a SchedulerRun =
  run_results :: "'a ExecutionResult list"
  run_events :: "ExecutionEvent list"
  run_snapshot :: SchedulerSnapshot

subsection \<open>The state of one batch\<close>

record RunState =
  rs_queued :: usize
  rs_running :: usize
  rs_completed :: usize
  rs_failed :: usize
  rs_peak_active :: usize
  rs_lanes :: "LaneState list"
  rs_events :: "ExecutionEvent list"

definition new_run_state :: "nat \<Rightarrow> usize \<Rightarrow> RunState" where
  "new_run_state lane_count queued =
     \<lparr>rs_queued = queued, rs_running = 0, rs_completed = 0, rs_failed = 0, rs_peak_active = 0,
      rs_lanes = map (\<lambda>_. LaneFree) [0..<lane_count], rs_events = []\<rparr>"

definition push_event :: "ExecutionEvent \<Rightarrow> RunState \<Rightarrow> RunState" where
  "push_event ev rs = rs\<lparr>rs_events := rs_events rs @ [ev]\<rparr>"

text \<open>\<^verbatim>\<open>self.lanes[lane_id.0]\<close> panics out of range: \<open>None\<close>.\<close>

definition set_lane :: "LaneId \<Rightarrow> LaneState \<Rightarrow> RunState \<Rightarrow> RunState option" where
  "set_lane l st rs =
     (if lane_num l < length (rs_lanes rs)
      then Some (rs\<lparr>rs_lanes := (rs_lanes rs)[lane_num l := st]\<rparr>) else None)"

definition run_state_snapshot :: "RunState \<Rightarrow> nat \<Rightarrow> SchedulerSnapshot" where
  "run_state_snapshot rs lane_count =
     \<lparr>snap_lane_count = word_of_nat lane_count, snap_running = rs_running rs,
      snap_queued = rs_queued rs, snap_completed = rs_completed rs, snap_failed = rs_failed rs,
      snap_peak_active = rs_peak_active rs, snap_lanes = rs_lanes rs\<rparr>"

subsection \<open>The scheduler\<close>

text \<open>
  The \<^verbatim>\<open>Arc\<close>s of the code make the fields shared between clones of one scheduler; the
  record is that shared state. The mutex of \<^verbatim>\<open>shared_lanes\<close> and its condition variable
  are part of the thread model of the shared pool.
\<close>

record PitScheduler =
  sched_lanes :: "ExecutionLane list"
  next_execution_id :: u64
  shared_lanes :: "ExecutionId option list"
  shared_active :: usize
  shared_waiting :: usize
  shared_peak :: usize
  created_at :: instant
  busy_nanos :: u64

definition scheduler_with_lanes :: "nat \<Rightarrow> instant \<Rightarrow> PitScheduler" where
  "scheduler_with_lanes n now =
     \<lparr>sched_lanes = map (\<lambda>i. \<lparr>lane_id_of = LaneId i\<rparr>) [0..<n], next_execution_id = 0,
      shared_lanes = replicate n None, shared_active = 0, shared_waiting = 0, shared_peak = 0,
      created_at = now, busy_nanos = 0\<rparr>"

definition new_scheduler :: "nat \<Rightarrow> instant \<Rightarrow> string + PitScheduler" where
  "new_scheduler n now =
     (if n = 0 then Inl ''execution lane count must be greater than zero''
      else Inr (scheduler_with_lanes n now))"

text \<open>
  \<^verbatim>\<open>PitScheduler::local\<close>: the host's parallelism is a \<^verbatim>\<open>NonZeroUsize\<close> when it
  is known, and one lane otherwise.
\<close>

definition local_scheduler :: "nat option \<Rightarrow> instant \<Rightarrow> PitScheduler" where
  "local_scheduler available_parallelism now =
     scheduler_with_lanes (case available_parallelism of None \<Rightarrow> 1 | Some n \<Rightarrow> n) now"

definition lane_count :: "PitScheduler \<Rightarrow> nat" where
  "lane_count p = length (sched_lanes p)"

definition busy_time :: "PitScheduler \<Rightarrow> duration" where
  "busy_time p = unat (busy_nanos p)"

definition lane_view :: "ExecutionId option \<Rightarrow> LaneState" where
  "lane_view slot = (case slot of None \<Rightarrow> LaneFree | Some e \<Rightarrow> LaneRunning e)"

text \<open>What the atomics of the shared API read, under the names of their accessors.\<close>

definition lane_descriptors :: "PitScheduler \<Rightarrow> ExecutionLane list" where
  "lane_descriptors p = sched_lanes p"

definition peak_active_now :: "PitScheduler \<Rightarrow> usize" where [simp]:
  "peak_active_now p = shared_peak p"

definition active_now :: "PitScheduler \<Rightarrow> usize" where [simp]:
  "active_now p = shared_active p"

definition waiting_now :: "PitScheduler \<Rightarrow> usize" where [simp]:
  "waiting_now p = shared_waiting p"

text \<open>
  The time since the creation is read in nanoseconds and the capacity saturates, both as
  \<^verbatim>\<open>u128\<close>; the quotient is clamped to one.
\<close>

definition grid_utilization :: "'f floats \<Rightarrow> instant \<Rightarrow> PitScheduler \<Rightarrow> 'f" where
  "grid_utilization fl now p =
     (let elapsed_nanos = duration_since now (created_at p) in
      if elapsed_nanos = 0 \<or> lane_count p = 0 then fl_default fl
      else (let capacity = min (elapsed_nanos * lane_count p) (2 ^ 128 - 1) in
        fl_min fl (fl_div fl (fl_of_int fl (unat (busy_nanos p))) (fl_of_int fl capacity)) (fl_one fl)))"

definition shared_snapshot :: "PitScheduler \<Rightarrow> SchedulerSnapshot" where
  "shared_snapshot p =
     \<lparr>snap_lane_count = word_of_nat (lane_count p), snap_running = active_now p,
      snap_queued = waiting_now p, snap_completed = 0, snap_failed = 0,
      snap_peak_active = peak_active_now p, snap_lanes = map lane_view (shared_lanes p)\<rparr>"

lemma scheduler_with_lanes_sizes [simp]:
  "lane_count (scheduler_with_lanes n now) = n"
  "length (shared_lanes (scheduler_with_lanes n now)) = n"
  by (simp_all add: lane_count_def scheduler_with_lanes_def)

lemma new_scheduler_Inr_iff:
  "new_scheduler n now = Inr p \<longleftrightarrow> 0 < n \<and> p = scheduler_with_lanes n now"
  by (auto simp: new_scheduler_def)

lemma set_lane_Some [simp]:
  "lane_num l < length (rs_lanes rs) \<Longrightarrow>
    set_lane l st rs = Some (rs\<lparr>rs_lanes := (rs_lanes rs)[lane_num l := st]\<rparr>)"
  by (simp add: set_lane_def)

end
