(* ===== verification/Lane_Pool.thy ===== *)
theory Lane_Pool
  imports Sched_Types
begin

section \<open>The lane table: claiming and vacating a lane\<close>

text \<open>
  The table behind \<^verbatim>\<open>PitScheduler::shared_lanes\<close> (a
  \<^verbatim>\<open>Vec<Option<ExecutionId>>\<close>) and the two operations that
  \<^verbatim>\<open>run_one_observed\<close> performs on it under the lock: claiming the first free slot and
  vacating a slot. The locale \<open>lane_table\<close> is what the thread model of the shared pool needs
  to know of them; it is interpreted on the code's operations below.
\<close>

subsection \<open>The interface\<close>

locale lane_table =
  fixes claim :: "'p \<Rightarrow> ExecutionId \<Rightarrow> (nat \<times> 'p) option"
    and vacate :: "'p \<Rightarrow> nat \<Rightarrow> 'p"
    and holder :: "'p \<Rightarrow> nat \<Rightarrow> ExecutionId option"
    and capacity :: "'p \<Rightarrow> nat"
    and occupied :: "'p \<Rightarrow> nat"
  assumes claim_free: "claim p e = Some (l, q) \<Longrightarrow> l < capacity p \<and> holder p l = None"
    and claim_holder: "claim p e = Some (l, q) \<Longrightarrow> holder q = (holder p)(l := Some e)"
    and claim_capacity: "claim p e = Some (l, q) \<Longrightarrow> capacity q = capacity p"
    and claim_None: "claim p e = None \<Longrightarrow> l < capacity p \<Longrightarrow> holder p l \<noteq> None"
    and vacate_holder: "l < capacity p \<Longrightarrow> holder (vacate p l) = (holder p)(l := None)"
    and vacate_capacity: "capacity (vacate p l) = capacity p"
    and occupied_card: "occupied p = card {l. l < capacity p \<and> holder p l \<noteq> None}"
begin

lemma occupied_le: "occupied p \<le> capacity p"
proof -
  have "card {l. l < capacity p \<and> holder p l \<noteq> None} \<le> card {..<capacity p}"
    by (intro card_mono) auto
  then show ?thesis by (simp add: occupied_card)
qed

lemma claim_occupied:
  assumes "claim p e = Some (l, q)"
  shows "occupied q = Suc (occupied p)"
proof -
  have "{k. k < capacity q \<and> holder q k \<noteq> None}
      = insert l {k. k < capacity p \<and> holder p k \<noteq> None}"
    using claim_free [OF assms] by (auto simp: claim_holder [OF assms] claim_capacity [OF assms])
  then show ?thesis
    using claim_free [OF assms] by (simp add: occupied_card)
qed

lemma claim_not_full: "claim p e = Some (l, q) \<Longrightarrow> occupied p < capacity p"
  using claim_occupied claim_capacity occupied_le by (metis Suc_le_eq)

lemma claim_None_full:
  assumes "claim p e = None"
  shows "occupied p = capacity p"
proof -
  have "{l. l < capacity p \<and> holder p l \<noteq> None} = {..<capacity p}"
    using claim_None [OF assms] by auto
  then show ?thesis by (simp add: occupied_card)
qed

lemma vacate_occupied:
  assumes "l < capacity p" and "holder p l = Some e"
  shows "Suc (occupied (vacate p l)) = occupied p"
proof -
  have "{k. k < capacity p \<and> holder p k \<noteq> None}
      = insert l {k. k < capacity (vacate p l) \<and> holder (vacate p l) k \<noteq> None}"
    using assms by (auto simp: vacate_holder vacate_capacity)
  moreover have "l \<notin> {k. k < capacity (vacate p l) \<and> holder (vacate p l) k \<noteq> None}"
    using assms by (simp add: vacate_holder)
  ultimately show ?thesis by (simp add: occupied_card)
qed

text \<open>Claiming a free lane and vacating it again restores the table.\<close>

lemma claim_vacate_holder:
  "claim p e = Some (l, q) \<Longrightarrow> holder (vacate q l) = holder p"
  using claim_free [of p e l q] by (simp add: vacate_holder claim_capacity claim_holder fun_eq_iff)

end

subsection \<open>The code's table\<close>

text \<open>
  \<^verbatim>\<open>occupied.iter_mut().enumerate().find(|(_, id)| id.is_none())\<close> followed by
  \<^verbatim>\<open>*slot = Some(execution_id)\<close>: the first free slot is taken.
\<close>

fun claim_lane ::
  "ExecutionId option list \<Rightarrow> ExecutionId \<Rightarrow> (nat \<times> ExecutionId option list) option" where
  "claim_lane [] e = None"
| "claim_lane (None # slots) e = Some (0, Some e # slots)"
| "claim_lane (Some f # slots) e =
     (case claim_lane slots e of None \<Rightarrow> None | Some (l, slots') \<Rightarrow> Some (Suc l, Some f # slots'))"

text \<open>\<^verbatim>\<open>occupied[lane.0] = None\<close>\<close>

definition vacate_lane :: "ExecutionId option list \<Rightarrow> nat \<Rightarrow> ExecutionId option list" where
  "vacate_lane slots l = slots[l := None]"

definition lane_holder :: "ExecutionId option list \<Rightarrow> nat \<Rightarrow> ExecutionId option" where
  "lane_holder slots l = (if l < length slots then slots ! l else None)"

definition occupied_lanes :: "ExecutionId option list \<Rightarrow> nat" where
  "occupied_lanes slots = cnt (\<lambda>slot. slot \<noteq> None) slots"

lemma claim_lane_Some:
  "claim_lane slots e = Some (l, slots') \<Longrightarrow>
    l < length slots \<and> slots ! l = None \<and> slots' = slots[l := Some e]
      \<and> (\<forall>k<l. slots ! k \<noteq> None)"
proof (induction slots e arbitrary: l slots' rule: claim_lane.induct)
  case (3 f slots e)
  then show ?case by (auto simp: nth_Cons split: option.splits nat.splits)
qed auto

lemma claim_lane_None: "claim_lane slots e = None \<Longrightarrow> l < length slots \<Longrightarrow> slots ! l \<noteq> None"
proof (induction slots e arbitrary: l rule: claim_lane.induct)
  case (3 f slots e)
  then show ?case by (cases l) (auto split: option.splits)
qed auto

interpretation lane_slots: lane_table claim_lane vacate_lane lane_holder length occupied_lanes
proof unfold_locales
  show "occupied_lanes p = card {l. l < length p \<and> lane_holder p l \<noteq> None}" for p
    unfolding occupied_lanes_def cnt_card lane_holder_def by (rule arg_cong [of _ _ card]) auto
qed (auto simp: lane_holder_def vacate_lane_def fun_eq_iff dest: claim_lane_Some claim_lane_None)

text \<open>The code claims the lowest free lane.\<close>

lemma claim_lane_first: "claim_lane slots e = Some (l, slots') \<Longrightarrow> k < l \<Longrightarrow> slots ! k \<noteq> None"
  using claim_lane_Some by blast

end
