(* ===== verification/Transition_System.thy ===== *)
theory Transition_System
  imports Pit_Prelude
begin

section \<open>Interfaces of concurrent components: invariants and ranks\<close>

text \<open>
  The concurrent parts of the program (the shared lane pool, one batch run, the warm-up table)
  are step relations. This theory states once what such a component promises: an
  \<open>invariant_system\<close> keeps its invariant along every run, and a \<open>ranked_system\<close> in
  addition decreases a rank with every step and has a step in every state that is not final, so
  that every run is finite and every maximal run ends in a final state. The component theories
  interpret these locales on their own step relations.
\<close>

locale invariant_system =
  fixes init :: "'s \<Rightarrow> bool"
    and step :: "'s \<Rightarrow> 's \<Rightarrow> bool"
    and inv :: "'s \<Rightarrow> bool"
  assumes inv_init: "init s \<Longrightarrow> inv s"
    and inv_step: "inv s \<Longrightarrow> step s t \<Longrightarrow> inv t"
begin

lemma inv_steps: "step\<^sup>*\<^sup>* s t \<Longrightarrow> inv s \<Longrightarrow> inv t"
  by (induction rule: rtranclp_induct) (auto intro: inv_step)

lemma inv_reachable: "init s \<Longrightarrow> step\<^sup>*\<^sup>* s t \<Longrightarrow> inv t"
  by (blast intro: inv_init inv_steps)

lemma inv_relpow: "inv s \<Longrightarrow> (step ^^ n) s t \<Longrightarrow> inv t"
  by (blast intro: inv_steps relpowp_imp_rtranclp)

end

locale ranked_system = invariant_system +
  fixes rank :: "'s \<Rightarrow> nat"
    and final :: "'s \<Rightarrow> bool"
  assumes rank_step: "inv s \<Longrightarrow> step s t \<Longrightarrow> rank t < rank s"
    and progress: "inv s \<Longrightarrow> \<not> final s \<Longrightarrow> \<exists>t. step s t"
begin

text \<open>A run spends rank with every step, so its length is bounded by the rank it started with.\<close>

lemma run_length:
  assumes "inv s" and "(step ^^ n) s t"
  shows "n + rank t \<le> rank s"
  using assms(2)
proof (induction n arbitrary: t)
  case 0
  then show ?case by simp
next
  case (Suc n)
  then obtain u where u: "(step ^^ n) s u" "step u t" by auto
  then have "rank t < rank u"
    using assms(1) inv_relpow rank_step by blast
  with Suc.IH [OF u(1)] show ?case by simp
qed

lemma no_infinite_run:
  assumes "inv (f 0)"
  shows "\<not> (\<forall>i. step (f i) (f (Suc i)))"
proof
  assume run: "\<forall>i. step (f i) (f (Suc i))"
  have "(step ^^ n) (f 0) (f n)" for n
    using run by (induction n) auto
  from run_length [OF assms this] have "Suc (rank (f 0)) \<le> rank (f 0)"
    by (meson add_leD1)
  then show False by simp
qed

lemma stuck_final: "inv s \<Longrightarrow> (\<And>t. \<not> step s t) \<Longrightarrow> final s"
  using progress by blast

lemma reaches_final:
  assumes "inv s"
  shows "\<exists>t. step\<^sup>*\<^sup>* s t \<and> final t"
  using assms
proof (induction "rank s" arbitrary: s rule: less_induct)
  case less
  show ?case
  proof (cases "final s")
    case True
    then show ?thesis by blast
  next
    case False
    then obtain t where t: "step s t" using progress less.prems by blast
    then obtain u where "step\<^sup>*\<^sup>* t u" "final u"
      using less.hyps rank_step inv_step less.prems by blast
    then show ?thesis using t by (meson converse_rtranclp_into_rtranclp)
  qed
qed

end

end
