(* ===== verification/Sched_Shared.thy ===== *)
theory Sched_Shared
  imports Lane_Pool Transition_System
begin

section \<open>The shared lane pool: concurrent callers of \<^verbatim>\<open>run_one_observed\<close>\<close>

text \<open>
  Any number of threads call \<^verbatim>\<open>PitScheduler::run_one\<close> on one scheduler. Every caller
  is a program counter and its local variables; a step is one atomic operation, lock operation,
  clock reading or callback of \<^verbatim>\<open>run_one_observed\<close>, so two callers interleave exactly
  where two threads can. What the task returns (or that it panics), what the observer does, which
  sleeper \<^verbatim>\<open>notify_one\<close> picks, when a spurious wake-up happens and how time passes are
  left open.
\<close>

subsection \<open>Callers\<close>

text \<open>How a task ends: a value, an error (its rendered message), or an unwinding panic.\<close>

datatype 'a outcome = TaskOk 'a | TaskErr string | TaskPanic

datatype run_pc =
    AtEnter \<comment> \<open>take an identifier\<close>
  | AtEnqueue \<comment> \<open>\<^verbatim>\<open>shared_waiting.fetch_add\<close>\<close>
  | AtLock \<comment> \<open>first \<^verbatim>\<open>lock.lock()\<close>\<close>
  | AtScan \<comment> \<open>lock held: the body of the loop\<close>
  | AtSleep \<comment> \<open>inside \<^verbatim>\<open>wake.wait\<close>\<close>
  | AtWoken \<comment> \<open>woken, about to take the lock again\<close>
  | AtLeaveQueue \<comment> \<open>lock held: \<^verbatim>\<open>shared_waiting.fetch_sub\<close>\<close>
  | AtUnlock \<comment> \<open>lock held: \<^verbatim>\<open>drop(occupied)\<close>\<close>
  | AtObserve \<comment> \<open>the \<^verbatim>\<open>on_assigned\<close> callback\<close>
  | AtActivate \<comment> \<open>\<^verbatim>\<open>shared_active.fetch_add\<close>\<close>
  | AtPeak \<comment> \<open>\<^verbatim>\<open>shared_peak.fetch_max\<close>\<close>
  | AtQueuedFor \<comment> \<open>\<^verbatim>\<open>queued_at.elapsed()\<close>\<close>
  | AtTaskStarted \<comment> \<open>read the start instants\<close>
  | AtTimer
  | AtTask \<comment> \<open>inside the task\<close>
  | AtElapsed \<comment> \<open>\<^verbatim>\<open>timer.elapsed()\<close>\<close>
  | AtAccount \<comment> \<open>\<^verbatim>\<open>busy_nanos.fetch_add\<close> and the report\<close>
  | AtRelock \<comment> \<open>second \<^verbatim>\<open>lock.lock()\<close>\<close>
  | AtVacate \<comment> \<open>lock held: free the lane\<close>
  | AtDeactivate \<comment> \<open>lock held: \<^verbatim>\<open>shared_active.fetch_sub\<close>\<close>
  | AtNotify \<comment> \<open>lock held: \<^verbatim>\<open>wake.notify_one()\<close>\<close>
  | AtReturn \<comment> \<open>lock held: return, which drops the guard\<close>
  | AtDone
  | AtPanicked bool \<comment> \<open>unwound; the flag: after \<^verbatim>\<open>shared_active.fetch_add\<close>\<close>

record 'a caller =
  c_pc :: run_pc
  c_eid :: ExecutionId
  c_queued_at :: instant
  c_lane :: nat
  c_assigned_at :: instant
  c_active :: usize
  c_queued_for :: duration
  c_task_started_at :: instant
  c_started :: nat
  c_timer :: instant
  c_outcome :: "'a outcome"
  c_duration :: duration
  c_result :: "'a ExecutionResult option"

definition new_caller :: "'a caller" where
  "new_caller =
     \<lparr>c_pc = AtEnter, c_eid = ExecutionId 0, c_queued_at = 0, c_lane = 0, c_assigned_at = 0,
      c_active = 0, c_queued_for = 0, c_task_started_at = 0, c_started = 0, c_timer = 0,
      c_outcome = TaskPanic, c_duration = 0, c_result = None\<rparr>"

text \<open>
  What the callers bring along: the task of caller \<open>i\<close> as the outcomes it may have on an
  identifier and a lane, whether its observer panics, and the wall clock as a function of the
  monotonic one.
\<close>

record 'a pool_env =
  may_return :: "nat \<Rightarrow> ExecutionId \<Rightarrow> LaneId \<Rightarrow> 'a outcome \<Rightarrow> bool"
  observer_panics :: "nat \<Rightarrow> ExecutionId \<Rightarrow> LaneId \<Rightarrow> bool"
  wall_clock :: "instant \<Rightarrow> nat"

text \<open>\<^verbatim>\<open>run_one\<close> is the call with an observer that does nothing.\<close>

definition run_one_env ::
  "(nat \<Rightarrow> ExecutionId \<Rightarrow> LaneId \<Rightarrow> 'a outcome \<Rightarrow> bool) \<Rightarrow> (instant \<Rightarrow> nat) \<Rightarrow> 'a pool_env" where
  "run_one_env returns wall = \<lparr>may_return = returns, observer_panics = (\<lambda>_ _ _. False), wall_clock = wall\<rparr>"

record 'a pool =
  sched :: PitScheduler
  pool_lock :: "nat option"
  pool_clock :: instant
  callers :: "'a caller list"

definition init_pool :: "PitScheduler \<Rightarrow> nat \<Rightarrow> 'a pool" where
  "init_pool p n =
     \<lparr>sched = p, pool_lock = None, pool_clock = created_at p, callers = replicate n new_caller\<rparr>"

subsection \<open>One step of one caller\<close>

text \<open>\<^verbatim>\<open>match outcome { Ok(value) => (true, None, Some(value)), Err(error) => ... }\<close>\<close>

fun outcome_fields :: "'a outcome \<Rightarrow> bool \<times> string option \<times> 'a option" where
  "outcome_fields (TaskOk v) = (True, None, Some v)"
| "outcome_fields (TaskErr e) = (False, Some e, None)"
| "outcome_fields TaskPanic = (False, None, None)"

definition caller_result :: "'a caller \<Rightarrow> 'a ExecutionResult" where
  "caller_result c =
     (case outcome_fields (c_outcome c) of (ok, err, val) \<Rightarrow>
       \<lparr>report =
          \<lparr>execution_id = c_eid c, lane_id = LaneId (c_lane c), started = c_started c,
           queued_for = c_queued_for c,
           scheduling_gap = duration_since (c_task_started_at c) (c_assigned_at c),
           rep_duration = c_duration c, success = ok, rep_error = err\<rparr>,
        result_value = val\<rparr>)"

text \<open>
  One step of caller \<open>i\<close> at the clock value \<open>now\<close>: its new locals, the scheduler and the
  holder of the lock. \<open>None\<close> means that it cannot step: the lock is taken, it sleeps, its task
  has not returned (\<open>out\<close> is how it ends), or it is finished. \<open>AtNotify\<close> also wakes
  another caller, which \<open>pool_exec\<close> adds.
\<close>

definition caller_step ::
  "'a pool_env \<Rightarrow> nat \<Rightarrow> instant \<Rightarrow> 'a outcome option \<Rightarrow> 'a caller \<Rightarrow> PitScheduler \<Rightarrow> nat option
    \<Rightarrow> ('a caller \<times> PitScheduler \<times> nat option) option" where
  "caller_step env i now out c p lk =
     (case c_pc c of
        AtEnter \<Rightarrow>
          Some (c\<lparr>c_pc := AtEnqueue, c_eid := ExecutionId (next_execution_id p), c_queued_at := now\<rparr>,
                p\<lparr>next_execution_id := next_execution_id p + 1\<rparr>, lk)
      | AtEnqueue \<Rightarrow>
          Some (c\<lparr>c_pc := AtLock\<rparr>, p\<lparr>shared_waiting := shared_waiting p + 1\<rparr>, lk)
      | AtLock \<Rightarrow> if lk = None then Some (c\<lparr>c_pc := AtScan\<rparr>, p, Some i) else None
      | AtScan \<Rightarrow>
          (case claim_lane (shared_lanes p) (c_eid c) of
             Some (l, slots) \<Rightarrow>
               Some (c\<lparr>c_pc := AtLeaveQueue, c_lane := l\<rparr>, p\<lparr>shared_lanes := slots\<rparr>, lk)
           | None \<Rightarrow> Some (c\<lparr>c_pc := AtSleep\<rparr>, p, None))
      | AtSleep \<Rightarrow> None
      | AtWoken \<Rightarrow> if lk = None then Some (c\<lparr>c_pc := AtScan\<rparr>, p, Some i) else None
      | AtLeaveQueue \<Rightarrow>
          Some (c\<lparr>c_pc := AtUnlock, c_assigned_at := now\<rparr>,
                p\<lparr>shared_waiting := shared_waiting p - 1\<rparr>, lk)
      | AtUnlock \<Rightarrow> Some (c\<lparr>c_pc := AtObserve\<rparr>, p, None)
      | AtObserve \<Rightarrow>
          Some (if observer_panics env i (c_eid c) (LaneId (c_lane c))
                then c\<lparr>c_pc := AtPanicked False\<rparr> else c\<lparr>c_pc := AtActivate\<rparr>, p, lk)
      | AtActivate \<Rightarrow>
          Some (c\<lparr>c_pc := AtPeak, c_active := shared_active p + 1\<rparr>,
                p\<lparr>shared_active := shared_active p + 1\<rparr>, lk)
      | AtPeak \<Rightarrow>
          Some (c\<lparr>c_pc := AtQueuedFor\<rparr>, p\<lparr>shared_peak := max (shared_peak p) (c_active c)\<rparr>, lk)
      | AtQueuedFor \<Rightarrow>
          Some (c\<lparr>c_pc := AtTaskStarted, c_queued_for := duration_since now (c_queued_at c)\<rparr>, p, lk)
      | AtTaskStarted \<Rightarrow>
          Some (c\<lparr>c_pc := AtTimer, c_task_started_at := now, c_started := wall_clock env now\<rparr>, p, lk)
      | AtTimer \<Rightarrow> Some (c\<lparr>c_pc := AtTask, c_timer := now\<rparr>, p, lk)
      | AtTask \<Rightarrow>
          (case out of None \<Rightarrow> None
           | Some r \<Rightarrow>
               if \<not> may_return env i (c_eid c) (LaneId (c_lane c)) r then None
               else if r = TaskPanic then Some (c\<lparr>c_pc := AtPanicked True\<rparr>, p, lk)
               else Some (c\<lparr>c_pc := AtElapsed, c_outcome := r\<rparr>, p, lk))
      | AtElapsed \<Rightarrow>
          Some (c\<lparr>c_pc := AtAccount, c_duration := duration_since now (c_timer c)\<rparr>, p, lk)
      | AtAccount \<Rightarrow>
          Some (c\<lparr>c_pc := AtRelock, c_result := Some (caller_result c)\<rparr>,
                p\<lparr>busy_nanos := busy_nanos p + nanos_u64 (c_duration c)\<rparr>, lk)
      | AtRelock \<Rightarrow> if lk = None then Some (c\<lparr>c_pc := AtVacate\<rparr>, p, Some i) else None
      | AtVacate \<Rightarrow>
          Some (c\<lparr>c_pc := AtDeactivate\<rparr>,
                p\<lparr>shared_lanes := vacate_lane (shared_lanes p) (c_lane c)\<rparr>, lk)
      | AtDeactivate \<Rightarrow>
          Some (c\<lparr>c_pc := AtNotify\<rparr>, p\<lparr>shared_active := shared_active p - 1\<rparr>, lk)
      | AtNotify \<Rightarrow> Some (c\<lparr>c_pc := AtReturn\<rparr>, p, lk)
      | AtReturn \<Rightarrow> Some (c\<lparr>c_pc := AtDone\<rparr>, p, None)
      | AtDone \<Rightarrow> None
      | AtPanicked b \<Rightarrow> None)"

subsection \<open>Steps of the pool\<close>

datatype 'a pool_act =
    Advance nat "'a outcome option"
  | NotifyOne nat "nat option" \<comment> \<open>who notifies, and which sleeper wakes\<close>
  | SpuriousWake nat

definition asleep :: "'a caller list \<Rightarrow> nat \<Rightarrow> bool" where
  "asleep cs j \<longleftrightarrow> j < length cs \<and> c_pc (cs ! j) = AtSleep"

definition wake_caller :: "nat \<Rightarrow> 'a caller list \<Rightarrow> 'a caller list" where
  "wake_caller j cs = cs[j := (cs ! j)\<lparr>c_pc := AtWoken\<rparr>]"

definition wake_chosen :: "nat option \<Rightarrow> 'a caller list \<Rightarrow> 'a caller list" where
  "wake_chosen w cs = (case w of None \<Rightarrow> cs | Some j \<Rightarrow> wake_caller j cs)"

text \<open>
  \<^verbatim>\<open>notify_one\<close> wakes one sleeper when there is one. The act names it; it names none
  exactly when nobody sleeps.
\<close>

definition wake_allowed :: "nat option \<Rightarrow> 'a caller list \<Rightarrow> bool" where
  "wake_allowed w cs =
     (case w of None \<Rightarrow> list_all (\<lambda>c. c_pc c \<noteq> AtSleep) cs | Some j \<Rightarrow> asleep cs j)"

fun pool_exec :: "'a pool_env \<Rightarrow> 'a pool_act \<Rightarrow> 'a pool \<Rightarrow> 'a pool option" where
  "pool_exec env (Advance i out) s =
     (if i < length (callers s) \<and> c_pc (callers s ! i) \<noteq> AtNotify then
        (case caller_step env i (pool_clock s) out (callers s ! i) (sched s) (pool_lock s) of
           None \<Rightarrow> None
         | Some (c, p, lk) \<Rightarrow>
             Some (s\<lparr>callers := (callers s)[i := c], sched := p, pool_lock := lk\<rparr>))
      else None)"
| "pool_exec env (NotifyOne i w) s =
     (if i < length (callers s) \<and> c_pc (callers s ! i) = AtNotify \<and> wake_allowed w (callers s) then
        (case caller_step env i (pool_clock s) None (callers s ! i) (sched s) (pool_lock s) of
           None \<Rightarrow> None
         | Some (c, p, lk) \<Rightarrow>
             Some (s\<lparr>callers := wake_chosen w ((callers s)[i := c]), sched := p, pool_lock := lk\<rparr>))
      else None)"
| "pool_exec env (SpuriousWake j) s =
     (if asleep (callers s) j then Some (s\<lparr>callers := wake_caller j (callers s)\<rparr>) else None)"

fun spurious :: "'a pool_act \<Rightarrow> bool" where
  "spurious (SpuriousWake _) = True"
| "spurious _ = False"

text \<open>A step happens at some instant not before the last one.\<close>

inductive pool_step :: "'a pool_env \<Rightarrow> 'a pool \<Rightarrow> 'a pool \<Rightarrow> bool" for env where
  pool_step: "pool_clock s \<le> now \<Longrightarrow> pool_exec env a (s\<lparr>pool_clock := now\<rparr>) = Some t \<Longrightarrow>
    pool_step env s t"

text \<open>The steps the program makes by itself: all but spurious wake-ups.\<close>

inductive pool_move :: "'a pool_env \<Rightarrow> 'a pool \<Rightarrow> 'a pool \<Rightarrow> bool" for env where
  pool_move: "pool_clock s \<le> now \<Longrightarrow> \<not> spurious a \<Longrightarrow>
    pool_exec env a (s\<lparr>pool_clock := now\<rparr>) = Some t \<Longrightarrow> pool_move env s t"

lemma pool_move_step: "pool_move env s t \<Longrightarrow> pool_step env s t"
  by (auto elim!: pool_move.cases intro: pool_step.intros)

text \<open>A schedule, run on the model.\<close>

fun pool_run :: "'a pool_env \<Rightarrow> (instant \<times> 'a pool_act) list \<Rightarrow> 'a pool \<Rightarrow> 'a pool option" where
  "pool_run env [] s = Some s"
| "pool_run env ((now, a) # acts) s =
     (if pool_clock s \<le> now then
        (case pool_exec env a (s\<lparr>pool_clock := now\<rparr>) of
           None \<Rightarrow> None | Some t \<Rightarrow> pool_run env acts t)
      else None)"

lemma pool_run_steps: "pool_run env acts s = Some t \<Longrightarrow> (pool_step env)\<^sup>*\<^sup>* s t"
proof (induction env acts s rule: pool_run.induct)
  case (2 env now a acts s)
  then obtain u where "pool_step env s u" "(pool_step env)\<^sup>*\<^sup>* u t"
    by (auto split: if_splits option.splits intro: pool_step.intros)
  then show ?case by (rule converse_rtranclp_into_rtranclp)
qed simp

end
