(* ===== verification/Sched_Shared_Inv.thy ===== *)
theory Sched_Shared_Inv
  imports Sched_Shared
begin

section \<open>The shared lane pool: invariants\<close>

text \<open>
  What every reachable state of the pool satisfies. The program counters are sorted into classes
  (who waits, who owns a lane, who is counted active, who holds the lock); the counters of the
  scheduler are proved equal to the numbers of callers in these classes, first for one
  \<open>caller_step\<close> as a change of at most one, then for the pool by the counting lemmas of the
  prelude.
\<close>

subsection \<open>Classes of program counters\<close>

fun queueing :: "run_pc \<Rightarrow> bool" where
  "queueing AtLock = True"
| "queueing AtScan = True"
| "queueing AtSleep = True"
| "queueing AtWoken = True"
| "queueing AtLeaveQueue = True"
| "queueing _ = False"

fun owns_lane :: "run_pc \<Rightarrow> bool" where
  "owns_lane AtLeaveQueue = True"
| "owns_lane AtUnlock = True"
| "owns_lane AtObserve = True"
| "owns_lane AtActivate = True"
| "owns_lane AtPeak = True"
| "owns_lane AtQueuedFor = True"
| "owns_lane AtTaskStarted = True"
| "owns_lane AtTimer = True"
| "owns_lane AtTask = True"
| "owns_lane AtElapsed = True"
| "owns_lane AtAccount = True"
| "owns_lane AtRelock = True"
| "owns_lane AtVacate = True"
| "owns_lane (AtPanicked _) = True"
| "owns_lane _ = False"

fun activated :: "run_pc \<Rightarrow> bool" where
  "activated AtPeak = True"
| "activated AtQueuedFor = True"
| "activated AtTaskStarted = True"
| "activated AtTimer = True"
| "activated AtTask = True"
| "activated AtElapsed = True"
| "activated AtAccount = True"
| "activated AtRelock = True"
| "activated AtVacate = True"
| "activated AtDeactivate = True"
| "activated (AtPanicked b) = b"
| "activated _ = False"

fun holds_lock :: "run_pc \<Rightarrow> bool" where
  "holds_lock AtScan = True"
| "holds_lock AtLeaveQueue = True"
| "holds_lock AtUnlock = True"
| "holds_lock AtVacate = True"
| "holds_lock AtDeactivate = True"
| "holds_lock AtNotify = True"
| "holds_lock AtReturn = True"
| "holds_lock _ = False"

text \<open>Callers that will look at the table, or make a sleeper do so, without further notice.\<close>

fun contender :: "run_pc \<Rightarrow> bool" where
  "contender AtScan = True"
| "contender AtWoken = True"
| "contender AtDeactivate = True"
| "contender AtNotify = True"
| "contender _ = False"

fun panicked :: "run_pc \<Rightarrow> bool" where
  "panicked (AtPanicked _) = True"
| "panicked _ = False"

definition finished :: "run_pc \<Rightarrow> bool" where
  "finished pc \<longleftrightarrow> pc = AtDone \<or> panicked pc"

text \<open>
  The rank of a program counter, an upper bound on the steps left. A sleeper that is woken goes up
  by two, which the notifier pays for.
\<close>

fun pc_rank :: "run_pc \<Rightarrow> nat" where
  "pc_rank AtEnter = 25"
| "pc_rank AtEnqueue = 24"
| "pc_rank AtLock = 23"
| "pc_rank AtWoken = 22"
| "pc_rank AtScan = 21"
| "pc_rank AtSleep = 20"
| "pc_rank AtLeaveQueue = 19"
| "pc_rank AtUnlock = 18"
| "pc_rank AtObserve = 17"
| "pc_rank AtActivate = 16"
| "pc_rank AtPeak = 15"
| "pc_rank AtQueuedFor = 14"
| "pc_rank AtTaskStarted = 13"
| "pc_rank AtTimer = 12"
| "pc_rank AtTask = 11"
| "pc_rank AtElapsed = 10"
| "pc_rank AtAccount = 9"
| "pc_rank AtRelock = 8"
| "pc_rank AtVacate = 7"
| "pc_rank AtDeactivate = 6"
| "pc_rank AtNotify = 5"
| "pc_rank AtReturn = 1"
| "pc_rank AtDone = 0"
| "pc_rank (AtPanicked b) = 0"

abbreviation in_class :: "(run_pc \<Rightarrow> bool) \<Rightarrow> 'a caller \<Rightarrow> bool" where
  "in_class P c \<equiv> P (c_pc c)"

subsection \<open>One step of one caller\<close>

text \<open>
  Each lemma says what one step of one caller changes: the counters by one when the class
  changes, the table only at the caller's own lane, the lock only between free and held by the
  caller.
\<close>

lemma step_waiting:
  "caller_step env i now out c p lk = Some (c', p', lk') \<Longrightarrow>
    shared_waiting p' =
      shared_waiting p - of_bool (queueing (c_pc c)) + of_bool (queueing (c_pc c'))"
  unfolding caller_step_def
  by (cases "c_pc c") (auto split: if_splits option.splits)

lemma step_active:
  "caller_step env i now out c p lk = Some (c', p', lk') \<Longrightarrow>
    shared_active p' =
      shared_active p - of_bool (activated (c_pc c)) + of_bool (activated (c_pc c'))"
  unfolding caller_step_def
  by (cases "c_pc c") (auto split: if_splits option.splits)

lemma step_rank:
  "caller_step env i now out c p lk = Some (c', p', lk') \<Longrightarrow> pc_rank (c_pc c') < pc_rank (c_pc c)"
  unfolding caller_step_def
  by (cases "c_pc c") (auto split: if_splits option.splits)

lemma step_lock_self:
  "caller_step env i now out c p lk = Some (c', p', lk') \<Longrightarrow>
    lk = Some i \<longleftrightarrow> holds_lock (c_pc c) \<Longrightarrow> lk' = Some i \<longleftrightarrow> holds_lock (c_pc c')"
  unfolding caller_step_def
  by (cases "c_pc c") (auto split: if_splits option.splits)

lemma step_lock_other:
  "caller_step env i now out c p lk = Some (c', p', lk') \<Longrightarrow>
    lk = Some i \<longleftrightarrow> holds_lock (c_pc c) \<Longrightarrow> j \<noteq> i \<Longrightarrow> lk' = Some j \<longleftrightarrow> lk = Some j"
  unfolding caller_step_def
  by (cases "c_pc c") (auto split: if_splits option.splits)

lemma step_capacity:
  "caller_step env i now out c p lk = Some (c', p', lk') \<Longrightarrow>
    length (shared_lanes p') = length (shared_lanes p) \<and> sched_lanes p' = sched_lanes p"
  unfolding caller_step_def
  by (cases "c_pc c") (auto simp: vacate_lane_def split: if_splits option.splits
    dest: lane_slots.claim_capacity)

lemma step_table:
  assumes "caller_step env i now out c p lk = Some (c', p', lk')"
  obtains (same) "shared_lanes p' = shared_lanes p" "owns_lane (c_pc c') = owns_lane (c_pc c)"
      "c_lane c' = c_lane c" "owns_lane (c_pc c) \<Longrightarrow> c_eid c' = c_eid c"
  | (claim) l slots where "c_pc c = AtScan" "claim_lane (shared_lanes p) (c_eid c) = Some (l, slots)"
      "shared_lanes p' = slots" "c_pc c' = AtLeaveQueue" "c_lane c' = l" "c_eid c' = c_eid c"
  | (vacate) "c_pc c = AtVacate" "c_pc c' = AtDeactivate"
      "shared_lanes p' = vacate_lane (shared_lanes p) (c_lane c)"
  using assms unfolding caller_step_def
  by (cases "c_pc c") (auto split: if_splits option.splits)

subsection \<open>The invariant of the pool\<close>

definition lock_ok :: "'a caller list \<Rightarrow> nat option \<Rightarrow> bool" where
  "lock_ok cs lk \<longleftrightarrow>
     (\<forall>i<length cs. lk = Some i \<longleftrightarrow> holds_lock (c_pc (cs ! i))) \<and> (\<forall>i. lk = Some i \<longrightarrow> i < length cs)"

definition owners_ok :: "'a caller list \<Rightarrow> ExecutionId option list \<Rightarrow> bool" where
  "owners_ok cs slots \<longleftrightarrow>
     (\<forall>i<length cs. owns_lane (c_pc (cs ! i)) \<longrightarrow>
        lane_holder slots (c_lane (cs ! i)) = Some (c_eid (cs ! i)))
     \<and> (\<forall>i<length cs. \<forall>j<length cs. owns_lane (c_pc (cs ! i)) \<longrightarrow> owns_lane (c_pc (cs ! j)) \<longrightarrow>
          c_lane (cs ! i) = c_lane (cs ! j) \<longrightarrow> i = j)"

definition table_ok :: "'a caller list \<Rightarrow> ExecutionId option list \<Rightarrow> bool" where
  "table_ok cs slots \<longleftrightarrow>
     occupied_lanes slots = cnt (in_class owns_lane) cs
     \<and> cnt (in_class owns_lane) cs + cnt (in_class ((=) AtDeactivate)) cs \<le> length slots"

definition counters_ok :: "'a caller list \<Rightarrow> PitScheduler \<Rightarrow> bool" where
  "counters_ok cs p \<longleftrightarrow>
     shared_waiting p = of_nat (cnt (in_class queueing) cs)
     \<and> shared_active p = of_nat (cnt (in_class activated) cs)"

definition peak_ok :: "'a caller list \<Rightarrow> PitScheduler \<Rightarrow> bool" where
  "peak_ok cs p \<longleftrightarrow>
     unat (shared_peak p) \<le> length (shared_lanes p)
     \<and> (\<forall>i<length cs. c_pc (cs ! i) = AtPeak \<longrightarrow> unat (c_active (cs ! i)) \<le> length (shared_lanes p))"

text \<open>
  No lost wake-up: while somebody sleeps, there are at least as many contenders as free lanes, so
  a free lane is always about to be looked at.
\<close>

definition wake_ok :: "'a caller list \<Rightarrow> ExecutionId option list \<Rightarrow> bool" where
  "wake_ok cs slots \<longleftrightarrow>
     (0 < cnt (in_class ((=) AtSleep)) cs \<longrightarrow>
        length slots \<le> occupied_lanes slots + cnt (in_class contender) cs)"

definition pool_inv :: "nat \<Rightarrow> 'a pool \<Rightarrow> bool" where
  "pool_inv lanes s \<longleftrightarrow>
     length (shared_lanes (sched s)) = lanes \<and> lane_count (sched s) = lanes
     \<and> lock_ok (callers s) (pool_lock s)
     \<and> owners_ok (callers s) (shared_lanes (sched s))
     \<and> table_ok (callers s) (shared_lanes (sched s))
     \<and> counters_ok (callers s) (sched s)
     \<and> peak_ok (callers s) (sched s)
     \<and> wake_ok (callers s) (shared_lanes (sched s))"

lemma pool_inv_init:
  assumes "new_scheduler lanes now = Inr p"
  shows "pool_inv lanes (init_pool p n)"
  using assms
  by (auto simp: new_scheduler_Inr_iff pool_inv_def init_pool_def new_caller_def lock_ok_def
    owners_ok_def table_ok_def counters_ok_def peak_ok_def wake_ok_def
    occupied_lanes_def scheduler_with_lanes_def lane_count_def)

subsection \<open>Each part is kept by the step of one caller\<close>

lemma lock_ok_step:
  assumes "lock_ok cs lk" and "i < length cs"
    and "caller_step env i now out (cs ! i) p lk = Some (c, q, lk')"
  shows "lock_ok (cs[i := c]) lk'"
proof -
  have self: "lk = Some i \<longleftrightarrow> holds_lock (c_pc (cs ! i))"
    using assms by (simp add: lock_ok_def)
  have other: "lk' = Some j \<longleftrightarrow> lk = Some j" if "j \<noteq> i" for j
    using step_lock_other [OF assms(3) self that] .
  show ?thesis
    using assms(1,2) step_lock_self [OF assms(3) self] other
    unfolding lock_ok_def by (metis length_list_update nth_list_update)
qed

lemma owners_okI:
  assumes "\<And>i. i < length cs \<Longrightarrow> owns_lane (c_pc (cs ! i)) \<Longrightarrow>
      lane_holder slots (c_lane (cs ! i)) = Some (c_eid (cs ! i))"
    and "\<And>i j. i < j \<Longrightarrow> j < length cs \<Longrightarrow> owns_lane (c_pc (cs ! i)) \<Longrightarrow>
      owns_lane (c_pc (cs ! j)) \<Longrightarrow> c_lane (cs ! i) \<noteq> c_lane (cs ! j)"
  shows "owners_ok cs slots"
  using assms unfolding owners_ok_def by (metis nat_neq_iff)

lemma owners_ok_holder:
  "owners_ok cs slots \<Longrightarrow> i < length cs \<Longrightarrow> owns_lane (c_pc (cs ! i)) \<Longrightarrow>
    lane_holder slots (c_lane (cs ! i)) = Some (c_eid (cs ! i))"
  by (simp add: owners_ok_def)

lemma owners_ok_inj:
  "owners_ok cs slots \<Longrightarrow> i < length cs \<Longrightarrow> j < length cs \<Longrightarrow> owns_lane (c_pc (cs ! i)) \<Longrightarrow>
    owns_lane (c_pc (cs ! j)) \<Longrightarrow> i \<noteq> j \<Longrightarrow> c_lane (cs ! i) \<noteq> c_lane (cs ! j)"
  by (auto simp: owners_ok_def)

text \<open>
  Replacing one caller keeps the owners apart when its own lane, if it owns one afterwards, was
  its own or free before, and the table changed at no lane of another owner.
\<close>

lemma owners_ok_update:
  assumes ok: "owners_ok cs slots" and i: "i < length cs"
    and self: "owns_lane (c_pc c) \<Longrightarrow> lane_holder slots' (c_lane c) = Some (c_eid c)"
    and apart: "\<And>j. j < length cs \<Longrightarrow> j \<noteq> i \<Longrightarrow> owns_lane (c_pc (cs ! j)) \<Longrightarrow>
      (owns_lane (c_pc c) \<longrightarrow> c_lane (cs ! j) \<noteq> c_lane c)
        \<and> lane_holder slots' (c_lane (cs ! j)) = lane_holder slots (c_lane (cs ! j))"
  shows "owners_ok (cs[i := c]) slots'"
proof (rule owners_okI)
  fix j assume "j < length (cs[i := c])" "owns_lane (c_pc (cs[i := c] ! j))"
  then show "lane_holder slots' (c_lane (cs[i := c] ! j)) = Some (c_eid (cs[i := c] ! j))"
    using self apart owners_ok_holder [OF ok] by (cases "j = i") auto
next
  fix j k assume *: "j < k" "k < length (cs[i := c])"
    "owns_lane (c_pc (cs[i := c] ! j))" "owns_lane (c_pc (cs[i := c] ! k))"
  consider "j = i" "k \<noteq> i" | "k = i" "j \<noteq> i" | "j \<noteq> i" "k \<noteq> i"
    using *(1) by blast
  then show "c_lane (cs[i := c] ! j) \<noteq> c_lane (cs[i := c] ! k)"
  proof cases
    case 1
    then show ?thesis using * apart [of k] i by (auto dest: not_sym)
  next
    case 2
    then show ?thesis using * apart [of j] i by auto
  next
    case 3
    then show ?thesis using * owners_ok_inj [OF ok, of j k] by auto
  qed
qed

lemma owners_ok_step:
  assumes ok: "owners_ok cs (shared_lanes p)" and i: "i < length cs"
    and step: "caller_step env i now out (cs ! i) p lk = Some (c, q, lk')"
  shows "owners_ok (cs[i := c]) (shared_lanes q)"
  using step
proof (cases rule: step_table)
  case same
  have own: "owns_lane (c_pc c) \<longleftrightarrow> owns_lane (c_pc (cs ! i))" by (simp add: same)
  show ?thesis
    using same own owners_ok_holder [OF ok i] owners_ok_inj [OF ok i]
    by (intro owners_ok_update [OF ok i]) (auto dest: not_sym)
next
  case (claim l slots)
  have free: "lane_holder (shared_lanes p) l = None"
    using claim(2) lane_slots.claim_free by blast
  have apart: "c_lane (cs ! j) \<noteq> l" if "j < length cs" "owns_lane (c_pc (cs ! j))" for j
    using owners_ok_holder [OF ok that] free by auto
  show ?thesis
    using claim apart lane_slots.claim_holder [OF claim(2)]
    by (intro owners_ok_update [OF ok i]) simp_all
next
  case vacate
  have own: "owns_lane (c_pc (cs ! i))" "\<not> owns_lane (c_pc c)"
    using vacate by auto
  then have "c_lane (cs ! i) < length (shared_lanes p)"
    using owners_ok_holder [OF ok i] by (simp add: lane_holder_def split: if_splits)
  moreover have "c_lane (cs ! j) \<noteq> c_lane (cs ! i)"
    if "j < length cs" "j \<noteq> i" "owns_lane (c_pc (cs ! j))" for j
    using owners_ok_inj [OF ok i that(1) own(1) that(3)] that(2) by simp
  ultimately show ?thesis
    using vacate own
    by (intro owners_ok_update [OF ok i]) (simp_all add: lane_slots.vacate_holder)
qed

lemma cnt_in_class_update:
  "i < length cs \<Longrightarrow>
    cnt (in_class P) (cs[i := c]) + of_bool (P (c_pc (cs ! i))) = cnt (in_class P) cs + of_bool (P (c_pc c))"
  by (rule cnt_update)

lemma no_deactivating:
  assumes "lock_ok cs lk" and "i < length cs" and "holds_lock (c_pc (cs ! i))"
    and "c_pc (cs ! i) \<noteq> AtDeactivate"
  shows "cnt (in_class ((=) AtDeactivate)) cs = 0"
proof -
  have "j = i" if "j < length cs" "holds_lock (c_pc (cs ! j))" for j
    using assms(1-3) that by (auto simp: lock_ok_def)
  then show ?thesis
    using assms(4) unfolding cnt_0_iff by force
qed

lemma table_ok_step:
  assumes ok: "table_ok cs (shared_lanes p)" and owners: "owners_ok cs (shared_lanes p)"
    and lock: "lock_ok cs lk" and i: "i < length cs"
    and step: "caller_step env i now out (cs ! i) p lk = Some (c, q, lk')"
  shows "table_ok (cs[i := c]) (shared_lanes q)"
  using step
proof (cases rule: step_table)
  case same
  have "c_pc c \<noteq> AtDeactivate"
    using step same(2) unfolding caller_step_def
    by (cases "c_pc (cs ! i)") (auto split: if_splits option.splits)
  then show ?thesis
    using ok same cnt_in_class_update [OF i, of owns_lane c]
      cnt_in_class_update [OF i, of "(=) AtDeactivate" c]
    by (simp add: table_ok_def)
next
  case (claim l slots)
  have pcs: "owns_lane (c_pc c)" "\<not> owns_lane (c_pc (cs ! i))" "holds_lock (c_pc (cs ! i))"
    "c_pc (cs ! i) \<noteq> AtDeactivate" "c_pc c \<noteq> AtDeactivate"
    using claim by auto
  have "cnt (in_class ((=) AtDeactivate)) (cs[i := c]) = 0"
    using no_deactivating [OF lock i pcs(3,4)] cnt_in_class_update [OF i, of "(=) AtDeactivate" c] pcs
    by simp
  moreover have "occupied_lanes slots = Suc (occupied_lanes (shared_lanes p))"
    using lane_slots.claim_occupied [OF claim(2)] .
  ultimately show ?thesis
    using ok claim pcs cnt_in_class_update [OF i, of owns_lane c] lane_slots.occupied_le [of slots]
    by (simp add: table_ok_def)
next
  case vacate
  have pcs: "\<not> owns_lane (c_pc c)" "owns_lane (c_pc (cs ! i))" "c_pc (cs ! i) \<noteq> AtDeactivate"
    using vacate by auto
  have hold: "lane_holder (shared_lanes p) (c_lane (cs ! i)) = Some (c_eid (cs ! i))"
    using owners_ok_holder [OF owners i pcs(2)] .
  then have "c_lane (cs ! i) < length (shared_lanes p)"
    by (simp add: lane_holder_def split: if_splits)
  from lane_slots.vacate_occupied [OF this hold] show ?thesis
    using ok vacate pcs cnt_in_class_update [OF i, of owns_lane c]
      cnt_in_class_update [OF i, of "(=) AtDeactivate" c]
    by (simp add: table_ok_def lane_slots.vacate_capacity)
qed

lemma counters_ok_step:
  assumes "counters_ok cs p" and "i < length cs"
    and "caller_step env i now out (cs ! i) p lk = Some (c, q, lk')"
  shows "counters_ok (cs[i := c]) q"
  using assms(1) step_waiting [OF assms(3)] step_active [OF assms(3)]
  by (simp add: counters_ok_def of_nat_cnt_update [OF assms(2)])

text \<open>Active callers own a lane or are just giving it back.\<close>

lemma activated_cases: "activated pc \<Longrightarrow> owns_lane pc \<or> pc = AtDeactivate"
  by (cases pc) auto

lemma active_le_capacity:
  assumes "table_ok cs slots"
  shows "cnt (in_class activated) cs \<le> length slots"
proof -
  have "cnt (in_class activated) cs
      \<le> cnt (\<lambda>c. in_class owns_lane c \<or> in_class ((=) AtDeactivate) c) cs"
    by (rule cnt_mono) (auto dest: activated_cases)
  also have "\<dots> = cnt (in_class owns_lane) cs + cnt (in_class ((=) AtDeactivate)) cs"
    by (rule cnt_disj) auto
  finally show ?thesis using assms by (simp add: table_ok_def)
qed

lemma unat_active:
  assumes "table_ok cs (shared_lanes p)" "counters_ok cs p" "length (shared_lanes p) < 2 ^ 64"
  shows "unat (shared_active p) = cnt (in_class activated) cs"
  using assms active_le_capacity [OF assms(1)] by (simp add: counters_ok_def unat_of_nat_64)

lemma step_peak:
  assumes "caller_step env i now out c p lk = Some (c', p', lk')"
  shows "shared_peak p' = (if c_pc c = AtPeak then max (shared_peak p) (c_active c) else shared_peak p)"
    and "c_pc c' = AtPeak \<Longrightarrow> c_active c' = shared_active p'"
  using assms unfolding caller_step_def
  by (cases "c_pc c"; auto split: if_splits option.splits)+

lemma peak_ok_step:
  assumes ok: "peak_ok cs p" and i: "i < length cs"
    and step: "caller_step env i now out (cs ! i) p lk = Some (c, q, lk')"
    and after: "table_ok (cs[i := c]) (shared_lanes q)" "counters_ok (cs[i := c]) q"
    and bound: "length (shared_lanes q) < 2 ^ 64"
  shows "peak_ok (cs[i := c]) q"
proof -
  have "unat (shared_active q) \<le> length (shared_lanes q)"
    using unat_active [OF after bound] active_le_capacity [OF after(1)] by simp
  moreover have "unat (shared_peak q) \<le> length (shared_lanes q)"
    using ok i step_peak(1) [OF step] step_capacity [OF step]
    by (auto simp: peak_ok_def max_def split: if_splits)
  ultimately show ?thesis
    using ok i step_peak(2) [OF step] step_capacity [OF step]
    unfolding peak_ok_def by (auto simp: nth_list_update split: if_splits)
qed

lemma step_wakes:
  assumes "caller_step env i now out c p lk = Some (c', p', lk')"
  obtains (fall_asleep) "c_pc c = AtScan" "c_pc c' = AtSleep"
      "claim_lane (shared_lanes p) (c_eid c) = None" "shared_lanes p' = shared_lanes p"
  | (notify) "c_pc c = AtNotify" "c_pc c' = AtReturn" "shared_lanes p' = shared_lanes p"
  | (claim) l slots where "c_pc c = AtScan" "c_pc c' = AtLeaveQueue"
      "claim_lane (shared_lanes p) (c_eid c) = Some (l, slots)" "shared_lanes p' = slots"
  | (vacate) "c_pc c = AtVacate" "c_pc c' = AtDeactivate"
      "shared_lanes p' = vacate_lane (shared_lanes p) (c_lane c)"
  | (other) "shared_lanes p' = shared_lanes p" "c_pc c \<noteq> AtSleep" "c_pc c' \<noteq> AtSleep"
      "contender (c_pc c) \<Longrightarrow> contender (c_pc c')"
  using assms unfolding caller_step_def
  by (cases "c_pc c") (auto split: if_splits option.splits)

lemma wake_ok_step:
  assumes ok: "wake_ok cs (shared_lanes p)" and owners: "owners_ok cs (shared_lanes p)"
    and i: "i < length cs" and notify: "c_pc (cs ! i) \<noteq> AtNotify"
    and step: "caller_step env i now out (cs ! i) p lk = Some (c, q, lk')"
  shows "wake_ok (cs[i := c]) (shared_lanes q)"
proof -
  note counts = cnt_in_class_update [OF i, of "(=) AtSleep" c]
    cnt_in_class_update [OF i, of contender c]
  show ?thesis
    using step
  proof (cases rule: step_wakes)
    case fall_asleep
    then show ?thesis
      using lane_slots.claim_None_full [OF fall_asleep(3)] by (simp add: wake_ok_def)
  next
    case (claim l slots)
    then show ?thesis
      using ok counts lane_slots.claim_occupied [OF claim(3)]
        lane_slots.claim_capacity [OF claim(3)]
      by (auto simp: wake_ok_def)
  next
    case vacate
    have hold: "lane_holder (shared_lanes p) (c_lane (cs ! i)) = Some (c_eid (cs ! i))"
      using owners_ok_holder [OF owners i] vacate by simp
    then have "c_lane (cs ! i) < length (shared_lanes p)"
      by (simp add: lane_holder_def split: if_splits)
    from lane_slots.vacate_occupied [OF this hold] show ?thesis
      using ok counts vacate by (auto simp: wake_ok_def lane_slots.vacate_capacity)
  next
    case other
    then show ?thesis
      using ok counts by (auto simp: wake_ok_def of_bool_def split: if_splits)
  qed (use notify in simp)
qed

subsection \<open>Waking a sleeper\<close>

text \<open>A wake-up only changes the class of sleepers and contenders.\<close>

lemma in_class_wake:
  assumes "asleep cs j" and "P AtSleep = P AtWoken"
  shows "cnt (in_class P) (wake_caller j cs) = cnt (in_class P) cs"
  using assms unfolding wake_caller_def asleep_def by (intro cnt_update_same) simp_all

lemma nth_wake_caller:
  "asleep cs j \<Longrightarrow> k < length cs \<Longrightarrow>
    wake_caller j cs ! k = (if k = j then (cs ! k)\<lparr>c_pc := AtWoken\<rparr> else cs ! k)"
  by (simp add: wake_caller_def asleep_def nth_list_update)

lemma length_wake_caller [simp]: "length (wake_caller j cs) = length cs"
  by (simp add: wake_caller_def)

lemma pc_wake_caller:
  "asleep cs j \<Longrightarrow> k < length cs \<Longrightarrow> P AtSleep = P AtWoken \<Longrightarrow>
    P (c_pc (wake_caller j cs ! k)) = P (c_pc (cs ! k))"
  by (auto simp: nth_wake_caller asleep_def)

lemma lock_ok_wake: "lock_ok cs lk \<Longrightarrow> asleep cs j \<Longrightarrow> lock_ok (wake_caller j cs) lk"
  by (simp add: lock_ok_def pc_wake_caller [where P = holds_lock])

lemma owners_ok_wake: "owners_ok cs slots \<Longrightarrow> asleep cs j \<Longrightarrow> owners_ok (wake_caller j cs) slots"
  unfolding wake_caller_def asleep_def by (rule owners_ok_update) auto

lemma table_ok_wake: "table_ok cs slots \<Longrightarrow> asleep cs j \<Longrightarrow> table_ok (wake_caller j cs) slots"
  by (simp add: table_ok_def in_class_wake)

lemma counters_ok_wake: "counters_ok cs p \<Longrightarrow> asleep cs j \<Longrightarrow> counters_ok (wake_caller j cs) p"
  by (simp add: counters_ok_def in_class_wake)

lemma peak_ok_wake: "peak_ok cs p \<Longrightarrow> asleep cs j \<Longrightarrow> peak_ok (wake_caller j cs) p"
  by (auto simp: peak_ok_def nth_wake_caller split: if_splits)

lemma cnt_wake_sleep:
  assumes "asleep cs j"
  shows "Suc (cnt (in_class ((=) AtSleep)) (wake_caller j cs)) = cnt (in_class ((=) AtSleep)) cs"
    and "cnt (in_class contender) (wake_caller j cs) = Suc (cnt (in_class contender) cs)"
  using assms unfolding wake_caller_def asleep_def
  by (intro cnt_update_out cnt_update_in; simp add:)+

lemma wake_ok_wake: "wake_ok cs slots \<Longrightarrow> asleep cs j \<Longrightarrow> wake_ok (wake_caller j cs) slots"
  using cnt_wake_sleep [of cs j] by (auto simp: wake_ok_def)

text \<open>
  \<^verbatim>\<open>notify_one\<close> pays its debt: the notifier stops being a contender, and either the
  woken sleeper takes its place or nobody sleeps.
\<close>

lemma wake_ok_notify:
  assumes ok: "wake_ok cs slots" and i: "i < length cs" and pc: "c_pc (cs ! i) = AtNotify"
    and allowed: "wake_allowed w cs" and c: "c_pc c = AtReturn"
  shows "wake_ok (wake_chosen w (cs[i := c])) slots"
proof (cases w)
  case None
  then have "\<forall>d\<in>set cs. c_pc d \<noteq> AtSleep"
    using allowed by (simp add: wake_allowed_def list_all_iff)
  then have "cnt (in_class ((=) AtSleep)) cs = 0"
    unfolding cnt_0_iff by (metis nth_mem)
  then show ?thesis
    using None cnt_in_class_update [OF i, of "(=) AtSleep" c] pc c
    by (simp add: wake_chosen_def wake_ok_def)
next
  case (Some j)
  then have j: "asleep cs j" using allowed by (simp add: wake_allowed_def)
  then have "asleep (cs[i := c]) j" using i pc by (auto simp: asleep_def nth_list_update)
  from cnt_wake_sleep [OF this] show ?thesis
    using ok Some j i pc c cnt_in_class_update [OF i, of "(=) AtSleep" c]
      cnt_in_class_update [OF i, of contender c]
    by (simp add: wake_chosen_def wake_ok_def)
qed

subsection \<open>The whole invariant\<close>

lemma pool_inv_clock [simp]: "pool_inv lanes (s\<lparr>pool_clock := now\<rparr>) = pool_inv lanes s"
  by (simp add: pool_inv_def)

lemma pool_inv_caller_step:
  assumes inv: "pool_inv lanes s" and bound: "lanes < 2 ^ 64" and i: "i < length (callers s)"
    and notify: "c_pc (callers s ! i) \<noteq> AtNotify"
    and step: "caller_step env i now out (callers s ! i) (sched s) (pool_lock s) = Some (c, p, lk)"
  shows "pool_inv lanes (s\<lparr>callers := (callers s)[i := c], sched := p, pool_lock := lk\<rparr>)"
proof -
  from inv have parts: "length (shared_lanes (sched s)) = lanes" "lane_count (sched s) = lanes"
    "lock_ok (callers s) (pool_lock s)" "owners_ok (callers s) (shared_lanes (sched s))"
    "table_ok (callers s) (shared_lanes (sched s))" "counters_ok (callers s) (sched s)"
    "peak_ok (callers s) (sched s)" "wake_ok (callers s) (shared_lanes (sched s))"
    by (simp_all add: pool_inv_def)
  have table: "table_ok ((callers s)[i := c]) (shared_lanes p)"
    and counters: "counters_ok ((callers s)[i := c]) p"
    using table_ok_step [OF parts(5,4,3) i step] counters_ok_step [OF parts(6) i step] by auto
  have "length (shared_lanes p) = lanes" "lane_count p = lanes"
    using step_capacity [OF step] parts by (simp_all add: lane_count_def)
  then show ?thesis
    using lock_ok_step [OF parts(3) i step] owners_ok_step [OF parts(4) i step] table counters
      peak_ok_step [OF parts(7) i step table counters] wake_ok_step [OF parts(8,4) i notify step]
      bound
    by (simp add: pool_inv_def)
qed

lemma pool_inv_wake:
  "pool_inv lanes s \<Longrightarrow> asleep (callers s) j \<Longrightarrow>
    pool_inv lanes (s\<lparr>callers := wake_caller j (callers s)\<rparr>)"
  by (simp add: pool_inv_def lock_ok_wake owners_ok_wake table_ok_wake counters_ok_wake
    peak_ok_wake wake_ok_wake)

lemma pool_inv_notify:
  assumes inv: "pool_inv lanes s" and bound: "lanes < 2 ^ 64" and i: "i < length (callers s)"
    and pc: "c_pc (callers s ! i) = AtNotify" and allowed: "wake_allowed w (callers s)"
    and step: "caller_step env i now out (callers s ! i) (sched s) (pool_lock s) = Some (c, p, lk)"
  shows "pool_inv lanes
    (s\<lparr>callers := wake_chosen w ((callers s)[i := c]), sched := p, pool_lock := lk\<rparr>)"
proof -
  have c: "c = (callers s ! i)\<lparr>c_pc := AtReturn\<rparr>" "p = sched s" "lk = pool_lock s"
    using step pc by (simp_all add: caller_step_def)
  let ?cs = "(callers s)[i := c]"
  from inv have parts: "lock_ok ?cs lk" "owners_ok ?cs (shared_lanes p)"
    "table_ok ?cs (shared_lanes p)" "counters_ok ?cs p"
    using i step by (auto simp: pool_inv_def intro: lock_ok_step owners_ok_step table_ok_step counters_ok_step)
  moreover have "peak_ok ?cs p"
    using inv c i by (auto simp: pool_inv_def peak_ok_def nth_list_update split: if_splits)
  moreover have "wake_ok (wake_chosen w ?cs) (shared_lanes p)"
    using inv wake_ok_notify [OF _ i pc allowed] c by (simp add: pool_inv_def)
  moreover have "asleep ?cs j" if "w = Some j" for j
    using allowed that pc i by (auto simp: wake_allowed_def asleep_def nth_list_update)
  ultimately show ?thesis
    using inv c by (cases w) (simp_all add: pool_inv_def wake_chosen_def lock_ok_wake owners_ok_wake
      table_ok_wake counters_ok_wake peak_ok_wake)
qed

lemma pool_inv_exec:
  assumes "pool_inv lanes s" "lanes < 2 ^ 64" "pool_exec env a s = Some t"
  shows "pool_inv lanes t"
  using assms
  by (cases a) (auto split: if_splits option.splits
    intro: pool_inv_caller_step pool_inv_notify pool_inv_wake)

lemma pool_inv_step: "pool_inv lanes s \<Longrightarrow> lanes < 2 ^ 64 \<Longrightarrow> pool_step env s t \<Longrightarrow> pool_inv lanes t"
  by (erule pool_step.cases) (metis pool_inv_clock pool_inv_exec)

subsection \<open>Identifiers\<close>

text \<open>
  With fewer than \<open>2 ^ 64\<close> callers the identifiers handed out do not wrap into each other:
  caller by caller they are the next numbers after the first one.
\<close>

definition entered :: "run_pc \<Rightarrow> bool" where
  "entered pc \<longleftrightarrow> pc \<noteq> AtEnter"

definition ids_ok :: "u64 \<Rightarrow> 'a caller list \<Rightarrow> PitScheduler \<Rightarrow> bool" where
  "ids_ok first cs p \<longleftrightarrow>
     next_execution_id p = first + of_nat (cnt (in_class entered) cs)
     \<and> (\<forall>i<length cs. entered (c_pc (cs ! i)) \<longrightarrow>
          (\<exists>k<cnt (in_class entered) cs. c_eid (cs ! i) = ExecutionId (first + of_nat k)))
     \<and> (\<forall>i<length cs. \<forall>j<length cs. entered (c_pc (cs ! i)) \<longrightarrow> entered (c_pc (cs ! j)) \<longrightarrow>
          c_eid (cs ! i) = c_eid (cs ! j) \<longrightarrow> i = j)"

lemma step_ids:
  assumes "caller_step env i now out c p lk = Some (c', p', lk')"
  shows "entered (c_pc c')"
    and "c_pc c = AtEnter \<Longrightarrow> c_eid c' = ExecutionId (next_execution_id p)
      \<and> next_execution_id p' = next_execution_id p + 1"
    and "c_pc c \<noteq> AtEnter \<Longrightarrow> c_eid c' = c_eid c \<and> next_execution_id p' = next_execution_id p"
  using assms unfolding caller_step_def
  by (cases "c_pc c"; auto simp: entered_def split: if_splits option.splits)+

lemma length_pool_exec: "pool_exec env a s = Some t \<Longrightarrow> length (callers t) = length (callers s)"
  by (cases a) (auto simp: wake_chosen_def split: if_splits option.splits)

text \<open>
  How a step of the pool acts on one caller: it runs its own step, is woken, or is left alone.
\<close>

lemma pool_exec_caller:
  assumes "pool_exec env a s = Some t" and "k < length (callers s)"
  obtains (own) out p lk where
      "caller_step env k (pool_clock s) out (callers s ! k) (sched s) (pool_lock s)
        = Some (callers t ! k, p, lk)" "sched t = p"
  | (woken) "c_pc (callers s ! k) = AtSleep"
      "callers t ! k = (callers s ! k)\<lparr>c_pc := AtWoken\<rparr>"
  | (frame) "callers t ! k = callers s ! k"
proof (cases a)
  case (Advance i out)
  then show ?thesis
    using assms that by (cases "i = k") (auto split: if_splits option.splits)
next
  case (NotifyOne i w)
  with assms(1) obtain c p lk where
    step: "caller_step env i (pool_clock s) None (callers s ! i) (sched s) (pool_lock s) = Some (c, p, lk)"
    and i: "i < length (callers s)" "c_pc (callers s ! i) = AtNotify" "wake_allowed w (callers s)"
    and t: "t = s\<lparr>callers := wake_chosen w ((callers s)[i := c]), sched := p, pool_lock := lk\<rparr>"
    by (auto split: if_splits option.splits)
  show ?thesis
  proof (cases "k = i")
    case True
    then have "w \<noteq> Some k" using i by (auto simp: wake_allowed_def asleep_def)
    then have "callers t ! k = c"
      using True i t by (cases w) (auto simp: wake_chosen_def wake_caller_def nth_list_update)
    then show ?thesis using own step t True by simp
  next
    case False
    show ?thesis
    proof (cases "w = Some k")
      case True
      then show ?thesis
        using False assms(2) i t
        by (intro woken) (auto simp: wake_chosen_def wake_caller_def wake_allowed_def asleep_def)
    next
      case other: False
      then have "callers t ! k = callers s ! k"
        using False assms(2) i t
        by (cases w) (auto simp: wake_chosen_def wake_caller_def)
      then show ?thesis by (rule frame)
    qed
  qed
next
  case (SpuriousWake j)
  with assms(1) have j: "asleep (callers s) j" and t: "callers t = wake_caller j (callers s)"
    by (auto split: if_splits)
  show ?thesis
  proof (cases "k = j")
    case True
    then show ?thesis using j t by (intro woken) (simp_all add: wake_caller_def asleep_def)
  next
    case False
    then show ?thesis using t by (intro frame) (simp add: wake_caller_def)
  qed
qed

lemma ids_ok_enter:
  assumes ok: "ids_ok first cs p" and small: "length cs < 2 ^ 64" and i: "i < length cs"
    and pc: "c_pc (cs ! i) = AtEnter" "entered (c_pc c)"
    and ids: "c_eid c = ExecutionId (next_execution_id p)"
      "next_execution_id q = next_execution_id p + 1"
  shows "ids_ok first (cs[i := c]) q"
proof -
  let ?n = "cnt (in_class entered) cs"
  have count: "cnt (in_class entered) (cs[i := c]) = Suc ?n"
    using i pc by (intro cnt_update_in) (simp_all add: entered_def)
  have "?n < 2 ^ 64"
    using cnt_le_length [of "in_class entered" cs] small by linarith
  then have fresh_num: "first + of_nat k \<noteq> first + (of_nat ?n :: u64)" if "k < ?n" for k
    using of_nat_64_inj [of k ?n] that by auto
  have fresh: "c_eid (cs ! j) \<noteq> c_eid c" if j: "j < length cs" "entered (c_pc (cs ! j))" for j
  proof -
    obtain k where "k < ?n" "c_eid (cs ! j) = ExecutionId (first + of_nat k)"
      using ok j unfolding ids_ok_def by blast
    then show ?thesis using ok ids fresh_num by (simp add: ids_ok_def)
  qed
  have new: "c_eid c = ExecutionId (first + of_nat ?n)" "?n < Suc ?n"
    using ok ids by (simp_all add: ids_ok_def)
  show ?thesis
    unfolding ids_ok_def count
  proof (intro conjI allI impI)
    show "next_execution_id q = first + of_nat (Suc ?n)"
      using ok ids by (simp add: ids_ok_def)
  next
    fix j assume j: "j < length (cs[i := c])" "entered (c_pc (cs[i := c] ! j))"
    show "\<exists>k<Suc ?n. c_eid (cs[i := c] ! j) = ExecutionId (first + of_nat k)"
    proof (cases "j = i")
      case True
      then show ?thesis using new i by auto
    next
      case False
      then have "\<exists>k<?n. c_eid (cs ! j) = ExecutionId (first + of_nat k)"
        using ok j by (simp add: ids_ok_def)
      then show ?thesis using False by (auto intro: less_SucI)
    qed
  next
    fix j k assume "j < length (cs[i := c])" "k < length (cs[i := c])"
      "entered (c_pc (cs[i := c] ! j))" "entered (c_pc (cs[i := c] ! k))"
      "c_eid (cs[i := c] ! j) = c_eid (cs[i := c] ! k)"
    then show "j = k"
      using ok fresh [of j] fresh [of k] unfolding ids_ok_def
      by (cases "j = i"; cases "k = i") auto
  qed
qed

text \<open>Every other step leaves identifiers and who has entered as they are.\<close>

lemma ids_ok_frame:
  assumes ok: "ids_ok first cs p" and len: "length ds = length cs"
    and same: "\<And>j. j < length cs \<Longrightarrow>
      entered (c_pc (ds ! j)) = entered (c_pc (cs ! j)) \<and> c_eid (ds ! j) = c_eid (cs ! j)"
    and next_id: "next_execution_id q = next_execution_id p"
  shows "ids_ok first ds q"
proof -
  have "cnt (in_class entered) ds = cnt (in_class entered) cs"
    using len same by (intro cnt_pointwise) auto
  then show ?thesis
    using ok len same next_id by (simp add: ids_ok_def)
qed

lemma ids_ok_step:
  assumes ok: "ids_ok first cs p" and small: "length cs < 2 ^ 64" and i: "i < length cs"
    and step: "caller_step env i now out (cs ! i) p lk = Some (c, q, lk')"
  shows "ids_ok first (cs[i := c]) q"
proof (cases "c_pc (cs ! i) = AtEnter")
  case True
  then show ?thesis
    using ids_ok_enter [OF ok small i True] step_ids [OF step] by simp
next
  case False
  then have "entered (c_pc (cs ! i))" by (simp add: entered_def)
  then show ?thesis
    using step_ids [OF step] False i
    by (intro ids_ok_frame [OF ok]) (auto simp: nth_list_update split: if_splits)
qed

lemma ids_ok_wake: "ids_ok first cs p \<Longrightarrow> asleep cs j \<Longrightarrow> ids_ok first (wake_caller j cs) p"
  by (erule ids_ok_frame) (auto simp: nth_wake_caller entered_def asleep_def)

lemma ids_ok_exec:
  assumes ok: "ids_ok first (callers s) (sched s)" and small: "length (callers s) < 2 ^ 64"
    and exec: "pool_exec env a s = Some t"
  shows "ids_ok first (callers t) (sched t)"
proof (cases a)
  case (NotifyOne i w)
  with exec obtain c p lk where
    step: "caller_step env i (pool_clock s) None (callers s ! i) (sched s) (pool_lock s) = Some (c, p, lk)"
    and i: "i < length (callers s)" "c_pc (callers s ! i) = AtNotify" "wake_allowed w (callers s)"
    and t: "t = s\<lparr>callers := wake_chosen w ((callers s)[i := c]), sched := p, pool_lock := lk\<rparr>"
    by (auto split: if_splits option.splits)
  have "asleep ((callers s)[i := c]) j" if "w = Some j" for j
    using i that by (auto simp: wake_allowed_def asleep_def nth_list_update)
  then show ?thesis
    using ids_ok_step [OF ok small i(1) step] t
    by (cases w) (simp_all add: wake_chosen_def ids_ok_wake)
next
  case (Advance i out)
  then show ?thesis
    using exec ids_ok_step [OF ok small, of i] by (auto split: if_splits option.splits)
next
  case (SpuriousWake j)
  then show ?thesis
    using exec ids_ok_wake [OF ok] by (auto split: if_splits)
qed

subsection \<open>What one caller knows\<close>

text \<open>
  The locals of a caller: its instants come in the order of the program, its outcome is one its
  task may have on the identifier and lane it holds, and its result is built from exactly these.
  The rank of the program counter tells how far the caller is.
\<close>

definition caller_ok :: "'a pool_env \<Rightarrow> nat \<Rightarrow> instant \<Rightarrow> 'a caller \<Rightarrow> bool" where
  "caller_ok env i now c \<longleftrightarrow>
     (\<not> panicked (c_pc c) \<longrightarrow>
        (pc_rank (c_pc c) < 25 \<longrightarrow> c_queued_at c \<le> now)
      \<and> (pc_rank (c_pc c) < 19 \<longrightarrow> c_queued_at c \<le> c_assigned_at c \<and> c_assigned_at c \<le> now)
      \<and> (pc_rank (c_pc c) < 14 \<longrightarrow> c_assigned_at c \<le> c_queued_at c + c_queued_for c
            \<and> c_queued_at c + c_queued_for c \<le> now)
      \<and> (pc_rank (c_pc c) < 13 \<longrightarrow> c_queued_at c + c_queued_for c \<le> c_task_started_at c
            \<and> c_task_started_at c \<le> now)
      \<and> (pc_rank (c_pc c) < 11 \<longrightarrow> c_outcome c \<noteq> TaskPanic
            \<and> may_return env i (c_eid c) (LaneId (c_lane c)) (c_outcome c))
      \<and> (pc_rank (c_pc c) < 9 \<longrightarrow> c_result c = Some (caller_result c)))"

lemma caller_ok_step:
  assumes ok: "caller_ok env i earlier c" and now: "earlier \<le> now"
    and step: "caller_step env i now out c p lk = Some (c', p', lk')"
  shows "caller_ok env i now c'"
proof -
  have "caller_ok env i now c" using ok now by (auto simp: caller_ok_def)
  then show ?thesis
    using step unfolding caller_step_def caller_ok_def
    by (cases "c_pc c")
      (auto simp: caller_result_def duration_since_def split: if_splits option.splits)
qed

definition callers_ok :: "'a pool_env \<Rightarrow> 'a pool \<Rightarrow> bool" where
  "callers_ok env s \<longleftrightarrow> (\<forall>i<length (callers s). caller_ok env i (pool_clock s) (callers s ! i))"

lemma caller_ok_later: "caller_ok env i earlier c \<Longrightarrow> earlier \<le> now \<Longrightarrow> caller_ok env i now c"
  by (auto simp: caller_ok_def)

lemma pool_exec_clock: "pool_exec env a s = Some t \<Longrightarrow> pool_clock t = pool_clock s"
  by (cases a) (auto split: if_splits option.splits)

lemma callers_ok_exec:
  assumes ok: "callers_ok env s" and exec: "pool_exec env a s = Some t"
  shows "callers_ok env t"
  unfolding callers_ok_def
proof (intro allI impI)
  fix k assume "k < length (callers t)"
  then have k: "k < length (callers s)" using length_pool_exec [OF exec] by simp
  then have before: "caller_ok env k (pool_clock s) (callers s ! k)"
    using ok by (simp add: callers_ok_def)
  from exec k have "caller_ok env k (pool_clock s) (callers t ! k)"
  proof (cases rule: pool_exec_caller)
    case (own out p lk)
    then show ?thesis using caller_ok_step [OF before order_refl] by blast
  next
    case woken
    then show ?thesis using before by (auto simp: caller_ok_def)
  next
    case frame
    then show ?thesis using before by simp
  qed
  then show "caller_ok env k (pool_clock t) (callers t ! k)"
    by (simp add: pool_exec_clock [OF exec])
qed

subsection \<open>Everything together\<close>

definition shared_inv :: "'a pool_env \<Rightarrow> nat \<Rightarrow> u64 \<Rightarrow> 'a pool \<Rightarrow> bool" where
  "shared_inv env lanes first s \<longleftrightarrow>
     pool_inv lanes s \<and> ids_ok first (callers s) (sched s) \<and> callers_ok env s
     \<and> lanes < 2 ^ 64 \<and> length (callers s) < 2 ^ 64"

lemma shared_inv_step:
  assumes inv: "shared_inv env lanes first s" and step: "pool_step env s t"
  shows "shared_inv env lanes first t"
  using step
proof cases
  case (pool_step now a)
  let ?s = "s\<lparr>pool_clock := now\<rparr>"
  have "callers_ok env ?s"
    using inv pool_step(1) by (auto simp: shared_inv_def callers_ok_def intro: caller_ok_later)
  then show ?thesis
    using inv pool_step(2) pool_inv_step [OF _ _ step] ids_ok_exec [of first ?s env a t]
      callers_ok_exec [of env ?s a t] length_pool_exec [of env a ?s t]
    by (simp add: shared_inv_def)
qed

lemma shared_inv_init:
  fixes env :: "'a pool_env"
  assumes "new_scheduler lanes now = Inr p" "lanes < 2 ^ 64" "n < 2 ^ 64"
  shows "shared_inv env lanes 0 (init_pool p n)"
proof -
  let ?s = "init_pool p n :: 'a pool"
  have "ids_ok 0 (callers ?s) (sched ?s)"
    using assms(1) by (auto simp: ids_ok_def init_pool_def new_caller_def entered_def
      new_scheduler_Inr_iff scheduler_with_lanes_def)
  moreover have "callers_ok env ?s"
    by (simp add: callers_ok_def caller_ok_def init_pool_def new_caller_def)
  moreover have "pool_inv lanes ?s"
    by (rule pool_inv_init [OF assms(1)])
  ultimately show ?thesis
    using assms by (simp add: shared_inv_def init_pool_def)
qed

end
