(* ===== verification/Sched_Shared_Props.thy ===== *)
theory Sched_Shared_Props
  imports Sched_Shared_Inv
begin

section \<open>The shared lane pool: termination, progress and the properties\<close>

subsection \<open>Rank and progress\<close>

definition pool_rank :: "'a pool \<Rightarrow> nat" where
  "pool_rank s = sum_list (map (\<lambda>c. pc_rank (c_pc c)) (callers s))"

lemma pool_rank_exec:
  assumes exec: "pool_exec env a s = Some t" and a: "\<not> spurious a"
  shows "pool_rank t < pool_rank s"
proof (cases a)
  case (Advance i out)
  with exec obtain c p lk where
    step: "caller_step env i (pool_clock s) out (callers s ! i) (sched s) (pool_lock s) = Some (c, p, lk)"
    and "i < length (callers s)" "callers t = (callers s)[i := c]"
    by (auto split: if_splits option.splits)
  then show ?thesis
    using sum_list_update_weight [of i "callers s" "\<lambda>c. pc_rank (c_pc c)" c] step_rank [OF step]
    by (simp add: pool_rank_def)
next
  case (NotifyOne i w)
  with exec obtain c p lk where
    step: "caller_step env i (pool_clock s) None (callers s ! i) (sched s) (pool_lock s) = Some (c, p, lk)"
    and i: "i < length (callers s)" "c_pc (callers s ! i) = AtNotify" "wake_allowed w (callers s)"
    and t: "callers t = wake_chosen w ((callers s)[i := c])"
    by (auto split: if_splits option.splits)
  let ?f = "\<lambda>c. pc_rank (c_pc c)" and ?cs = "(callers s)[i := c]"
  have c: "c_pc c = AtReturn" using step i by (auto simp: caller_step_def)
  have first: "sum_list (map ?f ?cs) + 4 = sum_list (map ?f (callers s))"
    using sum_list_update_weight [of i "callers s" ?f c] i c by simp
  have "sum_list (map ?f (callers t)) \<le> sum_list (map ?f ?cs) + 2"
  proof (cases w)
    case None
    then show ?thesis using t by (simp add: wake_chosen_def)
  next
    case (Some j)
    then have "j < length ?cs" "c_pc (?cs ! j) = AtSleep"
      using i by (auto simp: wake_allowed_def asleep_def nth_list_update)
    then show ?thesis
      using sum_list_update_weight [of j ?cs ?f "(?cs ! j)\<lparr>c_pc := AtWoken\<rparr>"] Some t
      by (simp add: wake_chosen_def wake_caller_def)
  qed
  then show ?thesis using first by (simp add: pool_rank_def)
qed (use a in simp)

text \<open>Every task ends in some way: it does not run forever.\<close>

definition tasks_return :: "'a pool_env \<Rightarrow> bool" where
  "tasks_return env \<longleftrightarrow> (\<forall>i e l. \<exists>out. may_return env i e l out)"

definition needs_lock :: "run_pc \<Rightarrow> bool" where
  "needs_lock pc \<longleftrightarrow> pc \<in> {AtLock, AtWoken, AtRelock}"

lemma caller_step_enabled:
  assumes "tasks_return env" and "\<not> finished (c_pc c)" and "c_pc c \<noteq> AtSleep"
    and "needs_lock (c_pc c) \<Longrightarrow> lk = None"
  shows "\<exists>out r. caller_step env i now out c p lk = Some r \<and> (c_pc c = AtNotify \<longrightarrow> out = None)"
proof -
  obtain out where out: "may_return env i (c_eid c) (LaneId (c_lane c)) out"
    using assms(1) unfolding tasks_return_def by blast
  have "\<exists>r. caller_step env i now (if c_pc c = AtNotify then None else Some out) c p lk = Some r"
    using assms out unfolding caller_step_def
    by (cases "c_pc c") (auto simp: finished_def needs_lock_def split: option.splits)
  then show ?thesis by (cases "c_pc c = AtNotify") auto
qed

lemma caller_can_move:
  assumes "tasks_return env" and i: "i < length (callers s)"
    and live: "\<not> finished (c_pc (callers s ! i))" "c_pc (callers s ! i) \<noteq> AtSleep"
    and lock: "needs_lock (c_pc (callers s ! i)) \<Longrightarrow> pool_lock s = None"
  shows "\<exists>t. pool_move env s t"
proof -
  obtain out c p lk where
    step: "caller_step env i (pool_clock s) out (callers s ! i) (sched s) (pool_lock s) = Some (c, p, lk)"
      "c_pc (callers s ! i) = AtNotify \<longrightarrow> out = None"
    using caller_step_enabled [OF assms(1) live lock] by (metis prod_cases3)
  show ?thesis
  proof (cases "c_pc (callers s ! i) = AtNotify")
    case False
    then have "\<exists>t. pool_exec env (Advance i out) (s\<lparr>pool_clock := pool_clock s\<rparr>) = Some t"
      using step i by simp
    then show ?thesis
      using pool_move.intros [OF order_refl, of "Advance i out"] by fastforce
  next
    case True
    obtain w where "wake_allowed w (callers s)"
    proof (cases "\<exists>j. asleep (callers s) j")
      case True
      then show ?thesis using that [of "Some _"] by (auto simp: wake_allowed_def)
    next
      case False
      then show ?thesis
        using that [of None] by (auto simp: wake_allowed_def asleep_def list_all_length)
    qed
    then have "\<exists>t. pool_exec env (NotifyOne i w) (s\<lparr>pool_clock := pool_clock s\<rparr>) = Some t"
      using step i True by simp
    then show ?thesis
      using pool_move.intros [OF order_refl, of "NotifyOne i w"] by fastforce
  qed
qed

definition all_finished :: "'a pool \<Rightarrow> bool" where
  "all_finished s \<longleftrightarrow> list_all (\<lambda>c. finished (c_pc c)) (callers s)"

definition pool_final :: "nat \<Rightarrow> 'a pool \<Rightarrow> bool" where
  "pool_final lanes s \<longleftrightarrow> all_finished s \<or> lanes \<le> cnt (in_class panicked) (callers s)"

text \<open>
  A pool that cannot move has no live caller, unless panicked callers own every lane: the wake-up
  invariant leaves no sleeper in front of a free lane.
\<close>

lemma pool_progress:
  assumes inv: "pool_inv lanes s" and tasks: "tasks_return env" and live: "\<not> pool_final lanes s"
  shows "\<exists>t. pool_move env s t"
proof (rule ccontr)
  assume stuck: "\<nexists>t. pool_move env s t"
  have lock: "lock_ok (callers s) (pool_lock s)" using inv by (simp add: pool_inv_def)
  have free: "pool_lock s = None"
  proof (cases "pool_lock s")
    case (Some i)
    then have "i < length (callers s)" "holds_lock (c_pc (callers s ! i))"
      using lock by (auto simp: lock_ok_def)
    then have "\<exists>t. pool_move env s t"
      using caller_can_move [OF tasks, of i s]
      by (cases "c_pc (callers s ! i)") (auto simp: finished_def needs_lock_def)
    then show ?thesis using stuck by simp
  qed
  have pcs: "c_pc c = AtSleep \<or> finished (c_pc c)" if "c \<in> set (callers s)" for c
    using caller_can_move [OF tasks, of _ s] stuck free that by (metis in_set_conv_nth)
  have unlocked: "\<not> holds_lock (c_pc c)" if "c \<in> set (callers s)" for c
    using lock free that by (auto simp: lock_ok_def in_set_conv_nth)
  have "cnt (in_class contender) (callers s) = cnt (\<lambda>c. False) (callers s)"
    using pcs unlocked by (intro cnt_cong) (fastforce simp: finished_def elim: contender.elims)
  moreover have "cnt (in_class owns_lane) (callers s) = cnt (in_class panicked) (callers s)"
    using pcs by (intro cnt_cong) (fastforce simp: finished_def elim: panicked.elims)
  moreover obtain c where "c \<in> set (callers s)" "c_pc c = AtSleep"
    using live pcs by (auto simp: pool_final_def all_finished_def list_all_iff)
  then have "0 < cnt (in_class ((=) AtSleep)) (callers s)"
    unfolding cnt_pos_iff by (metis in_set_conv_nth)
  ultimately have "lanes \<le> cnt (in_class panicked) (callers s)"
    using inv by (simp add: pool_inv_def wake_ok_def table_ok_def cnt_def)
  then show False using live by (simp add: pool_final_def)
qed

subsection \<open>Interpretations\<close>

text \<open>\<open>n\<close> callers on a fresh scheduler.\<close>

definition shared_start :: "nat \<Rightarrow> nat \<Rightarrow> 'a pool \<Rightarrow> bool" where
  "shared_start lanes n s \<longleftrightarrow>
     lanes < 2 ^ 64 \<and> n < 2 ^ 64
     \<and> (\<exists>now p. new_scheduler lanes now = Inr p \<and> s = init_pool p n)"

interpretation shared_sys: invariant_system
  "shared_start lanes n" "pool_step env" "shared_inv env lanes 0" for env lanes n
  by unfold_locales (auto simp: shared_start_def intro: shared_inv_init shared_inv_step)

interpretation shared_live: ranked_system
  "\<lambda>s. shared_start lanes n s \<and> tasks_return env" "pool_move env"
  "\<lambda>s. shared_inv env lanes 0 s \<and> tasks_return env" pool_rank "pool_final lanes"
  for env lanes n
proof unfold_locales
  fix s t :: "'a pool"
  show "shared_inv env lanes 0 s \<and> tasks_return env"
    if "shared_start lanes n s \<and> tasks_return env"
    using that shared_sys.inv_init by blast
  show "shared_inv env lanes 0 t \<and> tasks_return env"
    if "shared_inv env lanes 0 s \<and> tasks_return env" and "pool_move env s t"
    using that shared_sys.inv_step pool_move_step by blast
  show "pool_rank t < pool_rank s" if "pool_move env s t"
    using that by cases (use pool_rank_exec in \<open>fastforce simp: pool_rank_def\<close>)
  show "\<exists>t. pool_move env s t"
    if "shared_inv env lanes 0 s \<and> tasks_return env" and "\<not> pool_final lanes s"
    using that pool_progress unfolding shared_inv_def by blast
qed

subsection \<open>Reachable pools\<close>

definition pool_reachable :: "'a pool_env \<Rightarrow> nat \<Rightarrow> nat \<Rightarrow> 'a pool \<Rightarrow> bool" where
  "pool_reachable env lanes n s \<longleftrightarrow>
     (\<exists>s0. shared_start lanes n s0 \<and> (pool_step env)\<^sup>*\<^sup>* s0 s)"

lemma pool_reachable_inv: "pool_reachable env lanes n s \<Longrightarrow> shared_inv env lanes 0 s"
  unfolding pool_reachable_def using shared_sys.inv_reachable by blast

lemma pool_reachable_steps:
  "pool_reachable env lanes n s \<Longrightarrow> (pool_step env)\<^sup>*\<^sup>* s t \<Longrightarrow> pool_reachable env lanes n t"
  unfolding pool_reachable_def by (meson rtranclp_trans)

lemma pool_reachable_run:
  "shared_start lanes n s0 \<Longrightarrow> pool_run env acts s0 = Some s \<Longrightarrow> pool_reachable env lanes n s"
  unfolding pool_reachable_def using pool_run_steps by blast

lemma pool_steps_length:
  "(pool_step env)\<^sup>*\<^sup>* s t \<Longrightarrow> length (callers t) = length (callers s)"
  by (induction rule: rtranclp_induct) (auto elim!: pool_step.cases dest: length_pool_exec)

lemma pool_reachable_length: "pool_reachable env lanes n s \<Longrightarrow> length (callers s) = n"
  unfolding pool_reachable_def shared_start_def by (auto dest: pool_steps_length simp: init_pool_def)

lemma pool_reachable_parts:
  assumes "pool_reachable env lanes n s"
  shows "pool_inv lanes s" "ids_ok 0 (callers s) (sched s)" "callers_ok env s" "lanes < 2 ^ 64"
    "length (callers s) < 2 ^ 64"
  using pool_reachable_inv [OF assms] unfolding shared_inv_def by auto

lemma pool_inv_parts:
  assumes "pool_inv lanes s"
  shows "length (shared_lanes (sched s)) = lanes" "lane_count (sched s) = lanes"
    "lock_ok (callers s) (pool_lock s)" "owners_ok (callers s) (shared_lanes (sched s))"
    "table_ok (callers s) (shared_lanes (sched s))" "counters_ok (callers s) (sched s)"
    "peak_ok (callers s) (sched s)" "wake_ok (callers s) (shared_lanes (sched s))"
  using assms unfolding pool_inv_def by auto

lemma shared_caller_report:
  assumes "pool_reachable env lanes n s" and "i < n" and "c_pc (callers s ! i) = AtDone"
  shows "\<exists>r out. c_result (callers s ! i) = Some r
    \<and> execution_id (report r) = c_eid (callers s ! i)
    \<and> lane_id (report r) = LaneId (c_lane (callers s ! i))
    \<and> out \<noteq> TaskPanic \<and> may_return env i (execution_id (report r)) (lane_id (report r)) out
    \<and> (success (report r), rep_error (report r), result_value r) = outcome_fields out
    \<and> c_assigned_at (callers s ! i) + scheduling_gap (report r) = c_task_started_at (callers s ! i)
    \<and> c_queued_at (callers s ! i) + queued_for (report r) \<le> c_task_started_at (callers s ! i)
    \<and> c_task_started_at (callers s ! i) \<le> pool_clock s"
proof -
  let ?c = "callers s ! i"
  have "caller_ok env i (pool_clock s) ?c"
    using pool_reachable_parts(3) [OF assms(1)] pool_reachable_length [OF assms(1)] assms(2)
    by (simp add: callers_ok_def)
  then show ?thesis
    using assms(3)
    by (intro exI [of _ "caller_result ?c"] exI [of _ "c_outcome ?c"])
      (auto simp: caller_ok_def caller_result_def duration_since_def split: prod.splits)
qed

lemma lane_view_running: "cnt (\<lambda>v. v \<noteq> LaneFree) (map lane_view slots) = occupied_lanes slots"
  by (induction slots) (auto simp: occupied_lanes_def lane_view_def split: option.splits)

text \<open>What a snapshot of a reachable pool reports, in numbers of callers.\<close>

lemma snapshot_counts:
  assumes "pool_reachable env lanes n s"
  shows "unat (snap_lane_count (shared_snapshot (sched s))) = lanes
    \<and> length (snap_lanes (shared_snapshot (sched s))) = lanes
    \<and> unat (snap_running (shared_snapshot (sched s))) = cnt (in_class activated) (callers s)
    \<and> unat (snap_running (shared_snapshot (sched s))) \<le> lanes
    \<and> unat (snap_queued (shared_snapshot (sched s))) = cnt (in_class queueing) (callers s)
    \<and> unat (snap_peak_active (shared_snapshot (sched s))) \<le> lanes
    \<and> cnt (\<lambda>v. v \<noteq> LaneFree) (snap_lanes (shared_snapshot (sched s)))
        = cnt (in_class owns_lane) (callers s)"
proof -
  note inv = pool_reachable_parts [OF assms]
  note parts = pool_inv_parts [OF inv(1)]
  have "unat (shared_active (sched s)) = cnt (in_class activated) (callers s)"
    using unat_active [OF parts(5,6)] parts(1) inv(4) by simp
  moreover have "cnt (in_class queueing) (callers s) < 2 ^ 64"
    using cnt_le_length [of "in_class queueing" "callers s"] inv(5) by linarith
  ultimately show ?thesis
    using inv(4) parts(1,2) active_le_capacity [OF parts(5)] parts(5,6,7) lane_view_running
    by (simp add: shared_snapshot_def unat_of_nat_64 counters_ok_def peak_ok_def table_ok_def)
qed

end
