(* ===== verification/Sched_Shared_Claims.thy ===== *)
theory Sched_Shared_Claims
  imports Sched_Shared_Props
begin

section \<open>What the shared lane pool promises\<close>

text \<open>
  The properties of \<^verbatim>\<open>PitScheduler::run_one\<close> under concurrent callers, read off the
  invariant and the rank of the pool, with concrete schedules as their witnesses.
\<close>

subsection \<open>Callers and lanes\<close>

lemma entered_owner: "owns_lane pc \<Longrightarrow> entered pc"
  by (auto simp: entered_def)

lemma ids_distinct:
  "ids_ok first cs p \<Longrightarrow> i < length cs \<Longrightarrow> j < length cs \<Longrightarrow> i \<noteq> j \<Longrightarrow>
    entered (c_pc (cs ! i)) \<Longrightarrow> entered (c_pc (cs ! j)) \<Longrightarrow> c_eid (cs ! i) \<noteq> c_eid (cs ! j)"
  unfolding ids_ok_def by blast

text \<open>A panicked caller stays as it is, and stays the owner of its lane.\<close>

lemma panicked_stuck: "panicked (c_pc c) \<Longrightarrow> caller_step env i now out c p lk = None"
  by (cases "c_pc c") (auto simp: caller_step_def)

lemma panicked_kept:
  assumes "(pool_step env)\<^sup>*\<^sup>* s t" and "k < length (callers s)" and "panicked (c_pc (callers s ! k))"
  shows "callers t ! k = callers s ! k"
  using assms(1)
proof (induction rule: rtranclp_induct)
  case base
  show ?case ..
next
  case (step t u)
  from step(2) obtain now a where exec: "pool_exec env a (t\<lparr>pool_clock := now\<rparr>) = Some u"
    by cases blast
  have "k < length (callers (t\<lparr>pool_clock := now\<rparr>))"
    using pool_steps_length [OF step(1)] assms(2) by simp
  from exec this show ?case
  proof (cases rule: pool_exec_caller)
    case (own out p lk)
    then show ?thesis
      using panicked_stuck [of "callers t ! k"] step(3) assms(3) by simp
  next
    case woken
    then show ?thesis using step(3) assms(3) by auto
  next
    case frame
    then show ?thesis using step(3) by simp
  qed
qed

lemma panicked_owns: "panicked pc \<Longrightarrow> owns_lane pc"
  by (cases pc) auto

lemma panicked_count_kept:
  assumes "(pool_step env)\<^sup>*\<^sup>* s t"
  shows "cnt (in_class panicked) (callers s) \<le> cnt (in_class panicked) (callers t)"
proof -
  have "{k. k < length (callers s) \<and> in_class panicked (callers s ! k)}
      \<subseteq> {k. k < length (callers t) \<and> in_class panicked (callers t ! k)}"
    using panicked_kept [OF assms] pool_steps_length [OF assms] by auto
  then show ?thesis unfolding cnt_card by (intro card_mono) auto
qed

text \<open>A caller that waits keeps waiting until it claims a lane.\<close>

lemma step_waits:
  "caller_step env i now out c p lk = Some (c', p', lk') \<Longrightarrow> 20 \<le> pc_rank (c_pc c) \<Longrightarrow>
    20 \<le> pc_rank (c_pc c') \<or> c_pc c' = AtLeaveQueue"
  unfolding caller_step_def by (cases "c_pc c") (auto split: if_splits option.splits)

lemma pool_step_waits:
  assumes "pool_step env s t" and "i < length (callers s)" and "20 \<le> pc_rank (c_pc (callers s ! i))"
  shows "20 \<le> pc_rank (c_pc (callers t ! i)) \<or> c_pc (callers t ! i) = AtLeaveQueue"
proof -
  from assms(1) obtain now a where exec: "pool_exec env a (s\<lparr>pool_clock := now\<rparr>) = Some t"
    by cases blast
  have "i < length (callers (s\<lparr>pool_clock := now\<rparr>))" using assms(2) by simp
  from exec this show ?thesis
  proof (cases rule: pool_exec_caller)
    case (own out p lk)
    then show ?thesis using step_waits assms(3) by fastforce
  qed (use assms(3) in auto)
qed

subsection \<open>A concrete pool\<close>

text \<open>
  Two callers on one lane, or three; tasks return the number of their caller, or panic when that
  number is \<open>2\<close>.
\<close>

definition demo_env :: "nat pool_env" where
  "demo_env =
     \<lparr>may_return = (\<lambda>i e l out. out = (if i = 2 then TaskPanic else TaskOk i)),
      observer_panics = (\<lambda>i e l. False), wall_clock = (\<lambda>t. 1000 + t)\<rparr>"

definition demo_start :: "nat \<Rightarrow> nat \<Rightarrow> nat pool" where
  "demo_start lanes n = init_pool (scheduler_with_lanes lanes 7) n"

definition demo_acts :: "nat \<Rightarrow> nat \<Rightarrow> instant \<Rightarrow> (instant \<times> nat pool_act) list" where
  "demo_acts i k now =
     map (\<lambda>d. (now + d, Advance i (Some (if i = 2 then TaskPanic else TaskOk i)))) [0..<k]"

lemma demo_shared_start: "0 < lanes \<Longrightarrow> lanes < 2 ^ 64 \<Longrightarrow> n < 2 ^ 64 \<Longrightarrow>
    shared_start lanes n (demo_start lanes n)"
  by (auto simp: shared_start_def demo_start_def new_scheduler_def)

lemma pool_run_the:
  "pool_run env acts s \<noteq> None \<Longrightarrow> (pool_step env)\<^sup>*\<^sup>* s (the (pool_run env acts s))"
  by (auto intro: pool_run_steps)

definition demo_run :: "nat \<Rightarrow> nat \<Rightarrow> (instant \<times> nat pool_act) list \<Rightarrow> nat pool" where
  "demo_run lanes n acts = the (pool_run demo_env acts (demo_start lanes n))"

lemma demo_reachable:
  assumes "0 < lanes" "lanes < 2 ^ 64" "n < 2 ^ 64"
    and "pool_run demo_env acts (demo_start lanes n) \<noteq> None"
  shows "pool_reachable demo_env lanes n (demo_run lanes n acts)"
  using pool_reachable_run [OF demo_shared_start [OF assms(1-3)], of demo_env acts] assms(4)
  by (auto simp: demo_run_def)

text \<open>Two lanes: caller 0 is inside its task, caller 1 has just been assigned.\<close>

definition demo_two :: "(instant \<times> nat pool_act) list" where
  "demo_two = demo_acts 0 12 7 @ demo_acts 1 6 19"

lemmas demo_eval =
  replicate_numeral upt_0_numeral
  demo_start_def init_pool_def scheduler_with_lanes_def new_caller_def caller_step_def
  demo_env_def wake_allowed_def wake_chosen_def vacate_lane_def duration_since_def
  caller_result_def nanos_u64_def demo_acts_def nth_Cons'

lemma demo_two_runs: "pool_run demo_env demo_two (demo_start 2 2) \<noteq> None"
  by (simp add: demo_two_def demo_eval)

text \<open>One lane: caller 0 goes through and returns.\<close>

definition demo_done :: "(instant \<times> nat pool_act) list" where
  "demo_done = demo_acts 0 18 7 @ [(30, NotifyOne 0 None)] @ demo_acts 0 1 31"

lemma demo_done_runs: "pool_run demo_env demo_done (demo_start 1 1) \<noteq> None"
  by (simp add: demo_done_def demo_eval)

text \<open>One lane and three callers: caller 2 panics inside its task, caller 0 is at the lock.\<close>

definition demo_panic :: "(instant \<times> nat pool_act) list" where
  "demo_panic = demo_acts 2 13 7 @ demo_acts 0 2 20"

lemma demo_panic_runs: "pool_run demo_env demo_panic (demo_start 1 3) \<noteq> None"
  by (simp add: demo_panic_def demo_eval)

lemma demo_two_state:
  "map c_pc (callers (demo_run 2 2 demo_two)) = [AtTask, AtObserve]"
  "map c_lane (callers (demo_run 2 2 demo_two)) = [0, 1]"
  by (simp_all add: demo_run_def demo_two_def demo_eval)

lemma demo_done_state: "map c_pc (callers (demo_run 1 1 demo_done)) = [AtDone]"
  by (simp_all add: demo_run_def demo_done_def demo_eval)

lemma demo_panic_state:
  "map c_pc (callers (demo_run 1 3 demo_panic)) = [AtLock, AtEnter, AtPanicked True]"
  by (simp_all add: demo_run_def demo_panic_def demo_eval)

subsection \<open>The properties\<close>

text \<open>C5: Lanes are exclusive. In every reachable state of a pool with any number of concurrent
  \<^verbatim>\<open>run_one\<close> callers, two callers that own a lane (from the claim under the lock to its
  release, panicked callers included) own different lanes and have different identifiers, and the
  lane table shows the identifier of the owner in the owner's slot.\<close>

theorem shared_lane_exclusive:
  assumes "pool_reachable env lanes n s" and "i < n" "j < n" "i \<noteq> j"
    and "owns_lane (c_pc (callers s ! i))" "owns_lane (c_pc (callers s ! j))"
  shows "c_lane (callers s ! i) < lanes
    \<and> shared_lanes (sched s) ! c_lane (callers s ! i) = Some (c_eid (callers s ! i))
    \<and> c_lane (callers s ! i) \<noteq> c_lane (callers s ! j)
    \<and> c_eid (callers s ! i) \<noteq> c_eid (callers s ! j)"
proof -
  note inv = pool_reachable_parts [OF assms(1)] and len = pool_reachable_length [OF assms(1)]
  note parts = pool_inv_parts [OF inv(1)]
  have "lane_holder (shared_lanes (sched s)) (c_lane (callers s ! i)) = Some (c_eid (callers s ! i))"
    using owners_ok_holder [OF parts(4)] assms len by simp
  then have "c_lane (callers s ! i) < lanes"
    "shared_lanes (sched s) ! c_lane (callers s ! i) = Some (c_eid (callers s ! i))"
    using parts(1) by (auto simp: lane_holder_def split: if_splits)
  then show ?thesis
    using owners_ok_inj [OF parts(4)] ids_distinct [OF inv(2)] assms len entered_owner by simp
qed

theorem shared_lane_exclusive_witness:
  "c_lane (callers (demo_run 2 2 demo_two) ! 0) \<noteq> c_lane (callers (demo_run 2 2 demo_two) ! 1)"
proof -
  have r: "pool_reachable demo_env 2 2 (demo_run 2 2 demo_two)"
    by (rule demo_reachable [OF _ _ _ demo_two_runs]) simp_all
  have "map c_pc (callers (demo_run 2 2 demo_two)) ! 0 = AtTask"
    "map c_pc (callers (demo_run 2 2 demo_two)) ! 1 = AtObserve"
    by (simp_all add: demo_two_state)
  then have "c_pc (callers (demo_run 2 2 demo_two) ! 0) = AtTask"
    "c_pc (callers (demo_run 2 2 demo_two) ! 1) = AtObserve"
    using pool_reachable_length [OF r] by simp_all
  then show ?thesis using shared_lane_exclusive [OF r, of 0 1] by simp
qed

text \<open>C6: What \<^verbatim>\<open>shared_snapshot\<close> reports at any moment of any run: as many lanes as
  the scheduler has; \<^verbatim>\<open>running\<close> is the number of callers between the increment and the
  decrement of \<^verbatim>\<open>shared_active\<close> and never more than the lanes; \<^verbatim>\<open>queued\<close>
  is the number of callers waiting for a lane; the peak is at most the number of lanes; and the
  lanes shown running are exactly those owned by a caller.\<close>

theorem shared_snapshot_truthful:
  assumes "pool_reachable env lanes n s"
  shows "unat (snap_lane_count (shared_snapshot (sched s))) = lanes
    \<and> length (snap_lanes (shared_snapshot (sched s))) = lanes
    \<and> unat (snap_running (shared_snapshot (sched s))) = cnt (in_class activated) (callers s)
    \<and> unat (snap_running (shared_snapshot (sched s))) \<le> lanes
    \<and> unat (snap_queued (shared_snapshot (sched s))) = cnt (in_class queueing) (callers s)
    \<and> unat (snap_peak_active (shared_snapshot (sched s))) \<le> lanes
    \<and> cnt (\<lambda>v. v \<noteq> LaneFree) (snap_lanes (shared_snapshot (sched s)))
        = cnt (in_class owns_lane) (callers s)"
  by (rule snapshot_counts [OF assms])

theorem shared_snapshot_truthful_witness:
  "unat (snap_running (shared_snapshot (sched (demo_run 2 2 demo_two)))) \<le> 2"
proof -
  have "pool_reachable demo_env 2 2 (demo_run 2 2 demo_two)"
    by (rule demo_reachable [OF _ _ _ demo_two_runs]) simp_all
  from shared_snapshot_truthful [OF this] show ?thesis by blast
qed

text \<open>C7: No lost wake-up and no deadlock. When no caller can take a step any more without a
  spurious wake-up, and some lane is not owned by a panicked caller, every caller has returned or
  panicked: nobody is left sleeping on the condition variable although \<^verbatim>\<open>notify_one\<close>
  wakes only one sleeper.\<close>

theorem shared_no_deadlock:
  assumes "pool_reachable env lanes n s" and "tasks_return env"
    and "\<And>t. \<not> pool_move env s t"
    and "cnt (in_class panicked) (callers s) < lanes"
  shows "list_all (\<lambda>c. finished (c_pc c)) (callers s)"
  using shared_live.stuck_final [of env lanes s] pool_reachable_inv [OF assms(1)] assms(2-4)
  by (auto simp: pool_final_def all_finished_def)

lemma demo_done_stuck: "\<not> pool_move demo_env (demo_run 1 1 demo_done) t"
proof
  let ?s = "demo_run 1 1 demo_done"
  have r: "pool_reachable demo_env 1 1 ?s"
    by (rule demo_reachable [OF _ _ _ demo_done_runs]) simp_all
  have "map c_pc (callers ?s) ! 0 = AtDone" unfolding demo_done_state by simp
  then have pc: "c_pc (callers ?s ! 0) = AtDone" and len: "length (callers ?s) = 1"
    using pool_reachable_length [OF r] by simp_all
  assume "pool_move demo_env ?s t"
  then obtain now a where a: "\<not> spurious a" "pool_exec demo_env a (?s\<lparr>pool_clock := now\<rparr>) = Some t"
    by cases blast
  then show False
    using pc len by (cases a) (auto simp: caller_step_def split: if_splits)
qed

lemma demo_tasks_return: "tasks_return demo_env"
  by (simp add: tasks_return_def demo_env_def)

theorem shared_no_deadlock_witness:
  "list_all (\<lambda>c. finished (c_pc c)) (callers (demo_run 1 1 demo_done))"
proof (rule shared_no_deadlock [OF _ demo_tasks_return demo_done_stuck])
  show r: "pool_reachable demo_env 1 1 (demo_run 1 1 demo_done)"
    by (rule demo_reachable [OF _ _ _ demo_done_runs]) simp_all
  have "cnt panicked (map c_pc (callers (demo_run 1 1 demo_done))) = 0"
    unfolding demo_done_state by simp
  then show "cnt (in_class panicked) (callers (demo_run 1 1 demo_done)) < 1"
    by (simp add: cnt_def filter_map comp_def)
qed



text \<open>The report a caller gets back. A caller that has returned holds a result whose report
  names its own identifier and the lane it owned; success, error and value are those of an outcome
  its task can have on that identifier and lane (never a panic); \<^verbatim>\<open>scheduling_gap\<close> is
  exactly the time from the assignment of the lane to the start of the task; and the caller was
  queued at most \<^verbatim>\<open>queued_for\<close> before that start.\<close>

theorem shared_report_correct:
  assumes "pool_reachable env lanes n s" and "i < n" and "c_pc (callers s ! i) = AtDone"
  shows "\<exists>r out. c_result (callers s ! i) = Some r
    \<and> execution_id (report r) = c_eid (callers s ! i)
    \<and> lane_id (report r) = LaneId (c_lane (callers s ! i))
    \<and> out \<noteq> TaskPanic \<and> may_return env i (execution_id (report r)) (lane_id (report r)) out
    \<and> (success (report r), rep_error (report r), result_value r) = outcome_fields out
    \<and> c_assigned_at (callers s ! i) + scheduling_gap (report r) = c_task_started_at (callers s ! i)
    \<and> c_queued_at (callers s ! i) + queued_for (report r) \<le> c_task_started_at (callers s ! i)
    \<and> c_task_started_at (callers s ! i) \<le> pool_clock s"
  by (rule shared_caller_report [OF assms])

theorem shared_report_correct_witness:
  "\<exists>r. c_result (callers (demo_run 1 1 demo_done) ! 0) = Some r \<and> result_value r = Some 0"
proof -
  have r: "pool_reachable demo_env 1 1 (demo_run 1 1 demo_done)"
    by (rule demo_reachable [OF _ _ _ demo_done_runs]) simp_all
  have "map c_pc (callers (demo_run 1 1 demo_done)) ! 0 = AtDone" unfolding demo_done_state by simp
  then have "c_pc (callers (demo_run 1 1 demo_done) ! 0) = AtDone"
    using pool_reachable_length [OF r] by simp
  from shared_report_correct [OF r _ this] show ?thesis by (auto simp: demo_env_def)
qed

text \<open>A panic costs its lane for good. A task or observer that panics unwinds through
  \<^verbatim>\<open>run_one_observed\<close> without releasing anything: in every later state the slot of the
  lane still shows the identifier of the panicked execution, and no other caller ever owns that
  lane.\<close>

theorem panicked_lane_leaks:
  assumes "pool_reachable env lanes n s" and "i < n" and "panicked (c_pc (callers s ! i))"
    and "(pool_step env)\<^sup>*\<^sup>* s t" and "j < n" "j \<noteq> i" "owns_lane (c_pc (callers t ! j))"
  shows "shared_lanes (sched t) ! c_lane (callers s ! i) = Some (c_eid (callers s ! i))
    \<and> c_lane (callers t ! j) \<noteq> c_lane (callers s ! i)"
proof -
  have t: "pool_reachable env lanes n t"
    using pool_reachable_steps [OF assms(1,4)] .
  have same: "callers t ! i = callers s ! i"
    using panicked_kept [OF assms(4)] assms(2,3) pool_reachable_length [OF assms(1)] by simp
  note parts = pool_inv_parts [OF pool_reachable_parts(1) [OF t]]
  have owns: "owns_lane (c_pc (callers t ! i))"
    using panicked_owns assms(3) same by simp
  then have "lane_holder (shared_lanes (sched t)) (c_lane (callers t ! i)) = Some (c_eid (callers t ! i))"
    using owners_ok_holder [OF parts(4)] assms(2) pool_reachable_length [OF t] by simp
  then show ?thesis
    using owners_ok_inj [OF parts(4), of j i] owns same assms pool_reachable_length [OF t]
    by (auto simp: lane_holder_def split: if_splits)
qed

text \<open>Two lanes: caller 2 has panicked on lane 0, then caller 0 goes through on lane 1.\<close>

definition demo_leak :: "(instant \<times> nat pool_act) list" where
  "demo_leak = demo_acts 2 13 7"

definition demo_leak_after :: "(instant \<times> nat pool_act) list" where
  "demo_leak_after = demo_acts 0 8 20"

lemma demo_leak_runs: "pool_run demo_env demo_leak (demo_start 2 3) \<noteq> None"
  by (simp add: demo_leak_def demo_eval)

lemma demo_leak_state:
  "map c_pc (callers (demo_run 2 3 demo_leak)) = [AtEnter, AtEnter, AtPanicked True]"
  "map c_lane (callers (demo_run 2 3 demo_leak)) = [0, 0, 0]"
  by (simp_all add: demo_run_def demo_leak_def demo_eval)

lemma demo_leak_after_runs: "pool_run demo_env demo_leak_after (demo_run 2 3 demo_leak) \<noteq> None"
  by (simp add: demo_run_def demo_leak_def demo_leak_after_def demo_eval)

lemma demo_leak_after_state:
  "map c_pc (callers (the (pool_run demo_env demo_leak_after (demo_run 2 3 demo_leak))))
    = [AtPeak, AtEnter, AtPanicked True]"
  by (simp add: demo_run_def demo_leak_def demo_leak_after_def demo_eval)

theorem panicked_lane_leaks_witness:
  "c_lane (callers (the (pool_run demo_env demo_leak_after (demo_run 2 3 demo_leak))) ! 0)
    \<noteq> c_lane (callers (demo_run 2 3 demo_leak) ! 2)"
proof -
  let ?s = "demo_run 2 3 demo_leak" and ?t = "the (pool_run demo_env demo_leak_after (demo_run 2 3 demo_leak))"
  have r: "pool_reachable demo_env 2 3 ?s"
    by (rule demo_reachable [OF _ _ _ demo_leak_runs]) simp_all
  have st: "(pool_step demo_env)\<^sup>*\<^sup>* ?s ?t"
    by (rule pool_run_the [OF demo_leak_after_runs])
  have "map c_pc (callers ?s) ! 2 = AtPanicked True" unfolding demo_leak_state by simp
  then have s2: "c_pc (callers ?s ! 2) = AtPanicked True"
    using pool_reachable_length [OF r] by simp
  have "map c_pc (callers ?t) ! 0 = AtPeak" unfolding demo_leak_after_state by simp
  then have "c_pc (callers ?t ! 0) = AtPeak"
    using pool_reachable_length [OF pool_reachable_steps [OF r st]] by simp
  then show ?thesis
    using panicked_lane_leaks [OF r, of 2 ?t 0] s2 st by simp
qed

text \<open>Panics can starve the pool. Once as many callers have panicked as there are lanes, a
  caller that has no lane yet never gets one, never runs its task and never returns.\<close>

theorem panics_starve_pool:
  assumes "pool_reachable env lanes n s" and "lanes \<le> cnt (in_class panicked) (callers s)"
    and "i < n" and "\<not> owns_lane (c_pc (callers s ! i))"
    and "c_pc (callers s ! i) \<notin> {AtDeactivate, AtNotify, AtReturn, AtDone}"
    and "(pool_step env)\<^sup>*\<^sup>* s t"
  shows "\<not> owns_lane (c_pc (callers t ! i)) \<and> c_pc (callers t ! i) \<noteq> AtDone"
proof -
  have len: "length (callers s) = n" using pool_reachable_length [OF assms(1)] .
  have waiting: "pc_rank (c_pc c) \<ge> 20 \<longleftrightarrow> \<not> owns_lane (c_pc c)
      \<and> c_pc c \<notin> {AtDeactivate, AtNotify, AtReturn, AtDone}" for c :: "'a caller"
    by (cases "c_pc c") auto
  from assms(6) have "20 \<le> pc_rank (c_pc (callers t ! i))"
  proof (induction rule: rtranclp_induct)
    case base
    then show ?case using waiting assms(4,5) by blast
  next
    case (step t u)
    have u: "pool_reachable env lanes n u" and su: "(pool_step env)\<^sup>*\<^sup>* s u"
      using step(1,2) pool_reachable_steps [OF assms(1)] by (auto intro: rtranclp.rtrancl_into_rtrancl)
    note parts = pool_inv_parts [OF pool_reachable_parts(1) [OF u]]
    have full: "lanes \<le> cnt (in_class panicked) (callers u)"
      using assms(2) panicked_count_kept [OF su] by simp
    have lenu: "length (callers u) = n" "length (callers t) = n"
      using pool_steps_length [OF su] pool_steps_length [OF step(1)] len by simp_all
    have "c_pc (callers u ! i) \<noteq> AtLeaveQueue"
    proof
      assume "c_pc (callers u ! i) = AtLeaveQueue"
      then have "cnt (in_class panicked) (callers u) < cnt (in_class owns_lane) (callers u)"
        using panicked_owns assms(3) lenu(1) by (intro cnt_less [of i]) auto
      then show False using full parts(1,5) by (simp add: table_ok_def)
    qed
    then show ?case using pool_step_waits [OF step(2)] step.IH assms(3) lenu(2) by blast
  qed
  then show ?thesis using waiting by auto
qed

lemma demo_starve_runs: "pool_run demo_env [(40, Advance 1 None)] (demo_run 1 3 demo_panic) \<noteq> None"
  by (simp add: demo_run_def demo_panic_def demo_eval)

theorem panics_starve_pool_witness:
  "c_pc (callers (the (pool_run demo_env [(40, Advance 1 None)] (demo_run 1 3 demo_panic))) ! 0)
    \<noteq> AtDone"
proof -
  let ?s = "demo_run 1 3 demo_panic" and ?acts = "[(40, Advance 1 None)]"
  have r: "pool_reachable demo_env 1 3 ?s"
    by (rule demo_reachable [OF _ _ _ demo_panic_runs]) simp_all
  have st: "(pool_step demo_env)\<^sup>*\<^sup>* ?s (the (pool_run demo_env ?acts ?s))"
    by (rule pool_run_the [OF demo_starve_runs])
  have "map c_pc (callers ?s) ! 0 = AtLock" unfolding demo_panic_state by simp
  then have pc: "c_pc (callers ?s ! 0) = AtLock"
    using pool_reachable_length [OF r] by simp
  have "cnt panicked (map c_pc (callers ?s)) = 1" unfolding demo_panic_state by simp
  then have "1 \<le> cnt (in_class panicked) (callers ?s)"
    by (simp add: cnt_def filter_map comp_def)
  from panics_starve_pool [OF r this, of 0] pc st show ?thesis by simp
qed

text \<open>Quiescence. When all callers have returned, the pool is as if nothing had happened:
  every lane is free, nobody is active or waiting, the lock is free, and the next identifier is
  the number of executions.\<close>

theorem shared_quiescent:
  assumes "pool_reachable env lanes n s" and "\<forall>c\<in>set (callers s). c_pc c = AtDone"
  shows "shared_lanes (sched s) = replicate lanes None \<and> shared_active (sched s) = 0
    \<and> shared_waiting (sched s) = 0 \<and> pool_lock s = None
    \<and> unat (next_execution_id (sched s)) = n"
proof -
  note inv = pool_reachable_parts [OF assms(1)]
  note parts = pool_inv_parts [OF inv(1)] and len = pool_reachable_length [OF assms(1)]
  have none: "cnt (in_class P) (callers s) = 0" if "\<not> P AtDone" for P
    using assms(2) that by (auto simp: cnt_0_iff)
  have all: "cnt (in_class entered) (callers s) = n"
    using assms(2) len by (subst cnt_eq_length_iff [THEN iffD2]) (auto simp: entered_def)
  have "occupied_lanes (shared_lanes (sched s)) = 0"
    using parts(5) none [of owns_lane] by (simp add: table_ok_def)
  then have "shared_lanes (sched s) = replicate lanes None"
    using parts(1) by (auto simp: occupied_lanes_def cnt_0_iff intro!: nth_equalityI)
  moreover have "pool_lock s = None"
    using parts(3) assms(2) by (cases "pool_lock s") (auto simp: lock_ok_def)
  ultimately show ?thesis
    using parts(6) none [of queueing] none [of activated] inv(2,5) all len
    by (simp add: counters_ok_def ids_ok_def unat_of_nat_64)
qed

theorem shared_quiescent_witness:
  "shared_lanes (sched (demo_run 1 1 demo_done)) = [None]"
proof -
  have r: "pool_reachable demo_env 1 1 (demo_run 1 1 demo_done)"
    by (rule demo_reachable [OF _ _ _ demo_done_runs]) simp_all
  have "set (map c_pc (callers (demo_run 1 1 demo_done))) = {AtDone}"
    unfolding demo_done_state by simp
  then show ?thesis using shared_quiescent [OF r] by auto
qed

text \<open>The identifiers callers see. Two reports shown with the same string have the same
  identifier, and the string reads back as the identifier plus one, also when the addition wraps
  in a build without overflow checks; it has at least four digits.\<close>

theorem display_execution_id_faithful:
  assumes "display_execution_id chk e = Some x"
  shows "undec x = unat (eid_num e + 1) \<and> 4 \<le> length x
    \<and> (display_execution_id chk' f = Some x \<longrightarrow> e = f)"
proof (intro conjI impI)
  show "undec x = unat (eid_num e + 1)" by (rule undec_display_execution_id [OF assms])
  show "4 \<le> length x"
    using assms length_pad0 by (auto simp: display_execution_id_def split: if_splits)
  show "e = f" if "display_execution_id chk' f = Some x"
    by (rule display_execution_id_inj [OF assms that])
qed

theorem display_execution_id_faithful_witness: "undec ''0042'' = 42"
proof -
  have "display_execution_id True (ExecutionId 41) = Some ''0042''" by code_simp
  from display_execution_id_faithful [OF this] show ?thesis by simp
qed

end
