(* ===== verification/Sched_Batch.thy ===== *)
theory Sched_Batch
  imports Lane_Pool Transition_System Sched_Shared
begin

section \<open>Batch runs: \<^verbatim>\<open>run_many_classified\<close>\<close>

text \<open>
  One batch: the identifiers and queue instants are allocated, the \<^verbatim>\<open>Queued\<close> events are
  pushed, one worker thread per lane loops over the atomic work cursor, and when the thread scope
  has joined the workers the results are collected and sorted. A step of the model is one atomic
  operation, one short lock-protected operation, one clock reading or the task itself of one
  worker. The batch lock \<^verbatim>\<open>run_lock\<close> is held throughout, so a single batch is modelled;
  concurrent \<^verbatim>\<open>run_one\<close> callers on the same scheduler only take identifiers and add to
  \<^verbatim>\<open>busy_nanos\<close>, which the model leaves open. Creating the threads is assumed to succeed.
\<close>

subsection \<open>Allocation\<close>

text \<open>
  \<^verbatim>\<open>count\<close> times \<^verbatim>\<open>next_execution_id.fetch_add(1)\<close>; \<open>gaps\<close> says how many
  identifiers other callers take in front of each.
\<close>

fun alloc_ids :: "nat list \<Rightarrow> u64 \<Rightarrow> ExecutionId list \<times> u64" where
  "alloc_ids [] n = ([], n)"
| "alloc_ids (g # gs) n =
     (case alloc_ids gs (n + of_nat g + 1) of (ids, m) \<Rightarrow> (ExecutionId (n + of_nat g) # ids, m))"

text \<open>What the caller passes in, and what the preamble has fixed for the workers.\<close>

record 'a batch_job =
  j_count :: nat
  j_ids :: "ExecutionId list"
  j_queued_at :: "instant list"
  j_returns :: "ExecutionId \<Rightarrow> LaneId \<Rightarrow> 'a outcome \<Rightarrow> bool" \<comment> \<open>how the task may end\<close>
  j_classify :: "'a \<Rightarrow> string option"
  j_classify_panics :: "'a \<Rightarrow> bool"
  j_wall :: "instant \<Rightarrow> nat"

subsection \<open>Workers\<close>

datatype worker_pc =
    WFetch \<comment> \<open>\<^verbatim>\<open>next_execution.fetch_add\<close> and the test of the index\<close>
  | WDequeue \<comment> \<open>\<^verbatim>\<open>queued.fetch_sub\<close>\<close>
  | WAssign \<comment> \<open>\<^verbatim>\<open>assigned_at\<close>\<close>
  | WSetRunning
  | WIncr \<comment> \<open>\<^verbatim>\<open>running.fetch_add\<close>\<close>
  | WPeak
  | WQueuedFor
  | WPushStarted
  | WTaskStarted
  | WTimer
  | WTask
  | WElapsed
  | WClassify \<comment> \<open>the classifier and the report\<close>
  | WBusy \<comment> \<open>\<^verbatim>\<open>busy_nanos.fetch_add\<close>\<close>
  | WCount \<comment> \<open>\<^verbatim>\<open>completed\<close> or \<^verbatim>\<open>failed\<close>\<close>
  | WPushDone
  | WDecr
  | WSetFree
  | WPushResult
  | WExit
  | WPanicked bool \<comment> \<open>unwound in the task or in the classifier (the flag)\<close>

record 'a worker =
  w_pc :: worker_pc
  w_lane :: LaneId
  w_index :: nat
  w_eid :: ExecutionId
  w_assigned_at :: instant
  w_active :: usize
  w_queued_for :: duration
  w_task_started_at :: instant
  w_started :: nat
  w_timer :: instant
  w_outcome :: "'a outcome"
  w_duration :: duration
  w_result :: "'a ExecutionResult"

definition no_report :: ExecutionReport where
  "no_report =
     \<lparr>execution_id = ExecutionId 0, lane_id = LaneId 0, started = 0, queued_for = 0,
      scheduling_gap = 0, rep_duration = 0, success = False, rep_error = None\<rparr>"

definition new_worker :: "ExecutionLane \<Rightarrow> 'a worker" where
  "new_worker lane =
     \<lparr>w_pc = WFetch, w_lane = lane_id_of lane, w_index = 0, w_eid = ExecutionId 0,
      w_assigned_at = 0, w_active = 0, w_queued_for = 0, w_task_started_at = 0, w_started = 0,
      w_timer = 0, w_outcome = TaskPanic, w_duration = 0,
      w_result = \<lparr>report = no_report, result_value = None\<rparr>\<rparr>"

text \<open>What the workers share.\<close>

record 'a board =
  bd_sched :: PitScheduler
  bd_state :: RunState
  bd_next :: usize
  bd_results :: "'a ExecutionResult list"

text \<open>\<^verbatim>\<open>match outcome { Ok(value) => match classify(&value) { ... }, Err(error) => ... }\<close>\<close>

fun classified :: "('a \<Rightarrow> string option) \<Rightarrow> 'a outcome \<Rightarrow> bool \<times> string option \<times> 'a option" where
  "classified classify (TaskOk v) =
     (case classify v of Some e \<Rightarrow> (False, Some e, Some v) | None \<Rightarrow> (True, None, Some v))"
| "classified classify (TaskErr e) = (False, Some e, None)"
| "classified classify TaskPanic = (False, None, None)"

definition classifier_panics :: "'a batch_job \<Rightarrow> 'a outcome \<Rightarrow> bool" where
  "classifier_panics job out =
     (case out of TaskOk v \<Rightarrow> j_classify_panics job v | TaskErr _ \<Rightarrow> False | TaskPanic \<Rightarrow> False)"

definition worker_result :: "'a batch_job \<Rightarrow> 'a worker \<Rightarrow> 'a ExecutionResult" where
  "worker_result job w =
     (case classified (j_classify job) (w_outcome w) of (ok, err, val) \<Rightarrow>
       \<lparr>report =
          \<lparr>execution_id = w_eid w, lane_id = w_lane w, started = w_started w,
           queued_for = w_queued_for w,
           scheduling_gap = duration_since (w_task_started_at w) (w_assigned_at w),
           rep_duration = w_duration w, success = ok, rep_error = err\<rparr>,
        result_value = val\<rparr>)"

text \<open>The event that ends an execution.\<close>

definition final_event :: "ExecutionReport \<Rightarrow> ExecutionEvent" where
  "final_event r =
     (if success r then EvCompleted (execution_id r) (lane_id r) (rep_duration r)
      else EvFailed (execution_id r) (lane_id r) (rep_duration r)
        (case rep_error r of Some e \<Rightarrow> e | None \<Rightarrow> ''unknown error''))"

definition count_outcome :: "bool \<Rightarrow> RunState \<Rightarrow> RunState" where
  "count_outcome ok rs =
     (if ok then rs\<lparr>rs_completed := rs_completed rs + 1\<rparr>
      else rs\<lparr>rs_failed := rs_failed rs + 1\<rparr>)"

subsection \<open>One step of one worker\<close>

abbreviation on_state :: "(RunState \<Rightarrow> RunState) \<Rightarrow> 'a board \<Rightarrow> 'a board" where
  "on_state f b \<equiv> b\<lparr>bd_state := f (bd_state b)\<rparr>"

definition set_lane_or_panic ::
  "'a worker \<Rightarrow> LaneState \<Rightarrow> worker_pc \<Rightarrow> 'a board \<Rightarrow> ('a worker \<times> 'a board) option" where
  "set_lane_or_panic w st pc b =
     (case set_lane (w_lane w) st (bd_state b) of
        Some rs \<Rightarrow> Some (w\<lparr>w_pc := pc\<rparr>, b\<lparr>bd_state := rs\<rparr>)
      | None \<Rightarrow> Some (w\<lparr>w_pc := WPanicked False\<rparr>, b))"

definition worker_step ::
  "'a batch_job \<Rightarrow> instant \<Rightarrow> 'a outcome option \<Rightarrow> 'a worker \<Rightarrow> 'a board
    \<Rightarrow> ('a worker \<times> 'a board) option" where
  "worker_step job now out w b =
     (case w_pc w of
        WFetch \<Rightarrow>
          (let work_index = unat (bd_next b); b' = b\<lparr>bd_next := bd_next b + 1\<rparr> in
           if j_count job \<le> work_index then Some (w\<lparr>w_pc := WExit\<rparr>, b')
           else Some (w\<lparr>w_pc := WDequeue, w_index := work_index, w_eid := j_ids job ! work_index\<rparr>, b'))
      | WDequeue \<Rightarrow>
          Some (w\<lparr>w_pc := WAssign\<rparr>, on_state (\<lambda>rs. rs\<lparr>rs_queued := rs_queued rs - 1\<rparr>) b)
      | WAssign \<Rightarrow> Some (w\<lparr>w_pc := WSetRunning, w_assigned_at := now\<rparr>, b)
      | WSetRunning \<Rightarrow> set_lane_or_panic w (LaneRunning (w_eid w)) WIncr b
      | WIncr \<Rightarrow>
          Some (w\<lparr>w_pc := WPeak, w_active := rs_running (bd_state b) + 1\<rparr>,
                on_state (\<lambda>rs. rs\<lparr>rs_running := rs_running rs + 1\<rparr>) b)
      | WPeak \<Rightarrow>
          Some (w\<lparr>w_pc := WQueuedFor\<rparr>,
                on_state (\<lambda>rs. rs\<lparr>rs_peak_active := max (rs_peak_active rs) (w_active w)\<rparr>) b)
      | WQueuedFor \<Rightarrow>
          Some (w\<lparr>w_pc := WPushStarted,
                  w_queued_for := duration_since now (j_queued_at job ! w_index w)\<rparr>, b)
      | WPushStarted \<Rightarrow>
          Some (w\<lparr>w_pc := WTaskStarted\<rparr>,
                on_state (push_event (EvStarted (w_eid w) (w_lane w) (w_queued_for w))) b)
      | WTaskStarted \<Rightarrow>
          Some (w\<lparr>w_pc := WTimer, w_task_started_at := now, w_started := j_wall job now\<rparr>, b)
      | WTimer \<Rightarrow> Some (w\<lparr>w_pc := WTask, w_timer := now\<rparr>, b)
      | WTask \<Rightarrow>
          (case out of None \<Rightarrow> None
           | Some r \<Rightarrow>
               if \<not> j_returns job (w_eid w) (w_lane w) r then None
               else if r = TaskPanic then Some (w\<lparr>w_pc := WPanicked False\<rparr>, b)
               else Some (w\<lparr>w_pc := WElapsed, w_outcome := r\<rparr>, b))
      | WElapsed \<Rightarrow> Some (w\<lparr>w_pc := WClassify, w_duration := duration_since now (w_timer w)\<rparr>, b)
      | WClassify \<Rightarrow>
          if classifier_panics job (w_outcome w) then Some (w\<lparr>w_pc := WPanicked True\<rparr>, b)
          else Some (w\<lparr>w_pc := WBusy, w_result := worker_result job w\<rparr>, b)
      | WBusy \<Rightarrow>
          Some (w\<lparr>w_pc := WCount\<rparr>,
                b\<lparr>bd_sched := (bd_sched b)\<lparr>busy_nanos := busy_nanos (bd_sched b)
                  + nanos_u64 (w_duration w)\<rparr>\<rparr>)
      | WCount \<Rightarrow>
          Some (w\<lparr>w_pc := WPushDone\<rparr>, on_state (count_outcome (success (report (w_result w)))) b)
      | WPushDone \<Rightarrow>
          Some (w\<lparr>w_pc := WDecr\<rparr>, on_state (push_event (final_event (report (w_result w)))) b)
      | WDecr \<Rightarrow>
          Some (w\<lparr>w_pc := WSetFree\<rparr>, on_state (\<lambda>rs. rs\<lparr>rs_running := rs_running rs - 1\<rparr>) b)
      | WSetFree \<Rightarrow> set_lane_or_panic w LaneFree WPushResult b
      | WPushResult \<Rightarrow>
          Some (w\<lparr>w_pc := WFetch\<rparr>, b\<lparr>bd_results := bd_results b @ [w_result w]\<rparr>)
      | WExit \<Rightarrow> None
      | WPanicked _ \<Rightarrow> None)"

subsection \<open>The batch\<close>

record 'a batch =
  bt_board :: "'a board"
  bt_workers :: "'a worker list"
  bt_clock :: instant

text \<open>
  Time passes and other users of the scheduler may take identifiers and account busy time between
  any two steps of the batch: \<open>noise\<close> is the scheduler they leave behind, which has the same
  lanes.
\<close>

inductive batch_step :: "'a batch_job \<Rightarrow> 'a batch \<Rightarrow> 'a batch \<Rightarrow> bool" for job where
  batch_step:
    "bt_clock s \<le> now \<Longrightarrow> i < length (bt_workers s) \<Longrightarrow> sched_lanes noise = sched_lanes (bd_sched (bt_board s)) \<Longrightarrow>
     worker_step job now out (bt_workers s ! i) ((bt_board s)\<lparr>bd_sched := noise\<rparr>) = Some (w, b) \<Longrightarrow>
     batch_step job s \<lparr>bt_board = b, bt_workers = (bt_workers s)[i := w], bt_clock = now\<rparr>"

text \<open>The preamble, up to the thread scope.\<close>

definition batch_job_of ::
  "nat \<Rightarrow> nat list \<Rightarrow> instant list \<Rightarrow> (ExecutionId \<Rightarrow> LaneId \<Rightarrow> 'a outcome \<Rightarrow> bool)
    \<Rightarrow> ('a \<Rightarrow> string option) \<Rightarrow> ('a \<Rightarrow> bool) \<Rightarrow> (instant \<Rightarrow> nat) \<Rightarrow> PitScheduler \<Rightarrow> 'a batch_job" where
  "batch_job_of n gaps queued returns classify panics wall p =
     \<lparr>j_count = n, j_ids = fst (alloc_ids gaps (next_execution_id p)), j_queued_at = queued,
      j_returns = returns, j_classify = classify, j_classify_panics = panics, j_wall = wall\<rparr>"

definition batch_start :: "'a batch_job \<Rightarrow> instant \<Rightarrow> u64 \<Rightarrow> PitScheduler \<Rightarrow> 'a batch" where
  "batch_start job now next_id p =
     \<lparr>bt_board =
        \<lparr>bd_sched = p\<lparr>next_execution_id := next_id\<rparr>,
         bd_state = fold (\<lambda>e. push_event (EvQueued e)) (j_ids job)
           (new_run_state (lane_count p) (of_nat (j_count job))),
         bd_next = 0, bd_results = []\<rparr>,
      bt_workers = map new_worker (sched_lanes p), bt_clock = now\<rparr>"

definition batch_begin ::
  "nat \<Rightarrow> nat list \<Rightarrow> instant list \<Rightarrow> (ExecutionId \<Rightarrow> LaneId \<Rightarrow> 'a outcome \<Rightarrow> bool)
    \<Rightarrow> ('a \<Rightarrow> string option) \<Rightarrow> ('a \<Rightarrow> bool) \<Rightarrow> (instant \<Rightarrow> nat) \<Rightarrow> instant \<Rightarrow> PitScheduler
    \<Rightarrow> string + ('a batch_job \<times> 'a batch)" where
  "batch_begin n gaps queued returns classify panics wall now p =
     (if n = 0 then Inl ''execution count must be greater than zero''
      else
        (let job = batch_job_of n gaps queued returns classify panics wall p in
         Inr (job, batch_start job now (snd (alloc_ids gaps (next_execution_id p))) p)))"

text \<open>\<^verbatim>\<open>run_many_detailed\<close>: the classifier accepts everything.\<close>

definition run_many_detailed ::
  "nat \<Rightarrow> nat list \<Rightarrow> instant list \<Rightarrow> (ExecutionId \<Rightarrow> LaneId \<Rightarrow> 'a outcome \<Rightarrow> bool) \<Rightarrow> (instant \<Rightarrow> nat) \<Rightarrow> instant
    \<Rightarrow> PitScheduler \<Rightarrow> string + ('a batch_job \<times> 'a batch)" where
  "run_many_detailed n gaps queued returns wall now p =
     batch_begin n gaps queued returns (\<lambda>_. None) (\<lambda>_. False) wall now p"

text \<open>
  After the scope has joined the workers. Every worker owns clones of the shared \<^verbatim>\<open>Arc\<close>s
  until its closure ends; when a worker has panicked the scope panics, which is \<open>None\<close>. No
  panic happens under one of the inner locks, so they are never poisoned.
\<close>

fun worker_panicked :: "worker_pc \<Rightarrow> bool" where
  "worker_panicked (WPanicked _) = True"
| "worker_panicked _ = False"

definition batch_finish :: "'a batch \<Rightarrow> (string + 'a SchedulerRun) option" where
  "batch_finish s =
     (if list_ex (\<lambda>w. worker_panicked (w_pc w)) (bt_workers s) then None
      else if list_ex (\<lambda>w. w_pc w \<noteq> WExit) (bt_workers s)
      then Some (Inl ''scheduler workers did not release the result collector'')
      else Some (Inr
        \<lparr>run_results = sort_key (\<lambda>r. execution_id (report r)) (bd_results (bt_board s)),
         run_events = rs_events (bd_state (bt_board s)),
         run_snapshot = run_state_snapshot (bd_state (bt_board s)) (lane_count (bd_sched (bt_board s)))\<rparr>))"

definition run_many :: "'a batch \<Rightarrow> (string + 'a ExecutionResult list) option" where
  "run_many s = map_option (map_sum id run_results) (batch_finish s)"

text \<open>A schedule of a batch, run on the model.\<close>

fun batch_run ::
  "'a batch_job \<Rightarrow> (instant \<times> nat \<times> 'a outcome option) list \<Rightarrow> 'a batch \<Rightarrow> 'a batch option" where
  "batch_run job [] s = Some s"
| "batch_run job ((now, i, out) # acts) s =
     (if bt_clock s \<le> now \<and> i < length (bt_workers s) then
        (case worker_step job now out (bt_workers s ! i) (bt_board s) of
           None \<Rightarrow> None
         | Some (w, b) \<Rightarrow>
             batch_run job acts
               \<lparr>bt_board = b, bt_workers = (bt_workers s)[i := w], bt_clock = now\<rparr>)
      else None)"

lemma batch_run_steps: "batch_run job acts s = Some t \<Longrightarrow> (batch_step job)\<^sup>*\<^sup>* s t"
proof (induction job acts s rule: batch_run.induct)
  case (2 job now i out acts s)
  then obtain w b where
    step: "bt_clock s \<le> now" "i < length (bt_workers s)"
      "worker_step job now out (bt_workers s ! i) (bt_board s) = Some (w, b)"
    and rest: "(batch_step job)\<^sup>*\<^sup>* \<lparr>bt_board = b, bt_workers = (bt_workers s)[i := w], bt_clock = now\<rparr> t"
    by (auto split: if_splits option.splits)
  have "batch_step job s \<lparr>bt_board = b, bt_workers = (bt_workers s)[i := w], bt_clock = now\<rparr>"
    using batch_step.intros [OF step(1,2), of "bd_sched (bt_board s)"] step(3) by simp
  then show ?case using rest by (rule converse_rtranclp_into_rtranclp)
qed simp

end
