(* ===== verification/Sched_Batch_Inv.thy ===== *)
theory Sched_Batch_Inv
  imports Sched_Batch
begin

section \<open>The invariant of a batch run\<close>

text \<open>
  The invariant is a conjunction of parts, each kept by one step of one worker: whose execution is
  whose, the counters, the lane table, the peak, and what each worker, result and event trace says.
\<close>

subsection \<open>Stages\<close>

text \<open>
  How much of the loop body a worker has left; the classes of program counters the invariant
  counts are intervals of stages. A panicked worker stays at the stage it unwound from.
\<close>

fun stage :: "worker_pc \<Rightarrow> nat" where
  "stage WExit = 0"
| "stage WFetch = 1"
| "stage WDequeue = 19"
| "stage WAssign = 18"
| "stage WSetRunning = 17"
| "stage WIncr = 16"
| "stage WPeak = 15"
| "stage WQueuedFor = 14"
| "stage WPushStarted = 13"
| "stage WTaskStarted = 12"
| "stage WTimer = 11"
| "stage WTask = 10"
| "stage WElapsed = 9"
| "stage WClassify = 8"
| "stage WBusy = 7"
| "stage WCount = 6"
| "stage WPushDone = 5"
| "stage WDecr = 4"
| "stage WSetFree = 3"
| "stage WPushResult = 2"
| "stage (WPanicked b) = (if b then 8 else 10)"

abbreviation within :: "nat \<Rightarrow> nat \<Rightarrow> 'a worker \<Rightarrow> bool" where
  "within lo hi w \<equiv> lo \<le> stage (w_pc w) \<and> stage (w_pc w) \<le> hi"

abbreviation holding :: "'a worker \<Rightarrow> bool" where
  "holding w \<equiv> 2 \<le> stage (w_pc w)"

abbreviation rid :: "'a ExecutionResult \<Rightarrow> ExecutionId" where
  "rid r \<equiv> execution_id (report r)"

definition in_range :: "'a worker \<Rightarrow> 'a board \<Rightarrow> bool" where
  "in_range w b \<longleftrightarrow> lane_num (w_lane w) < length (rs_lanes (bd_state b))"

lemma set_lane_in_range [simp]:
  "in_range w b \<Longrightarrow> set_lane_or_panic w st pc b =
    Some (w\<lparr>w_pc := pc\<rparr>, on_state (\<lambda>rs. rs\<lparr>rs_lanes := (rs_lanes rs)[lane_num (w_lane w) := st]\<rparr>) b)"
  by (simp add: in_range_def set_lane_or_panic_def)

lemma worker_step_lane:
  "worker_step job now out w b = Some (w', b') \<Longrightarrow> in_range w b \<Longrightarrow>
    w_lane w' = w_lane w \<and> length (rs_lanes (bd_state b')) = length (rs_lanes (bd_state b))
    \<and> sched_lanes (bd_sched b') = sched_lanes (bd_sched b)"
  unfolding worker_step_def
  by (cases "w_pc w") (auto simp: Let_def push_event_def count_outcome_def split: if_splits option.splits)

lemma worker_step_noise:
  "in_range w b \<Longrightarrow> in_range w (b\<lparr>bd_sched := p\<rparr>)"
  by (simp add: in_range_def)

subsection \<open>Whose execution is whose\<close>

definition taken :: "'a batch_job \<Rightarrow> 'a board \<Rightarrow> nat" where
  "taken job b = min (unat (bd_next b)) (j_count job)"

definition job_ok :: "nat \<Rightarrow> 'a batch_job \<Rightarrow> bool" where
  "job_ok lanes job \<longleftrightarrow>
     0 < j_count job \<and> length (j_ids job) = j_count job \<and> distinct (j_ids job)
     \<and> length (j_queued_at job) = j_count job \<and> j_count job + lanes < 2 ^ 64"

text \<open>The cursor counts what was taken and the workers that found nothing.\<close>

definition cursor_ok :: "'a batch_job \<Rightarrow> 'a board \<Rightarrow> 'a worker list \<Rightarrow> bool" where
  "cursor_ok job b ws \<longleftrightarrow> unat (bd_next b) = taken job b + cnt (\<lambda>w. w_pc w = WExit) ws"

definition apart :: "'a batch_job \<Rightarrow> 'a board \<Rightarrow> 'a worker list \<Rightarrow> bool" where
  "apart job b ws \<longleftrightarrow>
     distinct (map rid (bd_results b))
     \<and> (\<forall>r\<in>set (bd_results b). rid r \<in> set (take (taken job b) (j_ids job)))
     \<and> (\<forall>i<length ws. holding (ws ! i) \<longrightarrow>
          w_index (ws ! i) < taken job b \<and> j_ids job ! w_index (ws ! i) = w_eid (ws ! i)
          \<and> w_eid (ws ! i) \<notin> rid ` set (bd_results b))
     \<and> (\<forall>i<length ws. \<forall>j<length ws. holding (ws ! i) \<longrightarrow> holding (ws ! j) \<longrightarrow>
          w_eid (ws ! i) = w_eid (ws ! j) \<longrightarrow> i = j)
     \<and> cnt holding ws + length (bd_results b) = taken job b"

text \<open>A step that is neither a fetch nor a deposit leaves all of this alone.\<close>

lemma worker_step_quiet:
  "worker_step job now out w b = Some (w', b') \<Longrightarrow> in_range w b \<Longrightarrow>
    w_pc w \<noteq> WFetch \<Longrightarrow> w_pc w \<noteq> WPushResult \<Longrightarrow>
    bd_next b' = bd_next b \<and> bd_results b' = bd_results b \<and> holding w \<and> holding w'
    \<and> w_eid w' = w_eid w \<and> w_index w' = w_index w"
  unfolding worker_step_def
  by (cases "w_pc w") (auto simp: Let_def split: if_splits option.splits)

lemma worker_step_fetch:
  "worker_step job now out w b = Some (w', b') \<Longrightarrow> w_pc w = WFetch \<Longrightarrow>
    bd_next b' = bd_next b + 1 \<and> bd_results b' = bd_results b \<and> bd_state b' = bd_state b
    \<and> w_lane w' = w_lane w
    \<and> (if j_count job \<le> unat (bd_next b) then w_pc w' = WExit
       else w_pc w' = WDequeue \<and> w_index w' = unat (bd_next b)
         \<and> w_eid w' = j_ids job ! unat (bd_next b))"
  unfolding worker_step_def by (auto simp: Let_def split: if_splits)

lemma worker_step_deposit:
  "worker_step job now out w b = Some (w', b') \<Longrightarrow> w_pc w = WPushResult \<Longrightarrow>
    w' = w\<lparr>w_pc := WFetch\<rparr> \<and> b' = b\<lparr>bd_results := bd_results b @ [w_result w]\<rparr>"
  unfolding worker_step_def by auto

lemma cursor_next:
  assumes "job_ok (length ws) job" "cursor_ok job b ws" "i < length ws" "w_pc (ws ! i) \<noteq> WExit"
  shows "unat (bd_next b + 1) = Suc (unat (bd_next b))"
proof -
  have "cnt (\<lambda>w. w_pc w = WExit) ws < length ws"
    using assms(3,4) by (intro cnt_less_length)
  then have "unat (bd_next b) + 1 < 2 ^ 64"
    using assms(1,2) by (auto simp: job_ok_def cursor_ok_def taken_def)
  then show ?thesis by (simp add: unat_word_ariths)
qed

lemma taken_next:
  assumes "unat (bd_next b + 1) = Suc (unat (bd_next b))" and "bd_next b' = bd_next b + 1"
  shows "taken job b' = (if j_count job \<le> unat (bd_next b) then taken job b else Suc (taken job b))"
    and "unat (bd_next b) < j_count job \<Longrightarrow> taken job b = unat (bd_next b)"
  using assms by (auto simp: taken_def)

lemma cursor_ok_step:
  assumes ok: "job_ok (length ws) job" "cursor_ok job b ws" and i: "i < length ws"
    and step: "worker_step job now out (ws ! i) b = Some (w, b')" and range: "in_range (ws ! i) b"
  shows "cursor_ok job b' (ws[i := w])"
proof (cases "w_pc (ws ! i) = WFetch")
  case True
  note fetch = worker_step_fetch [OF step True]
  have next1: "unat (bd_next b + 1) = Suc (unat (bd_next b))"
    using cursor_next [OF ok i] True by simp
  have count: "cnt (\<lambda>w. w_pc w = WExit) (ws[i := w])
      = cnt (\<lambda>w. w_pc w = WExit) ws + of_bool (w_pc w = WExit)"
    using cnt_update [OF i, of "\<lambda>w. w_pc w = WExit" w] True by simp
  show ?thesis
  proof (cases "j_count job \<le> unat (bd_next b)")
    case exit: True
    then show ?thesis
      using ok(2) fetch next1 taken_next(1) [OF next1, of b' job] count
      by (simp add: cursor_ok_def)
  next
    case more: False
    then show ?thesis
      using ok(2) fetch next1 taken_next(1) [OF next1, of b' job] count
      by (simp add: cursor_ok_def)
  qed
next
  case False
  have "bd_next b' = bd_next b \<and> w_pc w \<noteq> WExit \<and> w_pc (ws ! i) \<noteq> WExit"
  proof (cases "w_pc (ws ! i) = WPushResult")
    case True
    then show ?thesis using worker_step_deposit [OF step] by simp
  next
    case not_deposit: False
    then show ?thesis using worker_step_quiet [OF step range False] by auto
  qed
  then show ?thesis
    using ok(2) i by (simp add: cursor_ok_def taken_def cnt_update_same)
qed

lemma apart_held:
  assumes "job_ok lanes job" "apart job b ws" "i < length ws" "holding (ws ! i)"
  shows "w_eid (ws ! i) \<in> set (take (taken job b) (j_ids job))"
    and "w_eid (ws ! i) \<notin> rid ` set (bd_results b)"
proof -
  have "w_index (ws ! i) < taken job b" "j_ids job ! w_index (ws ! i) = w_eid (ws ! i)"
    using assms(2-4) unfolding apart_def by auto
  moreover have "taken job b \<le> length (j_ids job)"
    using assms(1) by (simp add: job_ok_def taken_def)
  ultimately show "w_eid (ws ! i) \<in> set (take (taken job b) (j_ids job))"
    by (auto simp: in_set_conv_nth intro!: exI [of _ "w_index (ws ! i)"])
  show "w_eid (ws ! i) \<notin> rid ` set (bd_results b)"
    using assms(2-4) unfolding apart_def by auto
qed

lemma apart_fetch:
  assumes ok: "job_ok (length ws) job" "cursor_ok job b ws" "apart job b ws" and i: "i < length ws"
    and step: "worker_step job now out (ws ! i) b = Some (w, b')" and WFetch: "w_pc (ws ! i) = WFetch"
  shows "apart job b' (ws[i := w])"
proof -
  note fetch = worker_step_fetch [OF step WFetch]
  have next1: "unat (bd_next b + 1) = Suc (unat (bd_next b))"
    using cursor_next [OF ok(1,2) i] WFetch by simp
  show ?thesis
  proof (cases "j_count job \<le> unat (bd_next b)")
    case True
    then show ?thesis
      using ok(3) fetch taken_next(1) [OF next1, of b' job] WFetch i cnt_update_same [OF i, of holding w]
      unfolding apart_def by (auto simp: nth_list_update)
  next
    case False
    let ?k = "taken job b" and ?ids = "j_ids job"
    have k: "taken job b' = Suc ?k" "?k = unat (bd_next b)" "?k < length ?ids"
      using False fetch taken_next [OF next1, of b' job] ok(1) by (auto simp: job_ok_def)
    then have old: "take (taken job b') ?ids = take ?k ?ids @ [?ids ! ?k]"
      by (simp add: take_Suc_conv_app_nth)
    have fresh: "?ids ! ?k \<notin> set (take ?k ?ids)"
      using ok(1) k(3) by (auto simp: job_ok_def in_set_conv_nth nth_eq_iff_index_eq)
    have new: "w_pc w = WDequeue" "w_index w = ?k" "w_eid w = ?ids ! ?k" "bd_results b' = bd_results b"
      using False fetch k(2) by auto
    have unheld: "w_eid (ws ! j) \<noteq> ?ids ! ?k" if "j < length ws" "holding (ws ! j)" for j
    proof -
      have "w_index (ws ! j) < ?k" "?ids ! w_index (ws ! j) = w_eid (ws ! j)"
        using ok(3) that unfolding apart_def by auto
      moreover have "?ids ! w_index (ws ! j) \<noteq> ?ids ! ?k"
        using ok(1) k(3) calculation(1) by (simp add: job_ok_def nth_eq_iff_index_eq)
      ultimately show ?thesis by simp
    qed
    have unstored: "?ids ! ?k \<notin> rid ` set (bd_results b)"
      using ok(3) fresh unfolding apart_def by auto
    have count: "cnt holding (ws[i := w]) = Suc (cnt holding ws)"
      using WFetch new(1) i by (intro cnt_update_in) simp_all
    show ?thesis
      unfolding apart_def
    proof (intro conjI allI impI)
      fix j assume j: "j < length (ws[i := w])" "holding (ws[i := w] ! j)"
      show "w_index (ws[i := w] ! j) < taken job b'"
        "?ids ! w_index (ws[i := w] ! j) = w_eid (ws[i := w] ! j)"
        "w_eid (ws[i := w] ! j) \<notin> rid ` set (bd_results b')"
        using ok(3) new unstored k(1) j i unfolding apart_def
        by (cases "j = i"; simp add: less_SucI)+
      fix l assume l: "l < length (ws[i := w])" "holding (ws[i := w] ! l)"
        "w_eid (ws[i := w] ! j) = w_eid (ws[i := w] ! l)"
      then show "j = l"
        using ok(3) new unheld [of j] unheld [of l] j i unfolding apart_def
        by (cases "j = i"; cases "l = i") auto
    qed (use ok(3) new k(1) old count in \<open>auto simp: apart_def\<close>)
  qed
qed

lemma apart_deposit:
  assumes ok: "job_ok (length ws) job" "cursor_ok job b ws" "apart job b ws" and i: "i < length ws"
    and step: "worker_step job now out (ws ! i) b = Some (w, b')"
    and WPushResult: "w_pc (ws ! i) = WPushResult" and res: "rid (w_result (ws ! i)) = w_eid (ws ! i)"
  shows "apart job b' (ws[i := w])"
proof -
  have "w = (ws ! i)\<lparr>w_pc := WFetch\<rparr>" "b' = b\<lparr>bd_results := bd_results b @ [w_result (ws ! i)]\<rparr>"
    using worker_step_deposit [OF step WPushResult] by auto
  moreover have "Suc (cnt holding (ws[i := (ws ! i)\<lparr>w_pc := WFetch\<rparr>])) = cnt holding ws"
    using WPushResult i by (intro cnt_update_out) simp_all
  moreover have "rid (w_result (ws ! i)) \<notin> rid ` set (bd_results b)"
    "rid (w_result (ws ! i)) \<in> set (take (taken job b) (j_ids job))"
    using apart_held [OF ok(1,3) i] WPushResult res by auto
  moreover have "w_eid (ws ! j) \<noteq> rid (w_result (ws ! i))"
    if "j < length ws" "holding (ws ! j)" "j \<noteq> i" for j
    using ok(3) i WPushResult res that unfolding apart_def by auto
  ultimately have new: "w = (ws ! i)\<lparr>w_pc := WFetch\<rparr>"
      "bd_results b' = bd_results b @ [w_result (ws ! i)]" "taken job b' = taken job b"
      "Suc (cnt holding (ws[i := w])) = cnt holding ws"
      "rid (w_result (ws ! i)) \<notin> rid ` set (bd_results b)"
      "rid (w_result (ws ! i)) \<in> set (take (taken job b) (j_ids job))"
    and others: "\<And>j. j < length ws \<Longrightarrow> holding (ws ! j) \<Longrightarrow> j \<noteq> i \<Longrightarrow>
      w_eid (ws ! j) \<noteq> rid (w_result (ws ! i))"
    by (simp_all add: taken_def)
  show ?thesis
    unfolding apart_def
  proof (intro conjI allI impI)
    fix j assume j: "j < length (ws[i := w])" "holding (ws[i := w] ! j)"
    then have "j \<noteq> i" using i new(1) by auto
    then show "w_index (ws[i := w] ! j) < taken job b'"
      "j_ids job ! w_index (ws[i := w] ! j) = w_eid (ws[i := w] ! j)"
      "w_eid (ws[i := w] ! j) \<notin> rid ` set (bd_results b')"
      using ok(3) others [of j] new(2,3) j unfolding apart_def by auto
    fix l assume l: "l < length (ws[i := w])" "holding (ws[i := w] ! l)"
      "w_eid (ws[i := w] ! j) = w_eid (ws[i := w] ! l)"
    then show "j = l"
      using ok(3) new(1) j i \<open>j \<noteq> i\<close> unfolding apart_def by (cases "l = i") auto
  qed (use ok(3) new in \<open>auto simp: apart_def\<close>)
qed

lemma apart_quiet:
  assumes ok: "job_ok (length ws) job" "cursor_ok job b ws" "apart job b ws" and i: "i < length ws"
    and step: "worker_step job now out (ws ! i) b = Some (w, b')" and range: "in_range (ws ! i) b"
    and quiet: "w_pc (ws ! i) \<noteq> WFetch" "w_pc (ws ! i) \<noteq> WPushResult"
  shows "apart job b' (ws[i := w])"
proof -
  note same = worker_step_quiet [OF step range quiet]
  have eids: "w_eid (ws[i := w] ! j) = w_eid (ws ! j)" "w_index (ws[i := w] ! j) = w_index (ws ! j)"
    "holding (ws[i := w] ! j) = holding (ws ! j)" for j
    using same i by (cases "j = i"; simp)+
  have "taken job b' = taken job b" "cnt holding (ws[i := w]) = cnt holding ws"
    using same i by (simp_all add: taken_def cnt_update_same)
  then show ?thesis using ok(3) same by (simp add: apart_def eids)
qed

lemma apart_step:
  assumes ok: "job_ok (length ws) job" "cursor_ok job b ws" "apart job b ws" and i: "i < length ws"
    and step: "worker_step job now out (ws ! i) b = Some (w, b')" and range: "in_range (ws ! i) b"
    and res: "w_pc (ws ! i) = WPushResult \<Longrightarrow> rid (w_result (ws ! i)) = w_eid (ws ! i)"
  shows "apart job b' (ws[i := w])"
  using apart_fetch [OF ok i step] apart_deposit [OF ok i step _ res] apart_quiet [OF ok i step range] by blast

subsection \<open>Counters, peak and lanes\<close>

abbreviation succeeded :: "'a worker \<Rightarrow> bool" where
  "succeeded w \<equiv> success (report (w_result w))"

definition board_counters :: "'a batch_job \<Rightarrow> 'a board \<Rightarrow> 'a worker list \<Rightarrow> bool" where
  "board_counters job b ws \<longleftrightarrow>
     rs_queued (bd_state b) = of_nat (j_count job) - of_nat (taken job b) + of_nat (cnt (within 19 19) ws)
     \<and> rs_running (bd_state b) = of_nat (cnt (within 4 15) ws)
     \<and> rs_completed (bd_state b) =
         of_nat (cnt (\<lambda>r. success (report r)) (bd_results b))
         + of_nat (cnt (\<lambda>w. within 2 5 w \<and> succeeded w) ws)
     \<and> rs_failed (bd_state b) =
         of_nat (cnt (\<lambda>r. \<not> success (report r)) (bd_results b))
         + of_nat (cnt (\<lambda>w. within 2 5 w \<and> \<not> succeeded w) ws)"

text \<open>What one step adds to the counters.\<close>

lemma worker_step_counters:
  assumes "worker_step job now out w b = Some (w', b')" "in_range w b"
  shows "rs_queued (bd_state b') = rs_queued (bd_state b) - of_bool (w_pc w = WDequeue)"
    and "rs_running (bd_state b') = rs_running (bd_state b) - of_bool (within 4 15 w) + of_bool (within 4 15 w')"
    and "rs_completed (bd_state b') = rs_completed (bd_state b) + of_bool (w_pc w = WCount \<and> succeeded w)"
    and "rs_failed (bd_state b') = rs_failed (bd_state b) + of_bool (w_pc w = WCount \<and> \<not> succeeded w)"
    and "w_pc w \<noteq> WClassify \<Longrightarrow> w_result w' = w_result w"
    and "within 2 5 w' \<longleftrightarrow> w_pc w = WCount \<or> within 2 5 w \<and> w_pc w \<noteq> WPushResult"
    and "within 19 19 w' \<longleftrightarrow> w_pc w = WFetch \<and> w_pc w' = WDequeue"
    and "within 19 19 w \<longleftrightarrow> w_pc w = WDequeue"
  using assms unfolding worker_step_def
  by (cases "w_pc w"; auto simp: Let_def push_event_def count_outcome_def split: if_splits option.splits)+

lemma outcome_counters_step:
  assumes ok: "board_counters job b ws" and i: "i < length ws"
    and step: "worker_step job now out (ws ! i) b = Some (w, b')" and range: "in_range (ws ! i) b"
  shows "rs_completed (bd_state b') =
         of_nat (cnt (\<lambda>r. success (report r)) (bd_results b'))
         + of_nat (cnt (\<lambda>w. within 2 5 w \<and> succeeded w) (ws[i := w]))
     \<and> rs_failed (bd_state b') =
         of_nat (cnt (\<lambda>r. \<not> success (report r)) (bd_results b'))
         + of_nat (cnt (\<lambda>w. within 2 5 w \<and> \<not> succeeded w) (ws[i := w]))"
proof -
  note delta = worker_step_counters [OF step range] and upd = of_nat_cnt_update [OF i, where 'a = usize]
  show ?thesis
  proof (cases "w_pc (ws ! i) = WPushResult")
    case True
    then show ?thesis
      using ok delta(3,4) worker_step_deposit [OF step True] i
        upd [of "\<lambda>w. within 2 5 w \<and> succeeded w" w] upd [of "\<lambda>w. within 2 5 w \<and> \<not> succeeded w" w]
      by (simp add: board_counters_def)
  next
    case False
    then have res: "bd_results b' = bd_results b"
      using worker_step_quiet [OF step range] worker_step_fetch [OF step] by fastforce
    have "within 2 5 w \<Longrightarrow> w_result w = w_result (ws ! i)"
      using delta(5,6) by (cases "w_pc (ws ! i)") auto
    moreover have "within 2 5 w \<longleftrightarrow> w_pc (ws ! i) = WCount \<or> within 2 5 (ws ! i)"
      using delta(6) False by auto
    moreover have "w_pc (ws ! i) = WCount \<Longrightarrow> \<not> within 2 5 (ws ! i)" by simp
    ultimately show ?thesis
      using ok delta(3,4) res
        upd [of "\<lambda>w. within 2 5 w \<and> succeeded w" w] upd [of "\<lambda>w. within 2 5 w \<and> \<not> succeeded w" w]
      by (cases "w_pc (ws ! i) = WCount"; cases "succeeded (ws ! i)"; cases "within 2 5 (ws ! i)")
        (simp_all add: board_counters_def)
  qed
qed

lemma board_counters_step:
  assumes ok: "job_ok (length ws) job" "cursor_ok job b ws" "board_counters job b ws" and i: "i < length ws"
    and step: "worker_step job now out (ws ! i) b = Some (w, b')" and range: "in_range (ws ! i) b"
  shows "board_counters job b' (ws[i := w])"
proof -
  note delta = worker_step_counters [OF step range] and upd = of_nat_cnt_update [OF i, where 'a = usize]
  have "rs_running (bd_state b') = of_nat (cnt (within 4 15) (ws[i := w]))"
    using ok(3) delta(2) upd [of "within 4 15" w] by (simp add: board_counters_def)
  moreover have "rs_queued (bd_state b') =
      of_nat (j_count job) - of_nat (taken job b') + of_nat (cnt (within 19 19) (ws[i := w]))"
  proof (cases "w_pc (ws ! i) = WFetch")
    case True
    have next1: "unat (bd_next b + 1) = Suc (unat (bd_next b))"
      using cursor_next [OF ok(1,2) i] True by simp
    show ?thesis
      using ok(3) delta(1,7,8) upd [of "within 19 19" w] True worker_step_fetch [OF step True]
        taken_next(1) [OF next1, of b' job]
      by (auto simp: board_counters_def split: if_splits)
  next
    case False
    then have "bd_next b' = bd_next b"
      using worker_step_quiet [OF step range False] worker_step_deposit [OF step] by fastforce
    then show ?thesis
      using ok(3) delta(1,7,8) upd [of "within 19 19" w] False
      by (simp add: board_counters_def taken_def)
  qed
  moreover note outcome_counters_step [OF ok(3) i step range]
  ultimately show ?thesis by (simp add: board_counters_def)
qed

text \<open>The peak is reached by somebody and never exceeds the lanes.\<close>

definition board_peak :: "'a board \<Rightarrow> 'a worker list \<Rightarrow> bool" where
  "board_peak b ws \<longleftrightarrow>
     unat (rs_peak_active (bd_state b)) \<le> length ws
     \<and> (\<forall>i<length ws. w_pc (ws ! i) = WPeak \<longrightarrow>
          1 \<le> unat (w_active (ws ! i)) \<and> unat (w_active (ws ! i)) \<le> length ws)
     \<and> (0 < cnt (within 2 14) ws \<or> bd_results b \<noteq> [] \<longrightarrow> 1 \<le> unat (rs_peak_active (bd_state b)))"

lemma worker_step_peak:
  assumes "worker_step job now out w b = Some (w', b')" "in_range w b"
  shows "rs_peak_active (bd_state b') =
      (if w_pc w = WPeak then max (rs_peak_active (bd_state b)) (w_active w) else rs_peak_active (bd_state b))"
    and "w_pc w' = WPeak \<longleftrightarrow> w_pc w = WIncr"
    and "w_pc w' = WPeak \<Longrightarrow> w_active w' = rs_running (bd_state b')"
    and "within 2 14 w' \<Longrightarrow> w_pc w = WPeak \<or> within 2 14 w"
    and "bd_results b' \<noteq> [] \<Longrightarrow> within 2 14 w \<or> bd_results b \<noteq> []"
  using assms unfolding worker_step_def
  by (cases "w_pc w"; auto simp: Let_def push_event_def count_outcome_def split: if_splits option.splits)+

lemma unat_max: "unat (max (a :: 'a :: len word) b) = max (unat a) (unat b)"
  by (simp add: max_def word_le_nat_alt)

lemma board_peak_step:
  assumes ok: "job_ok (length ws) job" "board_peak b ws" "board_counters job b' (ws[i := w])"
    and i: "i < length ws"
    and step: "worker_step job now out (ws ! i) b = Some (w, b')" and range: "in_range (ws ! i) b"
  shows "board_peak b' (ws[i := w])"
proof -
  note delta = worker_step_peak [OF step range]
  have active: "1 \<le> unat (w_active w) \<and> unat (w_active w) \<le> length ws" if pc: "w_pc w = WPeak"
  proof -
    have "within 4 15 ((ws[i := w]) ! i)" "i < length (ws[i := w])" using pc i by simp_all
    then have "0 < cnt (within 4 15) (ws[i := w])" unfolding cnt_pos_iff by blast
    moreover have "cnt (within 4 15) (ws[i := w]) \<le> length ws"
      using cnt_le_length [of "within 4 15" "ws[i := w]"] by simp
    moreover have "rs_running (bd_state b') = of_nat (cnt (within 4 15) (ws[i := w]))"
      using ok(3) by (simp add: board_counters_def)
    ultimately show ?thesis
      using delta(3) [OF pc] ok(1) by (simp add: unat_of_nat_64 job_ok_def)
  qed
  have old: "1 \<le> unat (rs_peak_active (bd_state b))"
    if "within 2 14 (ws ! j)" "j < length ws" for j
    using ok(2) that cnt_pos_iff [of "within 2 14" ws] by (auto simp: board_peak_def)
  have peak: "1 \<le> unat (rs_peak_active (bd_state b'))"
    if some: "0 < cnt (within 2 14) (ws[i := w]) \<or> bd_results b' \<noteq> []"
  proof (cases "w_pc (ws ! i) = WPeak")
    case True
    then show ?thesis using ok(2) delta(1) i by (auto simp: board_peak_def unat_max)
  next
    case False
    have "1 \<le> unat (rs_peak_active (bd_state b))"
      using some
    proof
      assume "0 < cnt (within 2 14) (ws[i := w])"
      then obtain j where "j < length ws" "within 2 14 (ws[i := w] ! j)"
        by (auto simp: cnt_pos_iff)
      then show ?thesis using old [of j] delta(4) False i by (cases "j = i") auto
    next
      assume "bd_results b' \<noteq> []"
      then show ?thesis using delta(5) old [OF _ i] ok(2) by (auto simp: board_peak_def)
    qed
    then show ?thesis using False delta(1) by simp
  qed
  show ?thesis
    unfolding board_peak_def
  proof (intro conjI allI impI)
    show "unat (rs_peak_active (bd_state b')) \<le> length (ws[i := w])"
      using ok(2) delta(1) i by (auto simp: board_peak_def unat_max)
    fix j assume "j < length (ws[i := w])" "w_pc (ws[i := w] ! j) = WPeak"
    then show "1 \<le> unat (w_active (ws[i := w] ! j))" "unat (w_active (ws[i := w] ! j)) \<le> length (ws[i := w])"
      using ok(2) active i by (cases "j = i"; simp add: board_peak_def)+
  qed (use peak in blast)
qed

text \<open>
  Worker \<open>i\<close> is the only one to touch slot \<open>i\<close> of the lane table, and the slot shows its
  execution while it runs it.
\<close>

definition lane_shown :: "'a worker \<Rightarrow> LaneState" where
  "lane_shown w = (if within 3 16 w then LaneRunning (w_eid w) else LaneFree)"

definition board_lanes :: "'a board \<Rightarrow> 'a worker list \<Rightarrow> bool" where
  "board_lanes b ws \<longleftrightarrow>
     length (sched_lanes (bd_sched b)) = length ws
     \<and> map w_lane ws = map LaneId [0..<length ws]
     \<and> rs_lanes (bd_state b) = map lane_shown ws"

lemma board_lanes_range: "board_lanes b ws \<Longrightarrow> i < length ws \<Longrightarrow> w_lane (ws ! i) = LaneId i \<and> in_range (ws ! i) b"
proof -
  assume ok: "board_lanes b ws" and i: "i < length ws"
  then have "map w_lane ws ! i = map LaneId [0..<length ws] ! i"
    by (simp only: board_lanes_def)
  then show ?thesis using ok i by (simp add: board_lanes_def in_range_def)
qed

lemma map_list_update_same: "i < length xs \<Longrightarrow> f x = f (xs ! i) \<Longrightarrow> (map f xs)[i := f x] = map f xs"
  by (simp add: list_update_same_conv)

lemma worker_step_lane_shown:
  assumes "worker_step job now out w b = Some (w', b')" "in_range w b"
  shows "rs_lanes (bd_state b') = rs_lanes (bd_state b) \<and> lane_shown w' = lane_shown w
    \<or> rs_lanes (bd_state b') = (rs_lanes (bd_state b))[lane_num (w_lane w) := lane_shown w']"
  using assms unfolding worker_step_def
  by (cases "w_pc w")
    (auto simp: Let_def push_event_def count_outcome_def lane_shown_def split: if_splits option.splits)

lemma board_lanes_step:
  assumes ok: "board_lanes b ws" and i: "i < length ws"
    and step: "worker_step job now out (ws ! i) b = Some (w, b')"
  shows "board_lanes b' (ws[i := w])"
proof -
  have l: "w_lane (ws ! i) = LaneId i" and range: "in_range (ws ! i) b"
    using board_lanes_range [OF ok i] by auto
  have "map w_lane (ws[i := w]) = map w_lane ws"
    using worker_step_lane [OF step range] i by (simp add: map_update list_update_same_conv)
  moreover have "rs_lanes (bd_state b') = (rs_lanes (bd_state b))[i := lane_shown w]"
    using worker_step_lane_shown [OF step range] ok i l map_list_update_same [of i ws lane_shown w]
    by (auto simp: board_lanes_def)
  ultimately show ?thesis
    using ok worker_step_lane [OF step range] by (simp add: board_lanes_def map_update)
qed

subsection \<open>What a worker knows\<close>

definition worker_fine :: "'a batch_job \<Rightarrow> instant \<Rightarrow> 'a worker \<Rightarrow> bool" where
  "worker_fine job now w \<longleftrightarrow>
     (let queued = j_queued_at job ! w_index w in
       (within 2 17 w \<longrightarrow> queued \<le> w_assigned_at w \<and> w_assigned_at w \<le> now)
     \<and> (within 2 13 w \<longrightarrow> w_assigned_at w \<le> queued + w_queued_for w \<and> queued + w_queued_for w \<le> now)
     \<and> (within 2 11 w \<longrightarrow> queued + w_queued_for w \<le> w_task_started_at w \<and> w_task_started_at w \<le> now)
     \<and> (within 2 9 w \<longrightarrow> w_outcome w \<noteq> TaskPanic \<and> j_returns job (w_eid w) (w_lane w) (w_outcome w))
     \<and> (within 2 7 w \<longrightarrow> w_result w = worker_result job w))"

lemma worker_fine_later: "worker_fine job earlier w \<Longrightarrow> earlier \<le> now \<Longrightarrow> worker_fine job now w"
  by (auto simp: worker_fine_def Let_def)

lemma worker_fine_step:
  assumes "worker_fine job now w" and "in_range w b"
    and "holding w \<Longrightarrow> j_queued_at job ! w_index w \<le> now"
    and "worker_step job now out w b = Some (w', b')"
  shows "worker_fine job now w'"
  using assms unfolding worker_step_def worker_fine_def Let_def
  by (cases "w_pc w")
    (auto simp: worker_result_def duration_since_def split: if_splits option.splits)

text \<open>What a result says of the execution it reports.\<close>

definition result_fine :: "'a batch_job \<Rightarrow> nat \<Rightarrow> 'a ExecutionResult \<Rightarrow> bool" where
  "result_fine job lanes r \<longleftrightarrow>
     (\<exists>j<j_count job. \<exists>out assigned task_started.
        rid r = j_ids job ! j \<and> lane_num (lane_id (report r)) < lanes
        \<and> out \<noteq> TaskPanic \<and> j_returns job (rid r) (lane_id (report r)) out
        \<and> (success (report r), rep_error (report r), result_value r) = classified (j_classify job) out
        \<and> j_queued_at job ! j \<le> assigned
        \<and> assigned \<le> j_queued_at job ! j + queued_for (report r)
        \<and> j_queued_at job ! j + queued_for (report r) \<le> task_started
        \<and> task_started = assigned + scheduling_gap (report r))"

lemma worker_result_fine:
  assumes "worker_fine job now w" and "w_pc w = WPushResult"
    and "w_index w < j_count job" "j_ids job ! w_index w = w_eid w" "lane_num (w_lane w) < lanes"
  shows "result_fine job lanes (w_result w)"
proof -
  have "rid (w_result w) = j_ids job ! w_index w
    \<and> lane_num (lane_id (report (w_result w))) < lanes \<and> w_outcome w \<noteq> TaskPanic
    \<and> j_returns job (rid (w_result w)) (lane_id (report (w_result w))) (w_outcome w)
    \<and> (success (report (w_result w)), rep_error (report (w_result w)), result_value (w_result w))
        = classified (j_classify job) (w_outcome w)
    \<and> j_queued_at job ! w_index w \<le> w_assigned_at w
    \<and> w_assigned_at w \<le> j_queued_at job ! w_index w + queued_for (report (w_result w))
    \<and> j_queued_at job ! w_index w + queued_for (report (w_result w)) \<le> w_task_started_at w
    \<and> w_task_started_at w = w_assigned_at w + scheduling_gap (report (w_result w))"
    using assms
    by (cases "classified (j_classify job) (w_outcome w)")
      (simp add: worker_fine_def Let_def worker_result_def duration_since_def)
  then show ?thesis unfolding result_fine_def using assms(3) by blast
qed

subsection \<open>Event traces\<close>

definition trace :: "ExecutionId \<Rightarrow> ExecutionEvent list \<Rightarrow> ExecutionEvent list" where
  "trace e evs = filter (\<lambda>ev. event_id ev = e) evs"

lemma trace_simps [simp]:
  "trace e [] = []" "trace e (evs @ evs') = trace e evs @ trace e evs'"
  "trace e [ev] = (if event_id ev = e then [ev] else [])"
  by (simp_all add: trace_def)

lemma event_id_final [simp]: "event_id (final_event r) = execution_id r"
  by (simp add: final_event_def)

definition lifecycle :: "ExecutionReport \<Rightarrow> ExecutionEvent list" where
  "lifecycle r =
     [EvQueued (execution_id r), EvStarted (execution_id r) (lane_id r) (queued_for r), final_event r]"

definition worker_trace :: "'a worker \<Rightarrow> ExecutionEvent list" where
  "worker_trace w =
     EvQueued (w_eid w)
     # (if stage (w_pc w) \<le> 12 then [EvStarted (w_eid w) (w_lane w) (w_queued_for w)] else [])
     @ (if stage (w_pc w) \<le> 4 then [final_event (report (w_result w))] else [])"

definition board_traces :: "'a batch_job \<Rightarrow> 'a board \<Rightarrow> 'a worker list \<Rightarrow> bool" where
  "board_traces job b ws \<longleftrightarrow>
     (\<forall>i<length ws. holding (ws ! i) \<longrightarrow>
        trace (w_eid (ws ! i)) (rs_events (bd_state b)) = worker_trace (ws ! i))
     \<and> (\<forall>r\<in>set (bd_results b). trace (rid r) (rs_events (bd_state b)) = lifecycle (report r))
     \<and> (\<forall>j. taken job b \<le> j \<longrightarrow> j < j_count job \<longrightarrow>
          trace (j_ids job ! j) (rs_events (bd_state b)) = [EvQueued (j_ids job ! j)])
     \<and> event_id ` set (rs_events (bd_state b)) \<subseteq> set (j_ids job)"

lemma worker_step_events:
  assumes "worker_step job now out w b = Some (w', b')" "in_range w b"
    and "within 2 7 w \<longrightarrow> rid (w_result w) = w_eid w"
  obtains (silent) "rs_events (bd_state b') = rs_events (bd_state b)"
      "holding w \<Longrightarrow> holding w' \<Longrightarrow> worker_trace w' = worker_trace w"
  | (event) ev where "rs_events (bd_state b') = rs_events (bd_state b) @ [ev]" "event_id ev = w_eid w"
      "holding w" "holding w'" "w_eid w' = w_eid w" "worker_trace w' = worker_trace w @ [ev]"
      "bd_results b' = bd_results b" "bd_next b' = bd_next b"
  using assms unfolding worker_step_def
  by (cases "w_pc w")
    (auto simp: Let_def push_event_def count_outcome_def worker_trace_def split: if_splits option.splits)

lemma deposit_lifecycle:
  "worker_fine job now w \<Longrightarrow> w_pc w = WPushResult \<Longrightarrow>
    worker_trace w = lifecycle (report (w_result w)) \<and> rid (w_result w) = w_eid w"
  by (cases "classified (j_classify job) (w_outcome w)")
    (simp add: worker_fine_def Let_def worker_trace_def lifecycle_def worker_result_def)

lemma board_traces_event:
  assumes ok: "job_ok (length ws) job" "cursor_ok job b ws" "apart job b ws" "board_traces job b ws" and i: "i < length ws"
    and event: "rs_events (bd_state b') = rs_events (bd_state b) @ [ev]" "event_id ev = w_eid (ws ! i)"
      "holding (ws ! i)" "holding w" "w_eid w = w_eid (ws ! i)" "worker_trace w = worker_trace (ws ! i) @ [ev]"
      "bd_results b' = bd_results b" "bd_next b' = bd_next b"
  shows "board_traces job b' (ws[i := w])"
proof -
    let ?e = "w_eid (ws ! i)"
    have others: "w_eid (ws ! j) \<noteq> ?e" if "j < length ws" "holding (ws ! j)" "j \<noteq> i" for j
      using ok(3) that i event(3) unfolding apart_def by blast
    have results: "rid r \<noteq> ?e" if "r \<in> set (bd_results b)" for r
      using apart_held(2) [OF ok(1,3) i event(3)] that by force
    have "?e \<in> set (take (taken job b) (j_ids job))"
      using apart_held(1) [OF ok(1,3) i event(3)] .
    then obtain k where k: "k < taken job b" "?e = j_ids job ! k" "k < length (j_ids job)"
      by (auto simp: in_set_conv_nth)
    then have unfetched: "j_ids job ! j \<noteq> ?e" if "taken job b \<le> j" "j < j_count job" for j
      using that ok(1) by (auto simp: job_ok_def nth_eq_iff_index_eq)
    have taken: "taken job b' = taken job b" using event(8) by (simp add: taken_def)
    show ?thesis
      unfolding board_traces_def
    proof (intro conjI allI impI ballI)
      fix j assume j: "j < length (ws[i := w])" "holding (ws[i := w] ! j)"
      show "trace (w_eid (ws[i := w] ! j)) (rs_events (bd_state b')) = worker_trace (ws[i := w] ! j)"
        using ok(4) event others [of j] j i unfolding board_traces_def by (cases "j = i") auto
    next
      show "event_id ` set (rs_events (bd_state b')) \<subseteq> set (j_ids job)"
        using ok(4) event(1,2) k by (auto simp: board_traces_def)
    next
      fix r assume "r \<in> set (bd_results b')"
      then show "trace (rid r) (rs_events (bd_state b')) = lifecycle (report r)"
        using ok(4) event(1,2,7) results [of r] by (simp add: board_traces_def)
    next
      fix j assume "taken job b' \<le> j" "j < j_count job"
      then show "trace (j_ids job ! j) (rs_events (bd_state b')) = [EvQueued (j_ids job ! j)]"
        using ok(4) event(1,2) unfetched [of j] taken by (simp add: board_traces_def)
    qed
qed

text \<open>A step without an event: what its worker holds, the results and the cursor still agree with the events.\<close>

lemma silent_parts:
  assumes ok: "job_ok (length ws) job" "cursor_ok job b ws" "apart job b ws" "board_traces job b ws"
    and fine: "worker_fine job now (ws ! i)" and i: "i < length ws"
    and step: "worker_step job now out (ws ! i) b = Some (w, b')" and range: "in_range (ws ! i) b"
    and silent: "holding (ws ! i) \<Longrightarrow> holding w \<Longrightarrow> worker_trace w = worker_trace (ws ! i)"
  shows "holding w \<Longrightarrow> trace (w_eid w) (rs_events (bd_state b)) = worker_trace w"
    and "r \<in> set (bd_results b') \<Longrightarrow> trace (rid r) (rs_events (bd_state b)) = lifecycle (report r)"
    and "taken job b \<le> taken job b'"
proof -
  let ?old = "rs_events (bd_state b)"
  have held: "trace (w_eid (ws ! i)) ?old = worker_trace (ws ! i)" if "holding (ws ! i)"
    using ok(4) i that by (simp add: board_traces_def)
  have stored: "trace (rid r) ?old = lifecycle (report r)" if "r \<in> set (bd_results b)" for r
    using ok(4) that by (simp add: board_traces_def)
  have unfetched: "trace (j_ids job ! j) ?old = [EvQueued (j_ids job ! j)]" if "taken job b \<le> j" "j < j_count job" for j
    using ok(4) that by (simp add: board_traces_def)
  consider (fetch) "w_pc (ws ! i) = WFetch" | (deposit) "w_pc (ws ! i) = WPushResult"
    | (quiet) "w_pc (ws ! i) \<noteq> WFetch" "w_pc (ws ! i) \<noteq> WPushResult"
    by blast
  then have "(holding w \<longrightarrow> trace (w_eid w) ?old = worker_trace w)
    \<and> (\<forall>r\<in>set (bd_results b'). trace (rid r) ?old = lifecycle (report r)) \<and> taken job b \<le> taken job b'"
  proof cases
    case fetch
    have next1: "unat (bd_next b + 1) = Suc (unat (bd_next b))" using cursor_next [OF ok(1,2) i] fetch by simp
    show ?thesis
      using worker_step_fetch [OF step fetch] taken_next [OF next1, of b' job] unfetched stored
      by (auto simp: worker_trace_def split: if_splits)
  next
    case deposit
    have "trace (rid (w_result (ws ! i))) ?old = lifecycle (report (w_result (ws ! i)))"
      using held deposit_lifecycle [OF fine deposit] deposit by simp
    then show ?thesis using worker_step_deposit [OF step deposit] stored by (auto simp: taken_def)
  next
    case quiet
    show ?thesis using worker_step_quiet [OF step range quiet] silent held stored by (simp add: taken_def)
  qed
  then show "holding w \<Longrightarrow> trace (w_eid w) ?old = worker_trace w"
    "r \<in> set (bd_results b') \<Longrightarrow> trace (rid r) ?old = lifecycle (report r)" "taken job b \<le> taken job b'"
    by auto
qed

lemma board_traces_silent:
  assumes ok: "job_ok (length ws) job" "cursor_ok job b ws" "apart job b ws" "board_traces job b ws" and i: "i < length ws"
    and fine: "worker_fine job now (ws ! i)"
    and step: "worker_step job now out (ws ! i) b = Some (w, b')" and range: "in_range (ws ! i) b"
    and silent: "rs_events (bd_state b') = rs_events (bd_state b)"
      "holding (ws ! i) \<Longrightarrow> holding w \<Longrightarrow> worker_trace w = worker_trace (ws ! i)"
  shows "board_traces job b' (ws[i := w])"
proof -
    let ?old = "rs_events (bd_state b)"
    have held: "trace (w_eid (ws ! j)) ?old = worker_trace (ws ! j)"
      if "j < length ws" "holding (ws ! j)" for j
      using ok(4) that by (simp add: board_traces_def)
    have unfetched: "trace (j_ids job ! j) ?old = [EvQueued (j_ids job ! j)]"
      if "taken job b \<le> j" "j < j_count job" for j
      using ok(4) that by (simp add: board_traces_def)
    note parts = silent_parts [OF ok fine i step range silent(2)]
    show ?thesis
      unfolding board_traces_def silent(1)
    proof (intro conjI allI impI ballI)
      fix j assume "j < length (ws[i := w])" "holding (ws[i := w] ! j)"
      then show "trace (w_eid (ws[i := w] ! j)) ?old = worker_trace (ws[i := w] ! j)"
        using parts(1) held [of j] i by (cases "j = i") auto
    qed (use ok(4) parts(2,3) unfetched in \<open>auto simp: board_traces_def\<close>)
qed

lemma board_traces_step:
  assumes ok: "job_ok (length ws) job" "cursor_ok job b ws" "apart job b ws" "board_traces job b ws"
    and fine: "worker_fine job now (ws ! i)" and i: "i < length ws"
    and step: "worker_step job now out (ws ! i) b = Some (w, b')" and range: "in_range (ws ! i) b"
  shows "board_traces job b' (ws[i := w])"
proof -
  have "within 2 7 (ws ! i) \<longrightarrow> rid (w_result (ws ! i)) = w_eid (ws ! i)"
    using fine by (cases "classified (j_classify job) (w_outcome (ws ! i))")
      (simp add: worker_fine_def Let_def worker_result_def)
  from step range this show ?thesis
  proof (cases rule: worker_step_events)
    case (event ev)
    then show ?thesis by (rule board_traces_event [OF ok i])
  next
    case silent
    then show ?thesis by (rule board_traces_silent [OF ok i fine step range])
  qed
qed

subsection \<open>Everything together\<close>

definition batch_inv :: "'a batch_job \<Rightarrow> nat \<Rightarrow> 'a batch \<Rightarrow> bool" where
  "batch_inv job lanes s \<longleftrightarrow>
     job_ok lanes job \<and> length (bt_workers s) = lanes \<and> 0 < lanes
     \<and> cursor_ok job (bt_board s) (bt_workers s)
     \<and> apart job (bt_board s) (bt_workers s)
     \<and> board_counters job (bt_board s) (bt_workers s)
     \<and> board_peak (bt_board s) (bt_workers s)
     \<and> board_lanes (bt_board s) (bt_workers s)
     \<and> board_traces job (bt_board s) (bt_workers s)
     \<and> (\<forall>w\<in>set (bt_workers s). worker_fine job (bt_clock s) w)
     \<and> (\<forall>r\<in>set (bd_results (bt_board s)). result_fine job lanes r)
     \<and> (\<forall>q\<in>set (j_queued_at job). q \<le> bt_clock s)"

lemma parts_noise:
  "cursor_ok job (b\<lparr>bd_sched := p\<rparr>) ws = cursor_ok job b ws"
  "apart job (b\<lparr>bd_sched := p\<rparr>) ws = apart job b ws"
  "board_counters job (b\<lparr>bd_sched := p\<rparr>) ws = board_counters job b ws"
  "board_peak (b\<lparr>bd_sched := p\<rparr>) ws = board_peak b ws"
  "board_traces job (b\<lparr>bd_sched := p\<rparr>) ws = board_traces job b ws"
  "sched_lanes p = sched_lanes (bd_sched b) \<Longrightarrow> board_lanes (b\<lparr>bd_sched := p\<rparr>) ws = board_lanes b ws"
  by (simp_all add: cursor_ok_def apart_def board_counters_def board_peak_def board_traces_def
    board_lanes_def taken_def)

lemma results_fine_step:
  assumes old: "\<And>r. r \<in> set (bd_results b) \<Longrightarrow> result_fine job lanes r"
    and run: "worker_step job now out v b = Some (w, b')" and range: "in_range v b"
    and own: "w_pc v = WPushResult \<Longrightarrow> result_fine job lanes (w_result v)" and r: "r \<in> set (bd_results b')"
  shows "result_fine job lanes r"
proof (cases "w_pc v = WPushResult")
  case True
  then show ?thesis using worker_step_deposit [OF run True] old own r by auto
next
  case False
  then have "bd_results b' = bd_results b"
    using worker_step_quiet [OF run range] worker_step_fetch [OF run] by fastforce
  then show ?thesis using old r by simp
qed

lemma batch_inv_step:
  assumes inv: "batch_inv job lanes s" and step: "batch_step job s t"
  shows "batch_inv job lanes t"
  using step
proof cases
  case (batch_step now i noise out w b)
  let ?ws = "bt_workers s" and ?b = "(bt_board s)\<lparr>bd_sched := noise\<rparr>"
  have parts: "job_ok (length ?ws) job" "cursor_ok job ?b ?ws" "apart job ?b ?ws"
    "board_counters job ?b ?ws" "board_peak ?b ?ws" "board_lanes ?b ?ws" "board_traces job ?b ?ws"
    using inv batch_step(4) by (simp_all add: batch_inv_def parts_noise)
  note i = batch_step(3) and run = batch_step(5)
  have lane: "w_lane (?ws ! i) = LaneId i" and range: "in_range (?ws ! i) ?b"
    using board_lanes_range [OF parts(6) i] by auto
  have fine: "worker_fine job now v" if "v \<in> set ?ws" for v
    using inv that batch_step(2) by (auto simp: batch_inv_def intro: worker_fine_later)
  have index: "w_index (?ws ! i) < j_count job" "j_ids job ! w_index (?ws ! i) = w_eid (?ws ! i)"
    if "holding (?ws ! i)"
    using parts(3) i that by (auto simp: apart_def taken_def)
  have queued: "q \<le> now" if "q \<in> set (j_queued_at job)" for q
    using inv that batch_step(2) by (auto simp: batch_inv_def)
  have counters: "board_counters job b (?ws[i := w])"
    by (rule board_counters_step [OF parts(1,2,4) i run range])
  have own: "worker_fine job now w"
  proof (rule worker_fine_step [OF fine range _ run])
    show "?ws ! i \<in> set ?ws" using i by simp
    show "j_queued_at job ! w_index (?ws ! i) \<le> now" if "holding (?ws ! i)"
      using queued index(1) [OF that] parts(1) by (simp add: job_ok_def)
  qed
  have res: "result_fine job lanes r" if "r \<in> set (bd_results b)" for r
    using inv index lane fine [of "?ws ! i"] i
    by (intro results_fine_step [OF _ run range _ that]) (auto simp: batch_inv_def intro: worker_result_fine)
  have "rid (w_result (?ws ! i)) = w_eid (?ws ! i)" if "w_pc (?ws ! i) = WPushResult"
    using deposit_lifecycle [OF fine that] i by simp
  then have "apart job b (?ws[i := w])"
    by (rule apart_step [OF parts(1,2,3) i run range])
  moreover have "cursor_ok job b (?ws[i := w])"
    by (rule cursor_ok_step [OF parts(1,2) i run range])
  moreover have "board_peak b (?ws[i := w])"
    by (rule board_peak_step [OF parts(1,5) counters i run range])
  moreover have "board_lanes b (?ws[i := w])"
    by (rule board_lanes_step [OF parts(6) i run])
  moreover have "board_traces job b (?ws[i := w])"
    using fine i by (intro board_traces_step [OF parts(1,2,3,7) _ i run range]) simp
  moreover have "\<forall>v\<in>set (?ws[i := w]). worker_fine job now v"
    using fine own set_update_subset_insert [of ?ws i w] by blast
  ultimately show ?thesis
    using inv batch_step(1) counters res queued by (simp add: batch_inv_def)
qed

text \<open>The start of a batch.\<close>

lemma fold_push_queued:
  "fold (\<lambda>e. push_event (EvQueued e)) ids rs = rs\<lparr>rs_events := rs_events rs @ map EvQueued ids\<rparr>"
  by (induction ids arbitrary: rs) (simp_all add: push_event_def)

lemma trace_queued: "distinct ids \<Longrightarrow> j < length ids \<Longrightarrow> trace (ids ! j) (map EvQueued ids) = [EvQueued (ids ! j)]"
proof (induction ids arbitrary: j)
  case (Cons e ids)
  have none: "trace e (map EvQueued ids) = []" using Cons.prems by (auto simp: trace_def filter_empty_conv)
  show ?case
  proof (cases j)
    case 0
    then show ?thesis using none by (simp add: trace_def)
  next
    case (Suc k)
    then have "ids ! k \<noteq> e" using Cons.prems by auto
    then show ?thesis using Cons Suc by (simp add: trace_def)
  qed
qed simp

lemma batch_inv_start:
  assumes job: "job_ok lanes job" and lanes: "0 < lanes" "sched_lanes p = map (\<lambda>i. \<lparr>lane_id_of = LaneId i\<rparr>) [0..<lanes]"
    and queued: "\<forall>q\<in>set (j_queued_at job). q \<le> now"
  shows "batch_inv job lanes (batch_start job now next_id p)"
proof -
  let ?s = "batch_start job now next_id p"
  have ws: "bt_workers ?s = map new_worker (sched_lanes p)" "length (bt_workers ?s) = lanes"
    and b: "bd_next (bt_board ?s) = 0" "bd_results (bt_board ?s) = []"
      "rs_events (bd_state (bt_board ?s)) = map EvQueued (j_ids job)"
      "bd_state (bt_board ?s) = (new_run_state lanes (of_nat (j_count job)))\<lparr>rs_events := map EvQueued (j_ids job)\<rparr>"
      "sched_lanes (bd_sched (bt_board ?s)) = sched_lanes p"
    using lanes by (simp_all add: batch_start_def fold_push_queued new_run_state_def lane_count_def)
  have pcs: "w_pc w = WFetch" if "w \<in> set (bt_workers ?s)" for w
    using that ws(1) by (auto simp: new_worker_def)
  have none: "cnt P (bt_workers ?s) = 0" if "\<And>w. w_pc w = WFetch \<Longrightarrow> \<not> P w" for P
    using pcs that by (auto simp: cnt_0_iff)
  have taken: "taken job (bt_board ?s) = 0" by (simp add: taken_def b)
  have idle: "\<not> holding (bt_workers ?s ! i)" "w_pc (bt_workers ?s ! i) = WFetch"
    if "i < length (bt_workers ?s)" for i
    using pcs [of "bt_workers ?s ! i"] that by simp_all
  have "board_lanes (bt_board ?s) (bt_workers ?s)"
    using lanes b ws by (simp add: board_lanes_def new_run_state_def new_worker_def lane_shown_def comp_def)
  moreover have "board_traces job (bt_board ?s) (bt_workers ?s)"
    using idle b job trace_queued by (auto simp: board_traces_def job_ok_def)
  moreover have "cursor_ok job (bt_board ?s) (bt_workers ?s)"
    using none [of "\<lambda>w. w_pc w = WExit"] by (simp add: cursor_ok_def taken b)
  moreover have "apart job (bt_board ?s) (bt_workers ?s)"
    using idle none [of holding] by (simp add: apart_def taken b)
  moreover have "board_counters job (bt_board ?s) (bt_workers ?s)"
    using none [of "within 19 19"] none [of "within 4 15"] none [of "\<lambda>w. within 2 5 w \<and> succeeded w"]
      none [of "\<lambda>w. within 2 5 w \<and> \<not> succeeded w"]
    by (simp add: board_counters_def taken b new_run_state_def)
  moreover have "board_peak (bt_board ?s) (bt_workers ?s)"
    using none [of "within 2 14"] idle by (simp add: board_peak_def b new_run_state_def)
  moreover have "\<forall>w\<in>set (bt_workers ?s). worker_fine job (bt_clock ?s) w"
    using pcs by (auto simp: worker_fine_def)
  ultimately show ?thesis
    using assms ws b by (simp add: batch_inv_def batch_start_def)
qed

end
