(* ===== verification/Sched_Batch_Live.thy ===== *)
theory Sched_Batch_Live
  imports Sched_Batch_Inv
begin

section \<open>Batches: reachability, termination, completion\<close>

text \<open>
  The order of the identifiers, rank and progress of a batch, its completion when all workers have
  left their loops, and the absence of panics when no task and no classifier panics.
\<close>

subsection \<open>Identifiers\<close>

lemma alloc_ids_sorted:
  assumes "unat n + sum_list gaps + length gaps \<le> 2 ^ 64"
  shows "length (fst (alloc_ids gaps n)) = length gaps
    \<and> sorted_wrt (<) (fst (alloc_ids gaps n))
    \<and> (\<forall>e\<in>set (fst (alloc_ids gaps n)). n \<le> eid_num e)"
  using assms
proof (induction gaps n rule: alloc_ids.induct)
  case (2 g gs n)
  let ?m = "n + of_nat g + 1" and ?e = "n + of_nat g"
  have e: "unat ?e = unat n + g"
    using 2(2) by (simp add: unat_word_ariths unat_of_nat_64 take_bit_eq_mod)
  show ?case
  proof (cases gs)
    case Nil
    then show ?thesis using e by (simp add: word_le_nat_alt)
  next
    case (Cons h hs)
    then have "unat ?m = unat n + g + 1"
      using 2(2) e by (simp add: unat_word_ariths)
    moreover from this have IH: "length (fst (alloc_ids gs ?m)) = length gs
        \<and> sorted_wrt (<) (fst (alloc_ids gs ?m)) \<and> (\<forall>e\<in>set (fst (alloc_ids gs ?m)). ?m \<le> eid_num e)"
      using 2 by simp
    ultimately have "\<forall>f\<in>set (fst (alloc_ids gs ?m)). ExecutionId ?e < f \<and> n \<le> eid_num f"
      using e by (fastforce simp: less_ExecutionId_def word_less_nat_alt word_le_nat_alt)
    then show ?thesis
      using IH e by (cases "alloc_ids gs ?m") (simp add: word_le_nat_alt)
  qed
qed simp

lemma strictly_sorted: "sorted_wrt (<) (xs :: ExecutionId list) \<Longrightarrow> sorted xs \<and> distinct xs"
  by (simp add: strict_sorted_iff)

subsection \<open>Runs of a batch\<close>

text \<open>
  A batch on a scheduler with the given lanes, begun at \<open>now\<close>: the numbers fit the machine
  words and the identifiers do not wrap around within the batch.
\<close>

definition batch_begun :: "nat \<Rightarrow> 'a batch_job \<Rightarrow> 'a batch \<Rightarrow> bool" where
  "batch_begun lanes job s \<longleftrightarrow>
     (\<exists>n gaps queued returns classify panics wall now p.
        batch_begin n gaps queued returns classify panics wall now p = Inr (job, s)
        \<and> length gaps = n \<and> length queued = n \<and> (\<forall>q\<in>set queued. q \<le> now)
        \<and> 0 < lanes \<and> sched_lanes p = sched_lanes (scheduler_with_lanes lanes now)
        \<and> n + lanes < 2 ^ 64
        \<and> unat (next_execution_id p) + sum_list gaps + n \<le> 2 ^ 64)"

definition batch_reachable :: "nat \<Rightarrow> 'a batch_job \<Rightarrow> 'a batch \<Rightarrow> bool" where
  "batch_reachable lanes job s \<longleftrightarrow>
     (\<exists>s0. batch_begun lanes job s0 \<and> (batch_step job)\<^sup>*\<^sup>* s0 s)"

lemma batch_begun_ids:
  assumes "batch_begun lanes job s"
  shows "sorted_wrt (<) (j_ids job)" and "batch_inv job lanes s"
proof -
  from assms obtain n gaps queued returns classify panics wall now p where
    begun: "batch_begin n gaps queued returns classify panics wall now p = Inr (job, s)"
    and g: "length gaps = n" "length queued = n" "\<forall>q\<in>set queued. q \<le> now" "0 < lanes"
      "sched_lanes p = sched_lanes (scheduler_with_lanes lanes now)" "n + lanes < 2 ^ 64"
      "unat (next_execution_id p) + sum_list gaps + n \<le> 2 ^ 64"
    unfolding batch_begun_def by blast
  have job: "job = batch_job_of n gaps queued returns classify panics wall p" "0 < n"
    and s: "s = batch_start job now (snd (alloc_ids gaps (next_execution_id p))) p"
    using begun by (auto simp: batch_begin_def Let_def split: if_splits)
  have ids: "length (j_ids job) = n" "sorted_wrt (<) (j_ids job)"
    using alloc_ids_sorted [of "next_execution_id p" gaps] g(1,7) job(1) by (simp_all add: batch_job_of_def)
  then show "sorted_wrt (<) (j_ids job)" by simp
  have "job_ok lanes job"
    using ids strictly_sorted [OF ids(2)] g(2,6) job by (simp add: job_ok_def batch_job_of_def)
  then show "batch_inv job lanes s"
    unfolding s using g(3-5) job
    by (intro batch_inv_start) (simp_all add: batch_job_of_def scheduler_with_lanes_def)
qed

text \<open>Every task ends, and a worker then has a step unless it has ended.\<close>

definition job_returns :: "'a batch_job \<Rightarrow> bool" where
  "job_returns job \<longleftrightarrow> (\<forall>e l. \<exists>out. j_returns job e l out)"

definition worker_ended :: "'a worker \<Rightarrow> bool" where
  "worker_ended w \<longleftrightarrow> w_pc w = WExit \<or> worker_panicked (w_pc w)"

definition steps_left :: "'a worker \<Rightarrow> nat" where
  "steps_left w = (if worker_ended w then 0 else stage (w_pc w))"

definition batch_rank :: "'a batch_job \<Rightarrow> 'a batch \<Rightarrow> nat" where
  "batch_rank job s =
     20 * (j_count job - taken job (bt_board s)) + sum_list (map steps_left (bt_workers s))"

definition all_ended :: "'a batch \<Rightarrow> bool" where
  "all_ended s \<longleftrightarrow> list_all worker_ended (bt_workers s)"

lemma worker_step_less:
  "worker_step job now out w b = Some (w', b') \<Longrightarrow> in_range w b \<Longrightarrow> w_pc w \<noteq> WFetch \<Longrightarrow>
    steps_left w' < steps_left w"
  unfolding worker_step_def
  by (cases "w_pc w") (auto simp: Let_def steps_left_def worker_ended_def split: if_splits option.splits)

lemma worker_step_enabled:
  "job_returns job \<Longrightarrow> \<not> worker_ended w \<Longrightarrow> in_range w b \<Longrightarrow> \<exists>out r. worker_step job now out w b = Some r"
proof -
  assume tasks: "job_returns job" and w: "\<not> worker_ended w" "in_range w b"
  then obtain out where "j_returns job (w_eid w) (w_lane w) out" unfolding job_returns_def by blast
  then have "\<exists>r. worker_step job now (Some out) w b = Some r"
    using w unfolding worker_step_def by (cases "w_pc w") (auto simp: Let_def worker_ended_def)
  then show ?thesis by blast
qed

lemma batch_rank_step:
  assumes inv: "batch_inv job lanes s" and step: "batch_step job s t"
  shows "batch_rank job t < batch_rank job s"
  using step
proof cases
  case (batch_step now i noise out w b)
  let ?ws = "bt_workers s" and ?b = "(bt_board s)\<lparr>bd_sched := noise\<rparr>"
  have parts: "job_ok (length ?ws) job" "cursor_ok job ?b ?ws" "board_lanes ?b ?ws"
    using inv batch_step(4) by (simp_all add: batch_inv_def parts_noise)
  have range: "in_range (?ws ! i) ?b" using board_lanes_range [OF parts(3) batch_step(3)] by simp
  have sum: "sum_list (map steps_left (?ws[i := w])) + steps_left (?ws ! i)
      = sum_list (map steps_left ?ws) + steps_left w"
    by (rule sum_list_update_weight [OF batch_step(3)])
  have old: "taken job ?b = taken job (bt_board s)" by (simp add: taken_def)
  show ?thesis
  proof (cases "w_pc (?ws ! i) = WFetch")
    case True
    have next1: "unat (bd_next ?b + 1) = Suc (unat (bd_next ?b))"
      using cursor_next [OF parts(1,2) batch_step(3)] True by simp
    show ?thesis
      using worker_step_fetch [OF batch_step(5) True] taken_next [OF next1, of b job] sum True old
      by (auto simp: batch_rank_def batch_step(1) steps_left_def worker_ended_def split: if_splits)
  next
    case False
    then have "bd_next b = bd_next ?b"
      using worker_step_quiet [OF batch_step(5) range] worker_step_deposit [OF batch_step(5)] by fastforce
    then have "taken job b = taken job (bt_board s)" by (simp add: taken_def)
    then show ?thesis
      using worker_step_less [OF batch_step(5) range False] sum
      by (simp add: batch_rank_def batch_step(1))
  qed
qed

lemma batch_progress:
  assumes inv: "batch_inv job lanes s" and tasks: "job_returns job" and live: "\<not> all_ended s"
  shows "\<exists>t. batch_step job s t"
proof -
  obtain i where i: "i < length (bt_workers s)" "\<not> worker_ended (bt_workers s ! i)"
    using live by (auto simp: all_ended_def list_all_length)
  have "in_range (bt_workers s ! i) (bt_board s)"
    using inv board_lanes_range i by (auto simp: batch_inv_def)
  then obtain out w b where
    "worker_step job (bt_clock s) out (bt_workers s ! i) (bt_board s) = Some (w, b)"
    using worker_step_enabled [OF tasks i(2)] by (metis surj_pair)
  then show ?thesis
    using batch_step.intros [of s "bt_clock s" i "bd_sched (bt_board s)" job out w b] i by auto
qed

interpretation batch_live: ranked_system
  "\<lambda>s. batch_begun lanes job s \<and> job_returns job" "batch_step job"
  "\<lambda>s. batch_inv job lanes s \<and> job_returns job" "batch_rank job" all_ended
  for job lanes
  by unfold_locales (use batch_begun_ids batch_inv_step batch_rank_step batch_progress in blast)+

interpretation batch_sys: invariant_system "batch_begun lanes job" "batch_step job" "batch_inv job lanes"
  for job lanes
  by unfold_locales (use batch_begun_ids batch_inv_step in blast)+

lemma batch_reachable_inv: "batch_reachable lanes job s \<Longrightarrow> batch_inv job lanes s"
  unfolding batch_reachable_def using batch_sys.inv_reachable by blast

lemma batch_reachable_ids: "batch_reachable lanes job s \<Longrightarrow> sorted_wrt (<) (j_ids job)"
  unfolding batch_reachable_def using batch_begun_ids by blast

subsection \<open>A finished batch\<close>

lemma cnt_none: "list_all P xs \<Longrightarrow> (\<And>x. P x \<Longrightarrow> \<not> Q x) \<Longrightarrow> cnt Q xs = 0"
  by (auto simp: cnt_0_iff list_all_length)

text \<open>When the workers have left their loops, everything was taken and deposited.\<close>

lemma batch_done_all:
  assumes r: "batch_reachable lanes job s" and exit: "list_all (\<lambda>w. w_pc w = WExit) (bt_workers s)"
  shows "taken job (bt_board s) = j_count job"
    and "length (bd_results (bt_board s)) = j_count job"
    and "rid ` set (bd_results (bt_board s)) = set (j_ids job)"
    and "distinct (map rid (bd_results (bt_board s)))"
proof -
  let ?b = "bt_board s" and ?ws = "bt_workers s"
  have inv: "job_ok lanes job" "length ?ws = lanes" "0 < lanes" "cursor_ok job ?b ?ws" "apart job ?b ?ws"
    using batch_reachable_inv [OF r] by (simp_all add: batch_inv_def)
  have "cnt (\<lambda>w. w_pc w = WExit) ?ws = length ?ws"
    using exit by (simp add: cnt_eq_length_iff list_all_iff)
  then have "unat (bd_next ?b) = taken job ?b + lanes" using inv(2,4) by (simp add: cursor_ok_def)
  then show taken: "taken job ?b = j_count job" using inv(3) by (simp add: taken_def)
  have "cnt holding ?ws = 0" by (rule cnt_none [OF exit]) simp
  then show count: "length (bd_results ?b) = j_count job"
    using inv(5) taken by (simp add: apart_def)
  show dist: "distinct (map rid (bd_results ?b))" using inv(5) by (simp add: apart_def)
  have "rid ` set (bd_results ?b) \<subseteq> set (j_ids job)"
    using inv(1,5) taken by (auto simp: apart_def job_ok_def)
  moreover have "card (rid ` set (bd_results ?b)) = card (set (j_ids job))"
    using dist count inv(1) distinct_card [of "map rid (bd_results ?b)"] distinct_card [of "j_ids job"]
    by (simp add: job_ok_def)
  ultimately show "rid ` set (bd_results ?b) = set (j_ids job)"
    by (intro card_subset_eq) simp_all
qed

lemma batch_done_run:
  assumes "list_all (\<lambda>w. w_pc w = WExit) (bt_workers s)"
  shows "batch_finish s = Some (Inr
    \<lparr>run_results = sort_key rid (bd_results (bt_board s)),
     run_events = rs_events (bd_state (bt_board s)),
     run_snapshot = run_state_snapshot (bd_state (bt_board s)) (lane_count (bd_sched (bt_board s)))\<rparr>)"
proof -
  have "\<not> list_ex (\<lambda>w. worker_panicked (w_pc w)) (bt_workers s)"
    "\<not> list_ex (\<lambda>w. w_pc w \<noteq> WExit) (bt_workers s)"
    using assms by (auto simp: list_ex_iff list_all_iff)
  then show ?thesis unfolding batch_finish_def by simp
qed

lemma sort_key_ids:
  fixes ids :: "ExecutionId list"
  assumes "distinct (map f rs)" "f ` set rs = set ids" "sorted_wrt (<) ids"
  shows "map f (sort_key f rs) = ids"
proof (rule sorted_distinct_set_unique)
  show "sorted (map f (sort_key f rs))" by simp
  have "mset (map f (sort_key f rs)) = mset (map f rs)" by simp
  then show "distinct (map f (sort_key f rs))" using assms(1) by (metis mset_eq_imp_distinct_iff)
qed (use assms strictly_sorted [OF assms(3)] in auto)

lemma worker_all_exit: "list_all worker_ended ws \<Longrightarrow> \<not> list_ex (\<lambda>w. worker_panicked (w_pc w)) ws \<Longrightarrow>
    list_all (\<lambda>w. w_pc w = WExit) ws"
  by (auto simp: list_all_iff list_ex_iff worker_ended_def)

subsection \<open>Completion and termination\<close>

lemma batch_complete_run:
  assumes "batch_reachable lanes job s" and "list_all (\<lambda>w. w_pc w = WExit) (bt_workers s)"
  shows "\<exists>run. batch_finish s = Some (Inr run)
    \<and> map (\<lambda>r. execution_id (report r)) (run_results run) = j_ids job
    \<and> unat (snap_completed (run_snapshot run)) = cnt (\<lambda>r. success (report r)) (run_results run)
    \<and> unat (snap_failed (run_snapshot run)) = cnt (\<lambda>r. \<not> success (report r)) (run_results run)
    \<and> snap_queued (run_snapshot run) = 0 \<and> snap_running (run_snapshot run) = 0
    \<and> snap_lanes (run_snapshot run) = replicate lanes LaneFree
    \<and> unat (snap_lane_count (run_snapshot run)) = lanes
    \<and> 1 \<le> unat (snap_peak_active (run_snapshot run)) \<and> unat (snap_peak_active (run_snapshot run)) \<le> lanes"
proof -
  let ?b = "bt_board s" and ?ws = "bt_workers s"
  note inv = batch_reachable_inv [OF assms(1)] and all = batch_done_all [OF assms]
  have parts: "job_ok lanes job" "length ?ws = lanes" "board_counters job ?b ?ws" "board_peak ?b ?ws" "board_lanes ?b ?ws"
    using inv by (simp_all add: batch_inv_def)
  have none: "cnt P ?ws = 0" if "\<And>w. w_pc w = WExit \<Longrightarrow> \<not> P w" for P
    by (rule cnt_none [OF assms(2)]) (rule that)
  have shown: "map lane_shown ?ws = replicate lanes LaneFree"
    using assms(2) parts(2) by (auto simp: list_all_length lane_shown_def intro: nth_equalityI)
  have sorted: "map rid (sort_key rid (bd_results ?b)) = j_ids job"
    by (rule sort_key_ids [OF all(4,3) batch_reachable_ids [OF assms(1)]])
  have perm: "cnt P (sort_key rid (bd_results ?b)) = cnt P (bd_results ?b)" for P
    unfolding cnt_def by (metis mset_filter mset_sort size_mset)
  have small: "cnt P (bd_results ?b) < 2 ^ 64" for P
    using cnt_le_length [of P "bd_results ?b"] all(2) parts(1) by (simp add: job_ok_def)
  have some: "bd_results ?b \<noteq> []" using all(2) parts(1) by (auto simp: job_ok_def)
  show ?thesis
    unfolding batch_done_run [OF assms(2)]
    using parts sorted all(1) shown some small perm
      none [of "within 19 19"] none [of "within 4 15"] none [of "\<lambda>w. within 2 5 w \<and> succeeded w"]
      none [of "\<lambda>w. within 2 5 w \<and> \<not> succeeded w"]
    by (simp add: run_state_snapshot_def board_counters_def board_peak_def board_lanes_def
      lane_count_def unat_of_nat_64 job_ok_def)
qed

lemma batch_reaches_end:
  assumes "batch_begun lanes job s0" and "job_returns job"
  shows "((batch_step job ^^ k) s0 s \<longrightarrow> k \<le> 20 * j_count job + lanes)
    \<and> (\<exists>t. (batch_step job)\<^sup>*\<^sup>* s0 t \<and> list_all worker_ended (bt_workers t)
          \<and> (if list_ex (\<lambda>w. worker_panicked (w_pc w)) (bt_workers t) then batch_finish t = None
             else \<exists>run. batch_finish t = Some (Inr run)))"
proof (intro conjI impI)
  have inv: "batch_inv job lanes s0 \<and> job_returns job"
    using assms batch_begun_ids by blast
  have rank: "batch_rank job s0 = 20 * j_count job + lanes"
  proof -
    obtain now next_id p where s0: "s0 = batch_start job now next_id p"
      using assms(1) by (auto simp: batch_begun_def batch_begin_def Let_def split: if_splits)
    have "steps_left w = 1" if "w \<in> set (bt_workers s0)" for w
      using that by (auto simp: s0 batch_start_def new_worker_def steps_left_def worker_ended_def)
    then have "sum_list (map steps_left (bt_workers s0)) = length (bt_workers s0)"
      by (simp add: sum_list_triv cong: map_cong)
    moreover have "taken job (bt_board s0) = 0" by (simp add: s0 batch_start_def taken_def)
    ultimately show ?thesis using inv by (simp add: batch_rank_def batch_inv_def)
  qed
  show "k \<le> 20 * j_count job + lanes" if "(batch_step job ^^ k) s0 s"
    using batch_live.run_length [OF inv that] rank by simp
  obtain t where t: "(batch_step job)\<^sup>*\<^sup>* s0 t" "list_all worker_ended (bt_workers t)"
    using batch_live.reaches_final [OF inv] unfolding all_ended_def by blast
  have "\<exists>run. batch_finish t = Some (Inr run)"
    if "\<not> list_ex (\<lambda>w. worker_panicked (w_pc w)) (bt_workers t)"
    using batch_done_run [OF worker_all_exit [OF t(2) that]] by blast
  then show "\<exists>t. (batch_step job)\<^sup>*\<^sup>* s0 t \<and> list_all worker_ended (bt_workers t)
      \<and> (if list_ex (\<lambda>w. worker_panicked (w_pc w)) (bt_workers t) then batch_finish t = None
         else \<exists>run. batch_finish t = Some (Inr run))"
    using t by (intro exI [of _ t]) (auto simp: batch_finish_def)
qed

subsection \<open>Runs that do not panic\<close>

text \<open>When no task and no classifier call can panic, no worker ever does.\<close>

definition job_calm :: "'a batch_job \<Rightarrow> bool" where
  "job_calm job \<longleftrightarrow> (\<forall>e l. \<not> j_returns job e l TaskPanic) \<and> (\<forall>v. \<not> j_classify_panics job v)"

definition all_calm :: "'a batch \<Rightarrow> bool" where
  "all_calm s \<longleftrightarrow> list_all (\<lambda>w. \<not> worker_panicked (w_pc w)) (bt_workers s)"

lemma worker_step_calm:
  "worker_step job now out w b = Some (w', b') \<Longrightarrow> in_range w b \<Longrightarrow> job_calm job \<Longrightarrow> \<not> worker_panicked (w_pc w')"
  unfolding worker_step_def
  by (cases "w_pc w")
    (auto simp: Let_def job_calm_def classifier_panics_def split: if_splits option.splits outcome.splits)

lemma batch_calm_step:
  assumes "batch_inv job lanes s" and "job_calm job" and "all_calm s" and "batch_step job s t"
  shows "all_calm t"
  using assms(4)
proof cases
  case (batch_step now i noise out w b)
  have "in_range (bt_workers s ! i) (bt_board s)"
    using assms(1) board_lanes_range batch_step(3) by (auto simp: batch_inv_def)
  then have "\<not> worker_panicked (w_pc w)"
    using worker_step_calm [OF batch_step(5)] worker_step_noise assms(2) by blast
  then show ?thesis
    using assms(3) batch_step(1) set_update_subset_insert [of "bt_workers s" i w] by (auto simp: all_calm_def list_all_iff)
qed

lemma batch_begun_calm: "batch_begun lanes job s \<Longrightarrow> all_calm s"
  by (auto simp: batch_begun_def batch_begin_def batch_start_def Let_def all_calm_def list_all_iff new_worker_def
      split: if_splits)

interpretation batch_calm: invariant_system "\<lambda>s. batch_begun lanes job s \<and> job_calm job" "batch_step job"
  "\<lambda>s. batch_inv job lanes s \<and> job_calm job \<and> all_calm s"
  for job lanes
  by unfold_locales (use batch_begun_ids batch_begun_calm batch_inv_step batch_calm_step in blast)+

lemma batch_never_panics:
  "batch_reachable lanes job s \<Longrightarrow> job_calm job \<Longrightarrow> \<not> list_ex (\<lambda>w. worker_panicked (w_pc w)) (bt_workers s)"
  unfolding batch_reachable_def using batch_calm.inv_reachable [of lanes job]
  by (fastforce simp: all_calm_def list_all_iff list_ex_iff)

end
