(* ===== verification/Sched_Batch_Claims.thy ===== *)
theory Sched_Batch_Claims
  imports Sched_Batch_Live
begin

section \<open>What a batch run promises\<close>

text \<open>
  A concrete batch and the properties of
  \<^verbatim>\<open>run_many_classified\<close>: completeness and order of the results, the lifecycle events,
  the counters during and after the run, and termination.
\<close>

subsection \<open>A concrete batch\<close>

text \<open>
  Two executions on one lane; the task returns the number of its identifier, and the classifier
  counts the value 1 as a failure.
\<close>

definition demo_job :: "nat batch_job" where
  "demo_job = batch_job_of 2 [0, 0] [7, 8] (\<lambda>e l out. out = TaskOk (unat (eid_num e)))
     (\<lambda>v. if v = 1 then Some ''odd'' else None) (\<lambda>_. False) (\<lambda>t. 1000 + t) (scheduler_with_lanes 1 5)"

definition demo_batch :: "nat batch" where
  "demo_batch = batch_start demo_job 9 2 (scheduler_with_lanes 1 5)"

definition demo_schedule :: "nat \<Rightarrow> (instant \<times> nat \<times> nat outcome option) list" where
  "demo_schedule k = map (\<lambda>d. (9 + d, 0, Some (TaskOk (if d < 19 then 0 else 1)))) [0..<k]"

definition demo_ended :: "nat batch" where
  "demo_ended = the (batch_run demo_job (demo_schedule 39) demo_batch)"

lemma demo_begun: "batch_begun 1 demo_job demo_batch"
proof -
  have "batch_begin 2 [0, 0] [7, 8] (\<lambda>e l out. out = TaskOk (unat (eid_num e)))
     (\<lambda>v. if v = 1 then Some ''odd'' else None) (\<lambda>_. False) (\<lambda>t. 1000 + t) 9 (scheduler_with_lanes 1 5)
    = Inr (demo_job, demo_batch)"
    by (simp add: batch_begin_def demo_job_def demo_batch_def Let_def scheduler_with_lanes_def)
  then show ?thesis unfolding batch_begun_def
    by (intro exI conjI) (assumption, simp_all add: scheduler_with_lanes_def)
qed

lemmas batch_eval =
  demo_job_def demo_batch_def batch_job_of_def batch_start_def scheduler_with_lanes_def
  new_worker_def worker_step_def Let_def push_event_def set_lane_def set_lane_or_panic_def
  count_outcome_def new_run_state_def lane_count_def classifier_panics_def demo_schedule_def
  upt_0_numeral replicate_numeral duration_since_def worker_result_def nanos_u64_def nth_Cons'

lemma demo_ended_pcs:
  "map_option (\<lambda>s. map w_pc (bt_workers s)) (batch_run demo_job (demo_schedule 39) demo_batch)
    = Some [WExit]"
  by (simp add: batch_eval)

lemma demo_ended_runs: "batch_run demo_job (demo_schedule 39) demo_batch = Some demo_ended"
  using demo_ended_pcs by (auto simp: demo_ended_def)

lemma demo_ended_exit: "list_all (\<lambda>w. w_pc w = WExit) (bt_workers demo_ended)"
proof -
  have "map w_pc (bt_workers demo_ended) = [WExit]"
    using demo_ended_pcs demo_ended_runs by simp
  then show ?thesis by auto
qed

lemma demo_ended_reachable: "batch_reachable 1 demo_job demo_ended"
  unfolding batch_reachable_def using demo_begun batch_run_steps [OF demo_ended_runs] by blast

subsection \<open>The results and events of a finished batch\<close>

lemma finished_results_fine:
  assumes "batch_reachable lanes job s" and "batch_finish s = Some (Inr run)" and "r \<in> set (run_results run)"
  shows "result_fine job lanes r"
proof -
  have "r \<in> set (bd_results (bt_board s))"
    using assms(2,3) by (auto simp: batch_finish_def split: if_splits)
  then show ?thesis
    using batch_reachable_inv [OF assms(1)] by (simp add: batch_inv_def)
qed

lemma finished_lifecycle:
  assumes "batch_reachable lanes job s" and "list_all (\<lambda>w. w_pc w = WExit) (bt_workers s)"
    and "batch_finish s = Some (Inr run)" and "r \<in> set (run_results run)"
  shows "filter (\<lambda>ev. event_id ev = execution_id (report r)) (run_events run) =
      [EvQueued (execution_id (report r)),
       EvStarted (execution_id (report r)) (lane_id (report r)) (queued_for (report r)),
       final_event (report r)]
    \<and> event_id ` set (run_events run) = set (j_ids job)"
proof -
  have run: "run_events run = rs_events (bd_state (bt_board s))"
    "set (run_results run) = set (bd_results (bt_board s))"
    using assms(3) unfolding batch_done_run [OF assms(2)] by auto
  have traces: "board_traces job (bt_board s) (bt_workers s)"
    using batch_reachable_inv [OF assms(1)] by (simp add: batch_inv_def)
  then have life: "trace (rid q) (run_events run) = lifecycle (report q)" if "q \<in> set (run_results run)" for q
    using that run by (simp add: board_traces_def)
  have "e \<in> event_id ` set (run_events run)" if "e \<in> set (j_ids job)" for e
  proof -
    have "e \<in> rid ` set (run_results run)"
      using that by (simp only: batch_done_all(3) [OF assms(1,2)] run(2))
    then obtain q where q: "q \<in> set (run_results run)" "rid q = e" by (rule imageE) simp
    then have "EvQueued e \<in> set (trace e (run_events run))" using life by (auto simp: lifecycle_def)
    then show ?thesis by (force simp: trace_def)
  qed
  then have "event_id ` set (run_events run) = set (j_ids job)"
    using traces run by (auto simp: board_traces_def)
  then show ?thesis using life [OF assms(4)] by (simp add: trace_def lifecycle_def)
qed

subsection \<open>The properties\<close>

text \<open>C1: A batch is complete and in order. When all workers of a batch of any size on any number of
  lanes have left their loops, in whatever interleaving, \<^verbatim>\<open>run_many_classified\<close>
  returns a run (neither of its collector errors) whose results are exactly one per requested
  execution, sorted by identifier in submission order, and whose snapshot counts add up: completed
  is the number of successful results, failed the number of the others, nothing is queued or
  running, every lane is free, and the peak is between one and the number of lanes.\<close>

theorem batch_complete:
  assumes "batch_reachable lanes job s" and "list_all (\<lambda>w. w_pc w = WExit) (bt_workers s)"
  shows "\<exists>run. batch_finish s = Some (Inr run)
    \<and> map (\<lambda>r. execution_id (report r)) (run_results run) = j_ids job
    \<and> unat (snap_completed (run_snapshot run)) = cnt (\<lambda>r. success (report r)) (run_results run)
    \<and> unat (snap_failed (run_snapshot run)) = cnt (\<lambda>r. \<not> success (report r)) (run_results run)
    \<and> snap_queued (run_snapshot run) = 0 \<and> snap_running (run_snapshot run) = 0
    \<and> snap_lanes (run_snapshot run) = replicate lanes LaneFree
    \<and> unat (snap_lane_count (run_snapshot run)) = lanes
    \<and> 1 \<le> unat (snap_peak_active (run_snapshot run)) \<and> unat (snap_peak_active (run_snapshot run)) \<le> lanes"
  by (rule batch_complete_run [OF assms])

theorem batch_complete_witness:
  "\<exists>run. batch_finish demo_ended = Some (Inr run)
    \<and> map (\<lambda>r. execution_id (report r)) (run_results run) = [ExecutionId 0, ExecutionId 1]"
proof -
  have "j_ids demo_job = [ExecutionId 0, ExecutionId 1]"
    by (simp add: demo_job_def batch_job_of_def scheduler_with_lanes_def)
  then show ?thesis
    using batch_complete [OF demo_ended_reachable demo_ended_exit] by auto
qed

text \<open>C2: The lifecycle events of a finished batch. The events of each execution, in order, are
  \<^verbatim>\<open>Queued\<close>, \<^verbatim>\<open>Started\<close> on the lane and with the queue time of its report, and then
  \<^verbatim>\<open>Completed\<close> or \<^verbatim>\<open>Failed\<close> with the duration and error of its report; no event
  belongs to anything else.\<close>

theorem batch_lifecycle:
  assumes "batch_reachable lanes job s" and "list_all (\<lambda>w. w_pc w = WExit) (bt_workers s)"
    and "batch_finish s = Some (Inr run)" and "r \<in> set (run_results run)"
  shows "filter (\<lambda>ev. event_id ev = execution_id (report r)) (run_events run) =
      [EvQueued (execution_id (report r)),
       EvStarted (execution_id (report r)) (lane_id (report r)) (queued_for (report r)),
       final_event (report r)]
    \<and> event_id ` set (run_events run) = set (j_ids job)"
  by (rule finished_lifecycle [OF assms])

theorem batch_lifecycle_witness:
  "\<exists>run. batch_finish demo_ended = Some (Inr run)
    \<and> (\<exists>r\<in>set (run_results run). length (filter (\<lambda>ev. event_id ev = execution_id (report r)) (run_events run)) = 3)"
proof -
  obtain run where run: "batch_finish demo_ended = Some (Inr run)" "map rid (run_results run) = j_ids demo_job"
    using batch_complete [OF demo_ended_reachable demo_ended_exit] by blast
  then have "run_results run \<noteq> []" by (auto simp: demo_job_def batch_job_of_def scheduler_with_lanes_def)
  then obtain r where r: "r \<in> set (run_results run)" by (cases "run_results run") auto
  show ?thesis
    using batch_lifecycle [OF demo_ended_reachable demo_ended_exit run(1) r] run(1) r
    by (intro exI [of _ run] conjI bexI [of _ r]) simp_all
qed



text \<open>During a batch. In every reachable state, no two workers have the same execution and none
  has one that is already reported; what is in flight and what is reported are exactly the
  executions taken from the cursor; worker \<open>i\<close> works on lane \<open>i\<close> and the lane table shows
  its execution while it runs; \<^verbatim>\<open>running\<close> counts the running workers and is at most the
  number of lanes.\<close>

theorem batch_in_flight:
  assumes "batch_reachable lanes job s" and "i < lanes"
    and "holding (bt_workers s ! i)"
  shows "w_lane (bt_workers s ! i) = LaneId i
    \<and> w_eid (bt_workers s ! i) \<in> set (j_ids job)
    \<and> (\<forall>r\<in>set (bd_results (bt_board s)). execution_id (report r) \<noteq> w_eid (bt_workers s ! i))
    \<and> (\<forall>j<lanes. j \<noteq> i \<longrightarrow> holding (bt_workers s ! j) \<longrightarrow>
          w_eid (bt_workers s ! j) \<noteq> w_eid (bt_workers s ! i))
    \<and> rs_lanes (bd_state (bt_board s)) = map lane_shown (bt_workers s)
    \<and> unat (rs_running (bd_state (bt_board s))) = cnt (within 4 15) (bt_workers s)
    \<and> unat (rs_running (bd_state (bt_board s))) \<le> lanes
    \<and> cnt holding (bt_workers s) + length (bd_results (bt_board s)) = taken job (bt_board s)
    \<and> taken job (bt_board s) \<le> j_count job"
proof -
  let ?b = "bt_board s" and ?ws = "bt_workers s"
  have inv: "job_ok lanes job" "length ?ws = lanes" "apart job ?b ?ws" "board_counters job ?b ?ws" "board_lanes ?b ?ws"
    using batch_reachable_inv [OF assms(1)] by (simp_all add: batch_inv_def)
  have i: "i < length ?ws" using assms(2) inv(2) by simp
  have "cnt (within 4 15) ?ws \<le> lanes" using cnt_le_length [of "within 4 15" ?ws] inv(2) by simp
  moreover from this have "unat (rs_running (bd_state ?b)) = cnt (within 4 15) ?ws"
    using inv(1,4) by (simp add: board_counters_def unat_of_nat_64 job_ok_def)
  moreover have "\<forall>j<lanes. j \<noteq> i \<longrightarrow> holding (?ws ! j) \<longrightarrow> w_eid (?ws ! j) \<noteq> w_eid (?ws ! i)"
    using inv(2,3) i assms(3) unfolding apart_def by blast
  moreover have "w_eid (?ws ! i) \<in> set (j_ids job)"
    using apart_held(1) [OF inv(1,3) i assms(3)] by (rule in_set_takeD)
  moreover have "\<forall>r\<in>set (bd_results ?b). rid r \<noteq> w_eid (?ws ! i)"
    using apart_held(2) [OF inv(1,3) i assms(3)] by (metis image_eqI)
  moreover have "cnt holding ?ws + length (bd_results ?b) = taken job ?b"
    using inv(3) by (simp add: apart_def)
  moreover have "taken job ?b \<le> j_count job" by (simp add: taken_def)
  ultimately show ?thesis
    using board_lanes_range [OF inv(5) i] inv(5) by (simp add: board_lanes_def)
qed

definition demo_midway :: "nat batch" where
  "demo_midway = the (batch_run demo_job (demo_schedule 5) demo_batch)"

lemma demo_midway_pcs:
  "map_option (\<lambda>s. map w_pc (bt_workers s)) (batch_run demo_job (demo_schedule 5) demo_batch)
    = Some [WPeak]"
  by (simp add: batch_eval)

theorem batch_in_flight_witness: "unat (rs_running (bd_state (bt_board demo_midway))) \<le> 1"
proof -
  have run: "batch_run demo_job (demo_schedule 5) demo_batch = Some demo_midway"
    using demo_midway_pcs by (auto simp: demo_midway_def)
  then have r: "batch_reachable 1 demo_job demo_midway"
    unfolding batch_reachable_def using demo_begun batch_run_steps by blast
  have "map w_pc (bt_workers demo_midway) = [WPeak]"
    using demo_midway_pcs run by simp
  then have "w_pc (bt_workers demo_midway ! 0) = WPeak" by auto
  then show ?thesis using batch_in_flight [OF r, of 0] by simp
qed

text \<open>C4: A batch terminates. Whatever the interleaving, a batch takes at most
  \<open>20 * count + lanes\<close> steps; and when every task ends in some way, a state is reachable
  in which all workers have left their loops or panicked, in which case
  \<^verbatim>\<open>run_many_classified\<close> either returns a run or, exactly when a worker has panicked,
  unwinds: its own two error branches are never taken.\<close>

theorem batch_terminates:
  assumes "batch_begun lanes job s0" and "job_returns job"
  shows "((batch_step job ^^ k) s0 s \<longrightarrow> k \<le> 20 * j_count job + lanes)
    \<and> (\<exists>t. (batch_step job)\<^sup>*\<^sup>* s0 t \<and> list_all worker_ended (bt_workers t)
          \<and> (if list_ex (\<lambda>w. worker_panicked (w_pc w)) (bt_workers t) then batch_finish t = None
             else \<exists>run. batch_finish t = Some (Inr run)))"
  by (rule batch_reaches_end [OF assms])

theorem batch_terminates_witness:
  "\<exists>t. (batch_step demo_job)\<^sup>*\<^sup>* demo_batch t \<and> list_all worker_ended (bt_workers t)"
proof -
  have "job_returns demo_job" by (simp add: job_returns_def demo_job_def batch_job_of_def)
  from batch_terminates [OF demo_begun this] show ?thesis by blast
qed

end
