(* ===== verification/Pit_Strings.thy ===== *)
theory Pit_Strings
  imports Pit_Text
begin

section \<open>Text: splitting, joining, trimming, hexadecimal\<close>

text \<open>
  The string operations of the Rust standard library that request handling uses, on UTF-8 byte
  lists: \<^verbatim>\<open>split\<close>, \<^verbatim>\<open>split_once\<close>, \<^verbatim>\<open>join\<close>,
  \<^verbatim>\<open>trim\<close>, \<^verbatim>\<open>split_whitespace\<close>, ASCII case and hexadecimal digits,
  with the laws of splitting and joining.
\<close>

subsection \<open>Splitting and joining\<close>

fun split_on :: "char \<Rightarrow> string \<Rightarrow> string list" where
  "split_on c [] = [[]]"
| "split_on c (x # xs) =
     (if x = c then [] # split_on c xs
      else (case split_on c xs of w # ws \<Rightarrow> (x # w) # ws | [] \<Rightarrow> [[x]]))"

fun join :: "string \<Rightarrow> string list \<Rightarrow> string" where
  "join sep [] = []"
| "join sep [w] = w"
| "join sep (w # v # ws) = w @ sep @ join sep (v # ws)"

definition split_once :: "char \<Rightarrow> string \<Rightarrow> (string \<times> string) option" where
  "split_once c s =
     (case dropWhile (\<lambda>x. x \<noteq> c) s of [] \<Rightarrow> None | _ # rest \<Rightarrow> Some (takeWhile (\<lambda>x. x \<noteq> c) s, rest))"

definition strip_prefix :: "string \<Rightarrow> string \<Rightarrow> string option" where
  "strip_prefix p s = (if take (length p) s = p then Some (drop (length p) s) else None)"

definition contains :: "string \<Rightarrow> string \<Rightarrow> bool" where
  "contains p s \<longleftrightarrow> list_ex (\<lambda>n. take (length p) (drop n s) = p) [0..<Suc (length s)]"

text \<open>
  \<^verbatim>\<open>lines\<close>: without the line ends, a carriage return before one included, and without an
  empty last line.
\<close>

definition strip_return :: "string \<Rightarrow> string" where
  "strip_return s = (if s \<noteq> [] \<and> last s = byte_of_val 13 then butlast s else s)"

definition str_lines :: "string \<Rightarrow> string list" where
  "str_lines s =
     (let parts = split_on (byte_of_val 10) s
      in map strip_return (butlast parts) @ (if last parts = [] then [] else [last parts]))"

text \<open>
  \<^verbatim>\<open>str::parse\<close> for an unsigned integer up to \<open>max\<close>: an optional plus sign and at
  least one digit; the errors are found from the left, an invalid digit before an overflow at it.
\<close>

fun parse_digits :: "nat \<Rightarrow> nat \<Rightarrow> string \<Rightarrow> string + nat" where
  "parse_digits bound acc [] = Inr acc"
| "parse_digits bound acc (c # cs) =
     (if \<not> is_ascii_digit c then Inl ''invalid digit found in string''
      else if bound < 10 * acc + digit_val c then Inl ''number too large to fit in target type''
      else parse_digits bound (10 * acc + digit_val c) cs)"

definition parse_unsigned :: "nat \<Rightarrow> string \<Rightarrow> string + nat" where
  "parse_unsigned bound s =
     (if s = [] then Inl ''cannot parse integer from empty string''
      else if s = ''+'' \<or> s = ''-'' then Inl ''invalid digit found in string''
      else parse_digits bound 0 (case strip_prefix ''+'' s of Some rest \<Rightarrow> rest | None \<Rightarrow> s))"

abbreviation add_digits :: "nat \<Rightarrow> string \<Rightarrow> nat" where
  "add_digits \<equiv> foldl (\<lambda>acc c. 10 * acc + digit_val c)"

lemma add_digits_grows: "acc \<le> add_digits acc s"
proof (induction s arbitrary: acc)
  case (Cons c s)
  from Cons [of "10 * acc + digit_val c"] show ?case by simp
qed simp

lemma parse_digits_value:
  "\<forall>c\<in>set s. is_ascii_digit c \<Longrightarrow> add_digits acc s \<le> bound \<Longrightarrow> parse_digits bound acc s = Inr (add_digits acc s)"
proof (induction s arbitrary: acc)
  case (Cons c s)
  have "10 * acc + digit_val c \<le> add_digits (10 * acc + digit_val c) s" by (rule add_digits_grows)
  then show ?case using Cons by simp
qed simp

text \<open>What was printed is parsed back.\<close>

lemma parse_unsigned_dec: "n \<le> bound \<Longrightarrow> parse_unsigned bound (dec n) = Inr n"
proof -
  assume n: "n \<le> bound"
  obtain c s where dec: "dec n = c # s" by (cases "dec n") auto
  then have "is_ascii_digit c" using dec_digits [of n] by simp
  then have "c \<noteq> CHR ''+'' \<and> c \<noteq> CHR ''-''" by (auto simp: is_ascii_digit_def byte_val_def)
  moreover have "parse_digits bound 0 (dec n) = Inr n"
    using parse_digits_value [OF dec_digits, of 0 n bound] undec_dec [of n] n by (simp add: undec_def)
  ultimately show ?thesis using dec by (simp add: parse_unsigned_def strip_prefix_def)
qed

lemma split_on_nonempty [simp]: "split_on c s \<noteq> []"
  by (induction s) (auto split: list.splits)

lemma split_on_free: "w \<in> set (split_on c s) \<Longrightarrow> c \<notin> set w"
  by (induction s arbitrary: w) (auto split: list.splits if_splits)

lemma join_Cons_char: "join sep ((x # w) # ws) = x # join sep (w # ws)"
  by (cases ws) auto

lemma join_split [simp]: "join [c] (split_on c s) = s"
proof (induction s)
  case (Cons x s)
  then show ?case by (cases "split_on c s") (auto simp: join_Cons_char)
qed simp

lemma split_on_plain: "c \<notin> set w \<Longrightarrow> split_on c w = [w]"
  by (induction w) auto

lemma split_on_append: "c \<notin> set w \<Longrightarrow> split_on c (w @ c # s) = w # split_on c s"
  by (induction w) auto

lemma split_join: "ws \<noteq> [] \<Longrightarrow> (\<And>w. w \<in> set ws \<Longrightarrow> c \<notin> set w) \<Longrightarrow> split_on c (join [c] ws) = ws"
  by (induction "[c]" ws rule: join.induct) (simp_all add: split_on_plain split_on_append)

lemma split_once_append: "c \<notin> set w \<Longrightarrow> split_once c (w @ c # s) = Some (w, s)"
proof -
  assume free: "c \<notin> set w"
  then have "takeWhile (\<lambda>x. x \<noteq> c) (w @ c # s) = w" "dropWhile (\<lambda>x. x \<noteq> c) (w @ c # s) = c # s"
    by (induction w) auto
  then show ?thesis by (simp add: split_once_def)
qed

lemma split_once_None: "c \<notin> set s \<Longrightarrow> split_once c s = None"
  by (simp add: split_once_def dropWhile_eq_Nil_conv)
    (metis (mono_tags, lifting) dropWhile_eq_Nil_conv list.simps(4))

lemma set_join: "set (join sep ws) \<subseteq> set sep \<union> (\<Union>w\<in>set ws. set w)"
  by (induction sep ws rule: join.induct) auto

subsection \<open>Whitespace\<close>

text \<open>
  The UTF-8 encodings of the characters with the Unicode property \<^verbatim>\<open>White_Space\<close>,
  which is what \<^verbatim>\<open>char::is_whitespace\<close> tests.
\<close>

definition ascii_space :: "char \<Rightarrow> bool" where
  "ascii_space c \<longleftrightarrow> 9 \<le> byte_val c \<and> byte_val c \<le> 13 \<or> byte_val c = 32"

definition wide_space2 :: "char \<Rightarrow> char \<Rightarrow> bool" where
  "wide_space2 a b \<longleftrightarrow> byte_val a = 194 \<and> (byte_val b = 133 \<or> byte_val b = 160)"

definition wide_space3 :: "char \<Rightarrow> char \<Rightarrow> char \<Rightarrow> bool" where
  "wide_space3 a b c \<longleftrightarrow>
     byte_val a = 225 \<and> byte_val b = 154 \<and> byte_val c = 128
     \<or> byte_val a = 226 \<and> byte_val b = 128
         \<and> (128 \<le> byte_val c \<and> byte_val c \<le> 138 \<or> byte_val c = 168 \<or> byte_val c = 169 \<or> byte_val c = 175)
     \<or> byte_val a = 226 \<and> byte_val b = 129 \<and> byte_val c = 159
     \<or> byte_val a = 227 \<and> byte_val b = 128 \<and> byte_val c = 128"

text \<open>The number of bytes of the whitespace character at the front, 0 when there is none.\<close>

definition space_len :: "string \<Rightarrow> nat" where
  "space_len s =
     (case s of
        [] \<Rightarrow> 0
      | a # t \<Rightarrow>
          if ascii_space a then 1
          else (case t of
                  [] \<Rightarrow> 0
                | b # u \<Rightarrow>
                    if wide_space2 a b then 2
                    else (case u of [] \<Rightarrow> 0 | c # _ \<Rightarrow> if wide_space3 a b c then 3 else 0)))"

function trim_start :: "string \<Rightarrow> string" where
  "trim_start s = (if space_len s = 0 then s else trim_start (drop (space_len s) s))"
  by auto
termination
  by (relation "measure length")
    (auto simp: space_len_def split: list.splits if_splits)

declare trim_start.simps [simp del]

text \<open>The same from the end: in valid UTF-8 the last bytes tell the last character.\<close>

definition space_len_end :: "string \<Rightarrow> nat" where
  "space_len_end s =
     (case rev s of
        [] \<Rightarrow> 0
      | c # t \<Rightarrow>
          if ascii_space c then 1
          else (case t of
                  [] \<Rightarrow> 0
                | b # u \<Rightarrow>
                    if wide_space2 b c then 2
                    else (case u of [] \<Rightarrow> 0 | a # _ \<Rightarrow> if wide_space3 a b c then 3 else 0)))"

function trim_end :: "string \<Rightarrow> string" where
  "trim_end s = (if space_len_end s = 0 then s else trim_end (take (length s - space_len_end s) s))"
  by auto
termination
  by (relation "measure length")
    (auto simp: space_len_end_def split: list.splits if_splits)

declare trim_end.simps [simp del]

definition trim :: "string \<Rightarrow> string" where
  "trim s = trim_end (trim_start s)"

text \<open>\<^verbatim>\<open>split_whitespace\<close>: the maximal runs of other characters.\<close>

function words_from :: "string \<Rightarrow> string \<Rightarrow> string list" where
  "words_from w s =
     (if s = [] then (if w = [] then [] else [w])
      else if space_len s = 0 then words_from (w @ [hd s]) (tl s)
      else (if w = [] then [] else [w]) @ words_from [] (drop (space_len s) s))"
  by auto
termination
  by (relation "measure (\<lambda>(w, s). length s)")
    (auto simp: space_len_def split: list.splits if_splits)

declare words_from.simps [simp del]

definition split_whitespace :: "string \<Rightarrow> string list" where
  "split_whitespace s = words_from [] s"

subsection \<open>Case and hexadecimal\<close>

definition to_ascii_lower :: "char \<Rightarrow> char" where
  "to_ascii_lower c = (if 65 \<le> byte_val c \<and> byte_val c \<le> 90 then byte_of_val (byte_val c + 32) else c)"

definition to_ascii_upper :: "char \<Rightarrow> char" where
  "to_ascii_upper c = (if 97 \<le> byte_val c \<and> byte_val c \<le> 122 then byte_of_val (byte_val c - 32) else c)"

definition eq_ignore_ascii_case :: "string \<Rightarrow> string \<Rightarrow> bool" where
  "eq_ignore_ascii_case a b \<longleftrightarrow> map to_ascii_lower a = map to_ascii_lower b"

definition is_ascii_lower :: "char \<Rightarrow> bool" where
  "is_ascii_lower c \<longleftrightarrow> 97 \<le> byte_val c \<and> byte_val c \<le> 122"

definition is_ascii_alpha :: "char \<Rightarrow> bool" where
  "is_ascii_alpha c \<longleftrightarrow> 65 \<le> byte_val c \<and> byte_val c \<le> 90 \<or> is_ascii_lower c"

definition is_ascii_hexdigit :: "char \<Rightarrow> bool" where
  "is_ascii_hexdigit c \<longleftrightarrow>
     is_ascii_digit c \<or> 65 \<le> byte_val c \<and> byte_val c \<le> 70 \<or> 97 \<le> byte_val c \<and> byte_val c \<le> 102"

text \<open>\<^verbatim>\<open>{:x}\<close> and \<^verbatim>\<open>{:X}\<close> of one half byte\<close>

definition hex_char :: "nat \<Rightarrow> char" where
  "hex_char d = byte_of_val (if d < 10 then 48 + d else 87 + d)"

definition hex_char_upper :: "nat \<Rightarrow> char" where
  "hex_char_upper d = byte_of_val (if d < 10 then 48 + d else 55 + d)"

lemma hex_char_inj: "d < 16 \<Longrightarrow> e < 16 \<Longrightarrow> hex_char d = hex_char e \<Longrightarrow> d = e"
  by (auto simp: hex_char_def dest!: arg_cong [of _ _ byte_val] split: if_splits)

lemma hexdigit_hex_char: "d < 16 \<Longrightarrow> is_ascii_hexdigit (hex_char d)"
  by (auto simp: hex_char_def is_ascii_hexdigit_def is_ascii_digit_def)

end
