(* ===== verification/Rt_Exec.thy ===== *)
theory Rt_Exec
  imports Pit_Strings
begin

section \<open>Executing a guest: requests, limits, interruption, outcomes\<close>

text \<open>
  \<^verbatim>\<open>crates/pit-runtime/src/lib.rs\<close>: the request and its validation (lines 159 to 296),
  the memory limiter, the control block and the epoch callback (2597 to 2714), captured output, and
  the entry points \<^verbatim>\<open>execute\<close> (WASI Preview 1), \<^verbatim>\<open>execute_p2\<close> and the
  HTTP execution. Wasmtime is outside the repository: a guest is a list of the calls it causes into
  the host (epoch ticks, memory growth, output) and the way its call ends, and the model runs the
  host's callbacks over them with Wasmtime's documented rules, that an interrupting epoch callback
  and a failing memory limiter end the call with an error.
\<close>

subsection \<open>Requests\<close>

record ExecutionLimits =
  lim_timeout :: "duration option"
  lim_memory_bytes :: "nat option"

record ExecutionRequest =
  req_artifact :: string \<comment> \<open>the identifier of the artifact\<close>
  req_program :: string \<comment> \<open>its program name\<close>
  req_entrypoint :: string
  req_args :: "string list"
  req_env :: "(string \<times> string) list"
  req_limits :: ExecutionLimits

definition NUL :: char where
  "NUL = byte_of_val 0"

definition validate_env_entry :: "string \<Rightarrow> string \<Rightarrow> string + unit" where
  "validate_env_entry key value =
     (if key = [] then Inl ''environment variable name must not be empty''
      else if CHR ''='' \<in> set key then Inl (''environment variable name must not contain '' @ [CHR 0x27] @ ''='' @ [CHR 0x27] @ '': '' @ key)
      else if NUL \<in> set key \<or> NUL \<in> set value then Inl ''environment variable entries must not contain NUL bytes''
      else Inr ())"

fun validate_args :: "nat \<Rightarrow> string list \<Rightarrow> string + unit" where
  "validate_args index [] = Inr ()"
| "validate_args index (arg # args) =
     (if NUL \<in> set arg then Inl (''argument '' @ dec index @ '' contains a NUL byte'')
      else validate_args (Suc index) args)"

fun validate_env :: "(string \<times> string) list \<Rightarrow> string + unit" where
  "validate_env [] = Inr ()"
| "validate_env ((key, value) # env) =
     (case validate_env_entry key value of Inl e \<Rightarrow> Inl e | Inr _ \<Rightarrow> validate_env env)"

definition validate :: "ExecutionRequest \<Rightarrow> string + unit" where
  "validate r =
     (if req_entrypoint r = [] \<or> NUL \<in> set (req_entrypoint r)
      then Inl ''entrypoint must be a non-empty string without NUL bytes''
      else (case validate_args 0 (req_args r) of
              Inl e \<Rightarrow> Inl e
            | Inr _ \<Rightarrow> validate_env (req_env r)))"

datatype ExecutionStatus =
  Completed | GuestExitNonZero | GuestTrap | TimedOut | Cancelled | MemoryLimitExceeded | RuntimeError

fun status_name :: "ExecutionStatus \<Rightarrow> string" where
  "status_name Completed = ''Completed''"
| "status_name GuestExitNonZero = ''GuestExitNonZero''"
| "status_name GuestTrap = ''GuestTrap''"
| "status_name TimedOut = ''TimedOut''"
| "status_name Cancelled = ''Cancelled''"
| "status_name MemoryLimitExceeded = ''MemoryLimitExceeded''"
| "status_name RuntimeError = ''RuntimeError''"

record RuntimeExecutionResult =
  res_status :: ExecutionStatus
  res_exit_code :: "int option"
  res_stdout :: string
  res_stderr :: string
  res_duration :: duration
  res_started :: nat
  res_error :: "string option"

subsection \<open>Control and limits\<close>

datatype ControlSignal = SigNone | SigTimedOut | SigCancelled

fun signal_code :: "ControlSignal \<Rightarrow> nat" where
  "signal_code SigNone = 0"
| "signal_code SigTimedOut = 1"
| "signal_code SigCancelled = 2"

record ExecutionControl =
  ctl_deadline :: "instant option"
  ctl_signal :: nat

definition new_control :: "instant \<Rightarrow> duration option \<Rightarrow> ExecutionControl" where
  "new_control now timeout =
     \<lparr>ctl_deadline = map_option (\<lambda>d. now + d) timeout, ctl_signal = signal_code SigNone\<rparr>"

definition timed_out :: "ExecutionControl \<Rightarrow> instant \<Rightarrow> bool" where
  "timed_out c now = (case ctl_deadline c of None \<Rightarrow> False | Some deadline \<Rightarrow> deadline \<le> now)"

definition control_signal :: "ExecutionControl \<Rightarrow> ControlSignal" where
  "control_signal c =
     (if ctl_signal c = signal_code SigTimedOut then SigTimedOut
      else if ctl_signal c = signal_code SigCancelled then SigCancelled else SigNone)"

datatype UpdateDeadline = Interrupt | Continue

text \<open>The epoch callback; \<open>cancelled\<close> is what the token reads, \<open>now\<close> what the clock reads.\<close>

definition epoch_callback :: "bool \<Rightarrow> instant \<Rightarrow> ExecutionControl \<Rightarrow> UpdateDeadline \<times> ExecutionControl" where
  "epoch_callback cancelled now c =
     (if cancelled then (Interrupt, c\<lparr>ctl_signal := signal_code SigCancelled\<rparr>)
      else if timed_out c now then (Interrupt, c\<lparr>ctl_signal := signal_code SigTimedOut\<rparr>)
      else (Continue, c))"

record RuntimeLimiter =
  memory_limit :: "nat option"
  memory_exceeded :: bool

definition new_limiter :: "nat option \<Rightarrow> RuntimeLimiter" where
  "new_limiter limit = \<lparr>memory_limit = limit, memory_exceeded = False\<rparr>"

definition memory_growing :: "nat \<Rightarrow> RuntimeLimiter \<Rightarrow> (string + bool) \<times> RuntimeLimiter" where
  "memory_growing desired lim =
     (case memory_limit lim of
        Some limit \<Rightarrow>
          if limit < desired
          then (Inl (''linear memory growth to '' @ dec desired @ '' bytes exceeds configured limit of ''
                  @ dec limit @ '' bytes''), lim\<lparr>memory_exceeded := True\<rparr>)
          else (Inr True, lim)
      | None \<Rightarrow> (Inr True, lim))"

text \<open>\<^verbatim>\<open>status_for_error\<close> and \<^verbatim>\<open>status_for_p2_error\<close>\<close>

definition status_for_error :: "RuntimeLimiter \<Rightarrow> ExecutionControl \<Rightarrow> ExecutionStatus" where
  "status_for_error lim c =
     (case control_signal c of
        SigTimedOut \<Rightarrow> TimedOut
      | SigCancelled \<Rightarrow> Cancelled
      | SigNone \<Rightarrow> if memory_exceeded lim then MemoryLimitExceeded else RuntimeError)"

subsection \<open>Guests\<close>

text \<open>What a guest causes in the host, in order.\<close>

datatype guest_event =
    Tick bool instant \<comment> \<open>an epoch check: the token and the clock\<close>
  | Grow nat \<comment> \<open>a memory grows to this many bytes\<close>
  | WriteOut string
  | WriteErr string

text \<open>An error of a call: the exit code found in its chain, and the message.\<close>

datatype call_error = CallError (exit_code_in: "int option") (message: string)

record store =
  st_control :: ExecutionControl
  st_limiter :: RuntimeLimiter
  st_stdout :: string
  st_stderr :: string

text \<open>
  Running a guest up to its end \<open>final\<close>: an interrupt or a refused growth ends it early, with an
  error that carries no exit code.
\<close>

fun run_guest :: "string \<Rightarrow> guest_event list \<Rightarrow> call_error + 'r \<Rightarrow> store \<Rightarrow> (call_error + 'r) \<times> store" where
  "run_guest trap_text [] final s = (final, s)"
| "run_guest trap_text (Tick cancelled now # evs) final s =
     (case epoch_callback cancelled now (st_control s) of
        (Interrupt, c) \<Rightarrow> (Inl (CallError None trap_text), s\<lparr>st_control := c\<rparr>)
      | (Continue, c) \<Rightarrow> run_guest trap_text evs final (s\<lparr>st_control := c\<rparr>))"
| "run_guest trap_text (Grow desired # evs) final s =
     (case memory_growing desired (st_limiter s) of
        (Inl e, lim) \<Rightarrow> (Inl (CallError None e), s\<lparr>st_limiter := lim\<rparr>)
      | (Inr _, lim) \<Rightarrow> run_guest trap_text evs final (s\<lparr>st_limiter := lim\<rparr>))"
| "run_guest trap_text (WriteOut bytes # evs) final s =
     run_guest trap_text evs final (s\<lparr>st_stdout := st_stdout s @ bytes\<rparr>)"
| "run_guest trap_text (WriteErr bytes # evs) final s =
     run_guest trap_text evs final (s\<lparr>st_stderr := st_stderr s @ bytes\<rparr>)"

text \<open>
  What one execution meets in Wasmtime: the guest code run while instantiating and how that ends,
  the lookup of the entry point, and the call.
\<close>

record 'r guest =
  g_trap_text :: string
  g_inst_events :: "guest_event list"
  g_inst_final :: "call_error + unit"
  g_lookup_error :: "string option"
  g_call_events :: "guest_event list"
  g_call_final :: "call_error + 'r"
  g_started :: nat
  g_elapsed :: duration

definition new_store :: "instant \<Rightarrow> ExecutionRequest \<Rightarrow> store" where
  "new_store now r =
     \<lparr>st_control = new_control now (lim_timeout (req_limits r)),
      st_limiter = new_limiter (lim_memory_bytes (req_limits r)), st_stdout = [], st_stderr = []\<rparr>"

text \<open>\<^verbatim>\<open>PreparedArtifact::result\<close> and \<^verbatim>\<open>result_p2\<close>\<close>

definition make_result ::
  "ExecutionStatus \<Rightarrow> int option \<Rightarrow> store \<Rightarrow> 'r guest \<Rightarrow> string option \<Rightarrow> RuntimeExecutionResult" where
  "make_result status code s g err =
     \<lparr>res_status = status, res_exit_code = code, res_stdout = st_stdout s, res_stderr = st_stderr s,
      res_duration = g_elapsed g, res_started = g_started g, res_error = err\<rparr>"

text \<open>The classification of an error that is neither an interruption nor a memory failure.\<close>

definition classify_error :: "store \<Rightarrow> 'r guest \<Rightarrow> call_error \<Rightarrow> RuntimeExecutionResult" where
  "classify_error s g e =
     (case exit_code_in e of
        Some code \<Rightarrow>
          make_result (if code = 0 then Completed else GuestExitNonZero) (Some code) s g
            (if code \<noteq> 0 then Some (message e) else None)
      | None \<Rightarrow> make_result GuestTrap None s g (Some (message e)))"

text \<open>The three interruptions come first, whatever the call returned.\<close>

definition interrupted :: "store \<Rightarrow> 'r guest \<Rightarrow> RuntimeExecutionResult option" where
  "interrupted s g =
     (case control_signal (st_control s) of
        SigTimedOut \<Rightarrow> Some (make_result TimedOut None s g (Some ''execution exceeded its timeout''))
      | SigCancelled \<Rightarrow> Some (make_result Cancelled None s g (Some ''execution was cancelled''))
      | SigNone \<Rightarrow>
          if memory_exceeded (st_limiter s)
          then Some (make_result MemoryLimitExceeded None s g (Some ''execution exceeded its memory limit''))
          else None)"

text \<open>The body of \<^verbatim>\<open>execute\<close> for a core module, from the fresh store on.\<close>

definition execute_p1 :: "instant \<Rightarrow> unit guest \<Rightarrow> ExecutionRequest \<Rightarrow> RuntimeExecutionResult" where
  "execute_p1 now g r =
     (case run_guest (g_trap_text g) (g_inst_events g) (g_inst_final g) (new_store now r) of
        (Inl e, s) \<Rightarrow>
          make_result (status_for_error (st_limiter s) (st_control s)) None s g (Some (message e))
      | (Inr _, s) \<Rightarrow>
          (case g_lookup_error g of
             Some e \<Rightarrow> make_result (status_for_error (st_limiter s) (st_control s)) None s g (Some e)
           | None \<Rightarrow>
               (case run_guest (g_trap_text g) (g_call_events g) (g_call_final g) s of
                  (outcome, s') \<Rightarrow>
                    (case interrupted s' g of
                       Some res \<Rightarrow> res
                     | None \<Rightarrow>
                         (case outcome of
                            Inr _ \<Rightarrow> make_result Completed (Some 0) s' g None
                          | Inl e \<Rightarrow> classify_error s' g e)))))"

text \<open>
  \<^verbatim>\<open>execute_p2\<close>: the command's \<^verbatim>\<open>run\<close> returns a result of its own, \<open>True\<close> for
  \<^verbatim>\<open>Ok(())\<close>; the exported function is part of the instance, so there is no lookup.
\<close>

definition execute_p2 :: "instant \<Rightarrow> bool guest \<Rightarrow> ExecutionRequest \<Rightarrow> RuntimeExecutionResult" where
  "execute_p2 now g r =
     (case run_guest (g_trap_text g) (g_inst_events g) (g_inst_final g) (new_store now r) of
        (Inl e, s) \<Rightarrow>
          make_result (status_for_error (st_limiter s) (st_control s)) None s g (Some (message e))
      | (Inr _, s) \<Rightarrow>
          (case run_guest (g_trap_text g) (g_call_events g) (g_call_final g) s of
             (outcome, s') \<Rightarrow>
               (case interrupted s' g of
                  Some res \<Rightarrow> res
                | None \<Rightarrow>
                    (case outcome of
                       Inr True \<Rightarrow> make_result Completed (Some 0) s' g None
                     | Inr False \<Rightarrow>
                         make_result GuestExitNonZero (Some 1) s' g (Some ''guest exited with a non-zero status'')
                     | Inl e \<Rightarrow> classify_error s' g e))))"

subsection \<open>Prepared artifacts\<close>

text \<open>Which of the optional parts a prepared artifact has.\<close>

record PreparedArtifact =
  p_id :: string
  p_module :: bool
  p_p1_linker :: bool
  p_component :: bool
  p_p2_linker :: bool
  p_http_pre :: bool
  p_http_component :: bool
  p_http_linker :: bool
  p_http_engine :: bool
  p_http_ticker :: bool

datatype ArtifactFormat = CoreModule | ComponentFormat

text \<open>
  What \<^verbatim>\<open>prepare_with_world\<close> builds on success, by format, requested world, whether a
  compiled cache is used, and the option \<^verbatim>\<open>pre_resolved_imports\<close>: a component restored
  from the cache keeps only its HTTP parts.
\<close>

definition prepared_cached :: "string \<Rightarrow> bool \<Rightarrow> PreparedArtifact" where
  "prepared_cached artifact pre_resolved =
     \<lparr>p_id = artifact, p_module = False, p_p1_linker = False, p_component = False, p_p2_linker = False,
      p_http_pre = pre_resolved, p_http_component = \<not> pre_resolved, p_http_linker = \<not> pre_resolved,
      p_http_engine = True, p_http_ticker = True\<rparr>"

definition prepared_with_world ::
  "string \<Rightarrow> ArtifactFormat \<Rightarrow> string option \<Rightarrow> bool \<Rightarrow> bool \<Rightarrow> PreparedArtifact" where
  "prepared_with_world artifact format world cached pre_resolved =
     (case format of
        CoreModule \<Rightarrow>
          \<lparr>p_id = artifact, p_module = True, p_p1_linker = True, p_component = False, p_p2_linker = False,
           p_http_pre = False, p_http_component = False, p_http_linker = False, p_http_engine = False,
           p_http_ticker = False\<rparr>
      | ComponentFormat \<Rightarrow>
          if cached then prepared_cached artifact pre_resolved
          else
            \<lparr>p_id = artifact, p_module = False, p_p1_linker = False, p_component = True, p_p2_linker = True,
             p_http_pre = (world = Some ''wasi:http/proxy''), p_http_component = False, p_http_linker = False,
             p_http_engine = True, p_http_ticker = True\<rparr>)"

definition wasi_preview2_entrypoint :: "string \<Rightarrow> PreparedArtifact \<Rightarrow> string \<Rightarrow> string" where
  "wasi_preview2_entrypoint p2 p p1 = (if p_component p \<or> p_http_pre p \<or> p_http_component p then p2 else p1)"

text \<open>
  \<^verbatim>\<open>PreparedArtifact::execute\<close>; \<open>None\<close> is the panic of an \<^verbatim>\<open>unwrap\<close> on an
  absent linker or module. A guest sees its arguments, led by the program name, the environment of
  the request, and is entered at its entry point. The names of the entry points are constants of
  another crate.
\<close>

type_synonym 'r program = "string list \<Rightarrow> (string \<times> string) list \<Rightarrow> string \<Rightarrow> 'r guest"

definition guest_args :: "ExecutionRequest \<Rightarrow> string list" where
  "guest_args r = req_program r # req_args r"

definition execute ::
  "string \<Rightarrow> instant \<Rightarrow> unit program \<Rightarrow> bool program \<Rightarrow> PreparedArtifact \<Rightarrow> ExecutionRequest
    \<Rightarrow> (string + RuntimeExecutionResult) option" where
  "execute p2_entrypoint now g1 g2 p r =
     (case validate r of
        Inl e \<Rightarrow> Some (Inl e)
      | Inr _ \<Rightarrow>
          if req_artifact r \<noteq> p_id p
          then Some (Inl (''execution request artifact '' @ [CHR 0x27] @ req_artifact r @ [CHR 0x27]
            @ '' does not match prepared artifact '' @ [CHR 0x27] @ p_id p @ [CHR 0x27]))
          else if p_component p then
            (if req_entrypoint r \<noteq> p2_entrypoint
             then Some (Inl (''unsupported WASI Preview 2 entrypoint '' @ [CHR 0x27] @ req_entrypoint r
               @ [CHR 0x27] @ ''; expected '' @ p2_entrypoint))
             else if p_p2_linker p
             then Some (Inr (execute_p2 now (g2 (guest_args r) (req_env r) (req_entrypoint r)) r)) else None)
          else if p_p1_linker p \<and> p_module p
          then Some (Inr (execute_p1 now (g1 (guest_args r) (req_env r) (req_entrypoint r)) r))
          else None)"

text \<open>
  \<^verbatim>\<open>measure_instantiation\<close>. It sets no epoch deadline and calls nothing, so all it meets in
  Wasmtime is how the instantiation under a memory limit ends: an error or the time it took.
\<close>

definition measure_instantiation ::
  "(nat option \<Rightarrow> string + duration) \<Rightarrow> (nat option \<Rightarrow> string + duration) \<Rightarrow> PreparedArtifact
    \<Rightarrow> ExecutionRequest \<Rightarrow> (string + duration) option" where
  "measure_instantiation instance_p1 instance_p2 p r =
     (case validate r of
        Inl e \<Rightarrow> Some (Inl e)
      | Inr _ \<Rightarrow>
          if req_artifact r \<noteq> p_id p
          then Some (Inl ''execution request artifact does not match prepared artifact'')
          else if p_component p \<and> p_p2_linker p then Some (instance_p2 (lim_memory_bytes (req_limits r)))
          else if p_p1_linker p \<and> p_module p then Some (instance_p1 (lim_memory_bytes (req_limits r)))
          else None)"

subsection \<open>HTTP executions\<close>

record HttpResponse =
  http_status :: nat
  http_headers :: "(string \<times> string) list"
  http_body :: string

text \<open>
  What one HTTP execution meets outside the repository: errors of building the request and the
  resources, the instantiation, the handler call, and the outcome of the task that drains the
  response (a response, or the error of a dropped or broken one).
\<close>

record http_guest =
  h_request_error :: "string option"
  h_resource_error :: "string option"
  h_pre_error :: "string option"
  h_guest :: "unit guest"
  h_response :: "string + HttpResponse"

definition http_store :: "instant \<Rightarrow> ExecutionLimits \<Rightarrow> store" where
  "http_store now limits =
     \<lparr>st_control = new_control now (lim_timeout limits),
      st_limiter = new_limiter (lim_memory_bytes limits), st_stdout = [], st_stderr = []\<rparr>"

text \<open>From the awaited handler on.\<close>

definition http_outcome :: "http_guest \<Rightarrow> (call_error + unit) \<times> store \<Rightarrow> string + HttpResponse" where
  "http_outcome h run =
     (case run of (call_result, s) \<Rightarrow>
        (case call_result of
           Inl e \<Rightarrow> Inl (''WASI HTTP incoming handler failed: '' @ message e)
         | Inr _ \<Rightarrow>
             (case h_response h of
                Inl e \<Rightarrow> Inl e
              | Inr response \<Rightarrow>
                  (case control_signal (st_control s) of
                     SigCancelled \<Rightarrow> Inl ''HTTP execution was cancelled''
                   | SigTimedOut \<Rightarrow> Inl ''HTTP execution exceeded its timeout''
                   | SigNone \<Rightarrow>
                       if memory_exceeded (st_limiter s) then Inl ''HTTP execution exceeded its memory limit''
                       else Inr response))))"

definition http_call :: "http_guest \<Rightarrow> store \<Rightarrow> (call_error + unit) \<times> store" where
  "http_call h s = run_guest (g_trap_text (h_guest h)) (g_call_events (h_guest h)) (g_call_final (h_guest h)) s"

definition execute_http :: "instant \<Rightarrow> http_guest \<Rightarrow> PreparedArtifact \<Rightarrow> ExecutionLimits \<Rightarrow> string + HttpResponse" where
  "execute_http now h p limits =
     (if \<not> p_http_engine p then Inl ''HTTP engine was not prepared''
      else if \<not> p_http_ticker p then Inl ''HTTP epoch ticker was not prepared''
      else (case h_request_error h of
         Some _ \<Rightarrow> Inl ''invalid HTTP request''
       | None \<Rightarrow>
      (case h_resource_error h of
         Some e \<Rightarrow> Inl e
       | None \<Rightarrow>
      if \<not> p_http_pre p \<and> \<not> p_http_component p then Inl ''HTTP component was not prepared''
      else if \<not> p_http_pre p \<and> \<not> p_http_linker p then Inl ''HTTP linker was not prepared''
      else (case (if p_http_pre p then None else h_pre_error h) of
         Some e \<Rightarrow> Inl e
       | None \<Rightarrow>
      (case run_guest (g_trap_text (h_guest h)) (g_inst_events (h_guest h)) (g_inst_final (h_guest h)) (http_store now limits) of
         (Inl e, _) \<Rightarrow> Inl (message e)
       | (Inr _, s) \<Rightarrow> http_outcome h (http_call h s))))))"

end
