(* ===== verification/Rt_Cache.thy ===== *)
theory Rt_Cache
  imports Pit_Strings "HOL-Library.AList" "HOL-Library.List_Lexorder" "HOL-Library.Char_ord"
begin

section \<open>The compiled-artifact cache\<close>

text \<open>
  \<^verbatim>\<open>crates/pit-runtime/src/lib.rs\<close>, lines 433 to 905 and the cached branch of
  \<^verbatim>\<open>prepare_with_world\<close>: a directory per prefix, digest and fingerprint with a compiled
  artifact and its metadata, looked up by a full comparison of the metadata, published by two atomic
  writes, and bounded by evicting the entries modified longest ago. The file system is the list of
  these directories in the order a scan meets them; which deletions and writes succeed, and the
  modification times, come from the environment. Wasmtime's compiler and deserialiser, SHA-256 and
  the JSON encoding are parameters.
\<close>

subsection \<open>Data\<close>

datatype ReadinessState = Cold | Warm | Hot

datatype CompiledCacheSource = ColdCompiled | WarmRestored

text \<open>The other durations of a report, in its order.\<close>

record PreparationStages =
  stage_metadata_lookup :: duration
  stage_compile_fingerprint :: duration
  stage_artifact_digest :: duration
  stage_file_read :: duration
  stage_deserialize :: duration
  stage_http_linker :: duration
  stage_linker_preparation :: duration
  stage_object_construction :: duration

definition default_stages :: PreparationStages where
  "default_stages =
     \<lparr>stage_metadata_lookup = 0, stage_compile_fingerprint = 0, stage_artifact_digest = 0, stage_file_read = 0,
      stage_deserialize = 0, stage_http_linker = 0, stage_linker_preparation = 0, stage_object_construction = 0\<rparr>"

record PreparationReport =
  pr_readiness :: ReadinessState
  pr_source :: CompiledCacheSource
  pr_compile_duration :: duration
  pr_restore_duration :: duration
  pr_publication_duration :: duration
  pr_stages :: PreparationStages

definition default_report :: PreparationReport where
  "default_report =
     \<lparr>pr_readiness = Cold, pr_source = ColdCompiled, pr_compile_duration = 0, pr_restore_duration = 0,
      pr_publication_duration = 0, pr_stages = default_stages\<rparr>"

record CompiledCacheMetadata =
  schema_version :: nat
  artifact_digest :: string
  meta_fingerprint :: string
  meta_wasmtime :: string
  meta_target :: string
  meta_architecture :: string
  meta_format :: string
  meta_world :: string
  wasm_size_bytes :: nat
  compiled_size_bytes :: nat

text \<open>The constants of the build: the platform strings of \<^verbatim>\<open>std::env::consts\<close>.\<close>

record platform =
  pf_arch :: string
  pf_os :: string
  pf_family :: string

definition COMPILED_CACHE_SCHEMA :: nat where
  "COMPILED_CACHE_SCHEMA = 2"

definition WASMTIME_VERSION :: string where
  "WASMTIME_VERSION = ''39.0.2''"

definition target_of :: "platform \<Rightarrow> string" where
  "target_of pf = pf_arch pf @ ''-'' @ pf_os pf @ ''-'' @ pf_family pf"

text \<open>
  \<^verbatim>\<open>CompileFingerprint\<close> and its value: the version and the hash of the JSON rendering.
  \<open>sha_hex\<close> and \<open>to_json\<close> are parameters; \<^verbatim>\<open>{:016x}\<close> of the engine's hash is given as a string.
\<close>

record CompileFingerprint =
  fp_schema_version :: nat
  fp_wasmtime :: string
  fp_target :: string
  fp_architecture :: string
  fp_format :: string
  fp_world :: string
  fp_engine_hash :: string

definition fingerprint_for_engine :: "platform \<Rightarrow> string \<Rightarrow> string \<Rightarrow> string \<Rightarrow> CompileFingerprint" where
  "fingerprint_for_engine pf engine_hash format world =
     \<lparr>fp_schema_version = COMPILED_CACHE_SCHEMA, fp_wasmtime = WASMTIME_VERSION, fp_target = target_of pf,
      fp_architecture = pf_arch pf, fp_format = format, fp_world = world, fp_engine_hash = engine_hash\<rparr>"

definition fingerprint_value :: "(string \<Rightarrow> string) \<Rightarrow> (CompileFingerprint \<Rightarrow> string) \<Rightarrow> CompileFingerprint \<Rightarrow> string" where
  "fingerprint_value sha_hex to_json fp = ''v'' @ dec (fp_schema_version fp) @ ''-'' @ sha_hex (to_json fp)"

definition engine_fingerprint ::
  "(string \<Rightarrow> string) \<Rightarrow> (CompileFingerprint \<Rightarrow> string) \<Rightarrow> platform \<Rightarrow> string \<Rightarrow> string \<Rightarrow> string \<Rightarrow> string" where
  "engine_fingerprint sha_hex to_json pf engine_hash format world =
     fingerprint_value sha_hex to_json (fingerprint_for_engine pf engine_hash format world)"

definition digest_of_bytes :: "(string \<Rightarrow> string) \<Rightarrow> string \<Rightarrow> string" where
  "digest_of_bytes sha_hex bytes = ''sha256:'' @ sha_hex bytes"

subsection \<open>The directories\<close>

text \<open>Prefix, digest and fingerprint name a directory below the cache root.\<close>

type_synonym cache_key = "string \<times> string \<times> string"

record cache_dir =
  artifact_file :: "(string \<times> nat) option" \<comment> \<open>contents and modification time\<close>
  metadata_file :: "string option"

type_synonym cache_fs = "(cache_key \<times> cache_dir) list"

record cache_io =
  io_rmdir :: "cache_key \<Rightarrow> bool" \<comment> \<open>\<^verbatim>\<open>remove_dir_all\<close> succeeds\<close>
  io_rmfile :: "cache_key \<Rightarrow> bool"
  io_write_artifact :: "string option" \<comment> \<open>the error of the write, if it fails\<close>
  io_write_metadata :: "string option"
  io_mtime :: nat
  io_compile_time :: duration
  io_restore_time :: duration
  io_publication_time :: duration

definition cache_entry_paths :: "string \<Rightarrow> string \<Rightarrow> cache_key" where
  "cache_entry_paths digest fingerprint =
     (let hex = (case strip_prefix ''sha256:'' digest of Some hex \<Rightarrow> hex | None \<Rightarrow> digest)
      in (take 2 hex, hex, fingerprint))"

definition remove_cache_dir :: "cache_io \<Rightarrow> cache_key \<Rightarrow> cache_fs \<Rightarrow> cache_fs" where
  "remove_cache_dir io k fs = (if io_rmdir io k then AList.delete k fs else fs)"

definition remove_cache_entry :: "cache_io \<Rightarrow> cache_key \<Rightarrow> cache_fs \<Rightarrow> cache_fs" where
  "remove_cache_entry io k fs =
     (let fs' = remove_cache_dir io k fs in
      case map_of fs' k of
        None \<Rightarrow> fs'
      | Some d \<Rightarrow> if io_rmfile io k then AList.update k (d\<lparr>metadata_file := None\<rparr>) fs' else fs')"

text \<open>
  \<^verbatim>\<open>write_atomic\<close> to one of the two files: a failed write leaves the file as it was, since the
  new contents go to a temporary file that is renamed at the end.
\<close>

definition dir_at :: "cache_fs \<Rightarrow> cache_key \<Rightarrow> cache_dir" where
  "dir_at fs k = (case map_of fs k of Some d \<Rightarrow> d | None \<Rightarrow> \<lparr>artifact_file = None, metadata_file = None\<rparr>)"

definition write_artifact :: "cache_io \<Rightarrow> cache_key \<Rightarrow> string \<Rightarrow> cache_fs \<Rightarrow> (string + unit) \<times> cache_fs" where
  "write_artifact io k bytes fs =
     (case io_write_artifact io of
        Some e \<Rightarrow> (Inl e, fs)
      | None \<Rightarrow> (Inr (), AList.update k ((dir_at fs k)\<lparr>artifact_file := Some (bytes, io_mtime io)\<rparr>) fs))"

definition write_metadata :: "cache_io \<Rightarrow> cache_key \<Rightarrow> string \<Rightarrow> cache_fs \<Rightarrow> (string + unit) \<times> cache_fs" where
  "write_metadata io k bytes fs =
     (case io_write_metadata io of
        Some e \<Rightarrow> (Inl e, fs)
      | None \<Rightarrow> (Inr (), AList.update k ((dir_at fs k)\<lparr>metadata_file := Some bytes\<rparr>) fs))"

subsection \<open>Eviction\<close>

text \<open>The scan: modification time, size and directory of every compiled artifact.\<close>

definition scan_entries :: "cache_fs \<Rightarrow> (nat \<times> nat \<times> cache_key) list" where
  "scan_entries fs =
     concat (map (\<lambda>(k, d). case artifact_file d of None \<Rightarrow> [] | Some (bytes, mtime) \<Rightarrow> [(mtime, length bytes, k)]) fs)"

fun evict_loop :: "cache_io \<Rightarrow> nat \<Rightarrow> nat \<Rightarrow> (nat \<times> nat \<times> cache_key) list \<Rightarrow> cache_fs \<Rightarrow> cache_fs" where
  "evict_loop io max_bytes used [] fs = fs"
| "evict_loop io max_bytes used ((mtime, len, k) # entries) fs =
     (if used \<le> max_bytes then fs
      else evict_loop io max_bytes (used - len) entries (remove_cache_dir io k fs))"

definition evict_compiled_cache :: "cache_io \<Rightarrow> nat \<Rightarrow> cache_fs \<Rightarrow> cache_fs" where
  "evict_compiled_cache io max_bytes fs =
     (let entries = scan_entries fs
      in evict_loop io max_bytes (sum_list (map (\<lambda>(_, len, _). len) entries)) (sort_key fst entries) fs)"

subsection \<open>Lookup and publication\<close>

text \<open>What a request asks for: digest, fingerprint, source, format and world.\<close>

record cache_request =
  cr_digest :: string
  cr_fingerprint :: string
  cr_source :: string
  cr_format :: string
  cr_world :: string

definition expected_metadata :: "platform \<Rightarrow> cache_request \<Rightarrow> nat \<Rightarrow> CompiledCacheMetadata" where
  "expected_metadata pf q compiled_size =
     \<lparr>schema_version = COMPILED_CACHE_SCHEMA, artifact_digest = cr_digest q, meta_fingerprint = cr_fingerprint q,
      meta_wasmtime = WASMTIME_VERSION, meta_target = target_of pf, meta_architecture = pf_arch pf,
      meta_format = cr_format q, meta_world = cr_world q, wasm_size_bytes = length (cr_source q),
      compiled_size_bytes = compiled_size\<rparr>"

text \<open>The conjunction the lookup evaluates; \<open>compiled_size\<close> is that of the artifact file, if there is one.\<close>

definition metadata_valid :: "platform \<Rightarrow> cache_request \<Rightarrow> nat option \<Rightarrow> CompiledCacheMetadata \<Rightarrow> bool" where
  "metadata_valid pf q compiled_size m \<longleftrightarrow>
     schema_version m = COMPILED_CACHE_SCHEMA \<and> artifact_digest m = cr_digest q
     \<and> meta_fingerprint m = cr_fingerprint q \<and> meta_wasmtime m = WASMTIME_VERSION
     \<and> meta_target m = target_of pf \<and> meta_architecture m = pf_arch pf
     \<and> meta_format m = cr_format q \<and> meta_world m = cr_world q
     \<and> wasm_size_bytes m = length (cr_source q) \<and> compiled_size = Some (compiled_size_bytes m)"

definition artifact_size :: "cache_fs \<Rightarrow> cache_key \<Rightarrow> nat option" where
  "artifact_size fs k = (case artifact_file (dir_at fs k) of None \<Rightarrow> None | Some (bytes, _) \<Rightarrow> Some (length bytes))"

text \<open>Wasmtime and \<^verbatim>\<open>serde_json\<close>, as far as the cache uses them.\<close>

record cache_env =
  ce_platform :: platform
  ce_precompile :: "string \<Rightarrow> string + string"
  ce_deserialize :: "string \<Rightarrow> string + unit"
  ce_to_json :: "CompiledCacheMetadata \<Rightarrow> string"
  ce_from_json :: "string \<Rightarrow> CompiledCacheMetadata option"

definition cache_hit :: "cache_env \<Rightarrow> cache_request \<Rightarrow> cache_fs \<Rightarrow> string \<Rightarrow> bool" where
  "cache_hit env q fs metadata_bytes =
     (let stored = artifact_size fs (cache_entry_paths (cr_digest q) (cr_fingerprint q)) in
      (case ce_from_json env metadata_bytes of
         None \<Rightarrow> False
       | Some m \<Rightarrow> metadata_valid (ce_platform env) q stored m)
      \<and> (case stored of None \<Rightarrow> 0 | Some n \<Rightarrow> n) \<noteq> 0)"

record CompiledCacheEntry =
  entry_source :: CompiledCacheSource
  entry_compile_duration :: duration
  entry_restore_duration :: duration
  entry_publication_duration :: duration

definition publish ::
  "cache_env \<Rightarrow> cache_io \<Rightarrow> nat \<Rightarrow> cache_request \<Rightarrow> cache_fs \<Rightarrow> (string + CompiledCacheEntry) \<times> cache_fs" where
  "publish env io max_bytes q fs =
     (let k = cache_entry_paths (cr_digest q) (cr_fingerprint q) in
      case ce_precompile env (cr_source q) of
        Inl e \<Rightarrow> (Inl e, fs)
      | Inr bytes \<Rightarrow>
          (case write_artifact io k bytes fs of
             (Inl e, fs1) \<Rightarrow> (Inl e, fs1)
           | (Inr _, fs1) \<Rightarrow>
               (case write_metadata io k
                   (ce_to_json env (expected_metadata (ce_platform env) q (length bytes))) fs1 of
                  (Inl e, fs2) \<Rightarrow> (Inl e, fs2)
                | (Inr _, fs2) \<Rightarrow> 
                     (Inr \<lparr>entry_source = ColdCompiled, entry_compile_duration = io_compile_time io,
                           entry_restore_duration = 0, entry_publication_duration = io_publication_time io\<rparr>,
                      evict_compiled_cache io max_bytes fs2))))"

definition compiled_cache_entry ::
  "cache_env \<Rightarrow> cache_io \<Rightarrow> nat \<Rightarrow> cache_request \<Rightarrow> cache_fs \<Rightarrow> (string + CompiledCacheEntry) \<times> cache_fs" where
  "compiled_cache_entry env io max_bytes q fs =
     (let k = cache_entry_paths (cr_digest q) (cr_fingerprint q) in
      case metadata_file (dir_at fs k) of
        None \<Rightarrow> publish env io max_bytes q fs
      | Some metadata_bytes \<Rightarrow>
          if cache_hit env q fs metadata_bytes then
            (Inr \<lparr>entry_source = WarmRestored, entry_compile_duration = 0,
                  entry_restore_duration = io_restore_time io, entry_publication_duration = 0\<rparr>, fs)
          else publish env io max_bytes q (remove_cache_entry io k fs))"

subsection \<open>Preparing a component from the cache\<close>

datatype CompiledCacheRestoreMode = Bytes | FileBacked

text \<open>
  Reading the artifact back and deserialising it. In mode \<^verbatim>\<open>Bytes\<close> a failed read returns
  from the caller at once (\<open>Inl\<close>); in mode \<^verbatim>\<open>FileBacked\<close> it is an error of the
  deserialiser like any other.
\<close>

definition load_artifact ::
  "CompiledCacheRestoreMode \<Rightarrow> cache_env \<Rightarrow> cache_request \<Rightarrow> cache_fs \<Rightarrow> string + (string + unit)" where
  "load_artifact mode env q fs =
     (case artifact_file (dir_at fs (cache_entry_paths (cr_digest q) (cr_fingerprint q))) of
        None \<Rightarrow> (case mode of Bytes \<Rightarrow> Inl ''failed to read compiled cache''
                 | FileBacked \<Rightarrow> Inr (Inl ''failed to read compiled cache''))
      | Some (bytes, _) \<Rightarrow> Inr (ce_deserialize env bytes))"

definition readiness_of :: "CompiledCacheSource \<Rightarrow> ReadinessState" where
  "readiness_of source = (case source of WarmRestored \<Rightarrow> Warm | ColdCompiled \<Rightarrow> Cold)"

text \<open>The report; \<open>elapsed\<close> is the time of the whole preparation, which replaces the restore time at the end.\<close>

definition report_of_entry :: "ReadinessState \<Rightarrow> duration \<Rightarrow> CompiledCacheEntry \<Rightarrow> PreparationReport" where
  "report_of_entry readiness elapsed entry =
     \<lparr>pr_readiness = readiness, pr_source = entry_source entry,
      pr_compile_duration = entry_compile_duration entry, pr_restore_duration = elapsed,
      pr_publication_duration = entry_publication_duration entry, pr_stages = default_stages\<rparr>"

text \<open>The rebuild after a warm entry failed to deserialise; \<open>io'\<close> is what this second attempt meets.\<close>

definition rebuild_entry ::
  "CompiledCacheRestoreMode \<Rightarrow> cache_env \<Rightarrow> cache_io \<Rightarrow> nat \<Rightarrow> duration \<Rightarrow> cache_request \<Rightarrow> string \<Rightarrow> cache_fs
    \<Rightarrow> (string + PreparationReport) \<times> cache_fs" where
  "rebuild_entry mode env io max_bytes elapsed q error fs =
     (case compiled_cache_entry env io max_bytes q
         (remove_cache_entry io (cache_entry_paths (cr_digest q) (cr_fingerprint q)) fs) of
        (Inl e, fs1) \<Rightarrow> (Inl e, fs1)
      | (Inr rebuilt, fs1) \<Rightarrow>
          (case load_artifact mode env q fs1 of
             Inl e \<Rightarrow> (Inl e, fs1)
           | Inr (Inl e) \<Rightarrow>
               (Inl (''compiled HTTP component deserialization failed after cache rebuild: '' @ error), fs1)
           | Inr (Inr _) \<Rightarrow> (Inr (report_of_entry Cold elapsed rebuilt), fs1)))"

definition prepare_from_cache ::
  "CompiledCacheRestoreMode \<Rightarrow> cache_env \<Rightarrow> cache_io \<Rightarrow> cache_io \<Rightarrow> nat \<Rightarrow> duration \<Rightarrow> cache_request \<Rightarrow> cache_fs
    \<Rightarrow> (string + PreparationReport) \<times> cache_fs" where
  "prepare_from_cache mode env io io' max_bytes elapsed q fs =
     (case compiled_cache_entry env io max_bytes q fs of
        (Inl e, fs1) \<Rightarrow> (Inl e, fs1)
      | (Inr entry, fs1) \<Rightarrow>
          (case load_artifact mode env q fs1 of
             Inl e \<Rightarrow> (Inl e, fs1)
           | Inr (Inr _) \<Rightarrow> (Inr (report_of_entry (readiness_of (entry_source entry)) elapsed entry), fs1)
           | Inr (Inl e) \<Rightarrow>
               if entry_source entry = WarmRestored then rebuild_entry mode env io' max_bytes elapsed q e fs1
               else (Inl ''compiled HTTP component deserialization failed'', fs1)))"

subsection \<open>The readiness query\<close>

definition warm_entry :: "cache_env \<Rightarrow> cache_key \<Rightarrow> cache_dir \<Rightarrow> bool" where
  "warm_entry env k d =
     (case k of (prefix, name, fingerprint) \<Rightarrow>
        (case (artifact_file d, metadata_file d) of
           (Some (bytes, _), Some metadata_bytes) \<Rightarrow>
             (case ce_from_json env metadata_bytes of
                None \<Rightarrow> False
              | Some m \<Rightarrow>
                  schema_version m = COMPILED_CACHE_SCHEMA \<and> artifact_digest m = ''sha256:'' @ name
                  \<and> meta_fingerprint m = fingerprint \<and> meta_wasmtime m = WASMTIME_VERSION
                  \<and> meta_target m = target_of (ce_platform env) \<and> meta_architecture m = pf_arch (ce_platform env)
                  \<and> compiled_size_bytes m = length bytes \<and> 0 < length bytes)
         | _ \<Rightarrow> False))"

definition digest_dirs :: "cache_fs \<Rightarrow> (string \<times> string) list" where
  "digest_dirs fs = remdups (map (\<lambda>((prefix, name, _), _). (prefix, name)) fs)"

definition warm_digests :: "cache_env \<Rightarrow> cache_fs \<Rightarrow> string list" where
  "warm_digests env fs =
     remdups_adj (sort
       (map (\<lambda>(prefix, name). ''sha256:'' @ name)
         (filter (\<lambda>(prefix, name). list_ex (\<lambda>((p, n, f), d). p = prefix \<and> n = name \<and> warm_entry env (p, n, f) d) fs)
           (digest_dirs fs))))"

end
