(* ===== verification/Rt_Artifact.thy ===== *)
theory Rt_Artifact
  imports Rt_Exec Rt_Cache
begin

section \<open>Artifacts, output capture and engine configuration\<close>

text \<open>
  \<^verbatim>\<open>crates/pit-runtime/src/lib.rs\<close>: where an artifact comes from and what it is called
  (lines 67 to 157), reading it and finding its format, the configuration of an engine, the default
  root of the compiled cache, and the buffer a guest's output is captured in. The file system, the
  environment, the WebAssembly parser and SHA-256 are parameters.
\<close>

subsection \<open>Identity\<close>

datatype ArtifactSource = PathSource string | BytesSource string

text \<open>The digest is computed at most once, for all clones of an artifact.\<close>

record WasmArtifact =
  art_id :: string
  art_source :: ArtifactSource
  art_digest :: "string option"

definition from_path :: "string \<Rightarrow> WasmArtifact" where
  "from_path path = \<lparr>art_id = ''path:'' @ path, art_source = PathSource path, art_digest = None\<rparr>"

definition from_path_with_digest :: "string \<Rightarrow> string \<Rightarrow> WasmArtifact" where
  "from_path_with_digest path digest = \<lparr>art_id = digest, art_source = PathSource path, art_digest = Some digest\<rparr>"

text \<open>\<open>sha\<close> is SHA-256 in hexadecimal.\<close>

definition from_bytes :: "(string \<Rightarrow> string) \<Rightarrow> string \<Rightarrow> WasmArtifact" where
  "from_bytes sha bytes =
     \<lparr>art_id = ''sha256:'' @ sha bytes, art_source = BytesSource bytes, art_digest = Some (''sha256:'' @ sha bytes)\<rparr>"

definition digest_once :: "(string \<Rightarrow> string) \<Rightarrow> string \<Rightarrow> WasmArtifact \<Rightarrow> string \<times> WasmArtifact" where
  "digest_once sha bytes a =
     (case art_digest a of
        Some d \<Rightarrow> (d, a)
      | None \<Rightarrow> (let d = ''sha256:'' @ sha bytes in (d, a\<lparr>art_digest := Some d\<rparr>)))"

text \<open>
  The last component of a path, unless the path ends in \<^verbatim>\<open>..\<close> or has none. Empty components and
  \<^verbatim>\<open>.\<close> are no components.
\<close>

definition file_name :: "string \<Rightarrow> string option" where
  "file_name path =
     (let parts = filter (\<lambda>p. p \<noteq> [] \<and> p \<noteq> ''.'') (split_on (CHR ''/'') path)
      in if parts = [] \<or> last parts = ''..'' then None else Some (last parts))"

definition program_name :: "(string \<Rightarrow> bool) \<Rightarrow> WasmArtifact \<Rightarrow> string" where
  "program_name utf8 a =
     (case art_source a of
        PathSource path \<Rightarrow>
          (case file_name path of
             Some n \<Rightarrow> if utf8 n then n else ''pit-wasm''
           | None \<Rightarrow> ''pit-wasm'')
      | BytesSource _ \<Rightarrow> ''pit-wasm'')"

subsection \<open>Reading an artifact\<close>

datatype path_state = PathMissing | NotAFile | Unreadable | FileBytes string

definition read_artifact :: "(string \<Rightarrow> path_state) \<Rightarrow> ArtifactSource \<Rightarrow> string + string" where
  "read_artifact fs source =
     (case source of
        BytesSource bytes \<Rightarrow> Inr bytes
      | PathSource path \<Rightarrow>
          (case fs path of
             PathMissing \<Rightarrow> Inl (''WASM file does not exist: '' @ path)
           | NotAFile \<Rightarrow> Inl (''WASM path is not a file: '' @ path)
           | Unreadable \<Rightarrow> Inl (''failed to read WASM artifact '' @ path)
           | FileBytes bytes \<Rightarrow> Inr bytes))"

text \<open>What the parser yields: errors, version payloads with their encoding, other payloads.\<close>

datatype payload = ParseError string | Version ArtifactFormat | OtherPayload

fun detect_format :: "payload list \<Rightarrow> string + ArtifactFormat" where
  "detect_format [] = Inl ''invalid WebAssembly artifact''"
| "detect_format (ParseError e # _) = Inl e"
| "detect_format (Version f # _) = Inr f"
| "detect_format (OtherPayload # ps) = detect_format ps"

definition open_artifact ::
  "(string \<Rightarrow> path_state) \<Rightarrow> (string \<Rightarrow> payload list) \<Rightarrow> (string \<Rightarrow> string) \<Rightarrow> WasmArtifact
    \<Rightarrow> (string + (string \<times> string \<times> ArtifactFormat)) \<times> WasmArtifact" where
  "open_artifact fs parse sha a =
     (case read_artifact fs (art_source a) of
        Inl e \<Rightarrow> (Inl e, a)
      | Inr bytes \<Rightarrow>
          (case digest_once sha bytes a of
             (d, a') \<Rightarrow> (map_sum id (\<lambda>f. (bytes, d, f)) (detect_format (parse bytes)), a')))"

subsection \<open>Engines\<close>

datatype RuntimeAllocationMode = OnDemand | Pooling usize

record PitRuntimeConfig =
  rc_compiled_cache_restore :: CompiledCacheRestoreMode
  rc_allocation :: RuntimeAllocationMode
  rc_memory_init_cow :: "bool option"
  rc_pre_resolved_imports :: bool

definition default_config :: PitRuntimeConfig where
  "default_config =
     \<lparr>rc_compiled_cache_restore = FileBacked, rc_allocation = OnDemand, rc_memory_init_cow = None, rc_pre_resolved_imports = True\<rparr>"

record PoolingAllocationConfig =
  total_component_instances :: u32
  total_core_instances :: u32
  total_memories :: u32
  total_tables :: u32
  total_stacks :: u32
  max_unused_warm_slots :: u32

record engine_config =
  ec_memory_init_cow :: "bool option"
  ec_pooling :: "PoolingAllocationConfig option"

definition u32_try_from :: "usize \<Rightarrow> u32 option" where
  "u32_try_from n = (if unat n < 2 ^ 32 then Some (ucast n) else None)"

definition checked_mul :: "usize \<Rightarrow> usize \<Rightarrow> usize option" where
  "checked_mul a b = (if unat a * unat b < 2 ^ 64 then Some (a * b) else None)"

definition configure_engine :: "PitRuntimeConfig \<Rightarrow> 'z engine_config_scheme \<Rightarrow> string + 'z engine_config_scheme" where
  "configure_engine rc ec =
     (let ec = (case rc_memory_init_cow rc of Some b \<Rightarrow> ec\<lparr>ec_memory_init_cow := Some b\<rparr> | None \<Rightarrow> ec) in
      case rc_allocation rc of
        OnDemand \<Rightarrow> Inr ec
      | Pooling slots \<Rightarrow>
          (let slots = (if slots = 0 then 1 else slots) in
           case u32_try_from slots of
             None \<Rightarrow> Inl ''pooling slot count exceeds u32''
           | Some slots_u32 \<Rightarrow>
               (case Option.bind (checked_mul slots 8) u32_try_from of
                  None \<Rightarrow> Inl ''pooling resource slot count is too large''
                | Some resource_slots \<Rightarrow>
                    Inr (ec\<lparr>ec_pooling := Some
                      \<lparr>total_component_instances = slots_u32, total_core_instances = resource_slots,
                       total_memories = resource_slots, total_tables = resource_slots, total_stacks = slots_u32,
                       max_unused_warm_slots = slots_u32\<rparr>\<rparr>))))"

text \<open>\<^verbatim>\<open>PathBuf::join\<close> of a relative path.\<close>

definition join_path :: "string \<Rightarrow> string \<Rightarrow> string" where
  "join_path base rel = (if base = [] \<or> last base = CHR ''/'' then base @ rel else base @ ''/'' @ rel)"

definition default_root :: "string option \<Rightarrow> string option \<Rightarrow> string + string" where
  "default_root xdg_cache_home home =
     (case xdg_cache_home of
        Some value \<Rightarrow> Inr (join_path value ''pit/compiled'')
      | None \<Rightarrow>
          (case home of
             None \<Rightarrow> Inl ''HOME is unavailable; set XDG_CACHE_HOME''
           | Some h \<Rightarrow> Inr (join_path h ''.cache/pit/compiled'')))"

subsection \<open>Captured output\<close>

text \<open>
  The buffer of \<^verbatim>\<open>CapturedOutput\<close>, which all its clones and writers share. Nobody else reads or
  writes it while the guest runs, so it is a value that each operation reads or replaces.
\<close>

type_synonym CapturedOutput = string

definition new_captured :: CapturedOutput where
  "new_captured = []"

definition captured_contents :: "CapturedOutput \<Rightarrow> string" where
  "captured_contents out = out"

definition poll_write :: "string \<Rightarrow> CapturedOutput \<Rightarrow> nat \<times> CapturedOutput" where
  "poll_write buffer out = (length buffer, out @ buffer)"

text \<open>Flushing and shutting down are ready at once and keep what was written; the stream is no terminal.\<close>

definition poll_flush :: "CapturedOutput \<Rightarrow> (string + unit) \<times> CapturedOutput" where
  "poll_flush out = (Inr (), out)"

definition poll_shutdown :: "CapturedOutput \<Rightarrow> (string + unit) \<times> CapturedOutput" where
  "poll_shutdown out = (Inr (), out)"

definition is_terminal :: "CapturedOutput \<Rightarrow> bool" where
  "is_terminal out = False"

definition table_growing :: "nat \<Rightarrow> nat \<Rightarrow> RuntimeLimiter \<Rightarrow> bool \<times> RuntimeLimiter" where
  "table_growing current desired lim = (True, lim)"

subsection \<open>Lemmas\<close>

text \<open>However often an artifact is read, and whatever the bytes are by then, its digest is the first one.\<close>

lemma digest_once_stays:
  "digest_once sha bytes a = (d, a') \<Longrightarrow> digest_once sha bytes' a' = (d, a') \<and> art_id a' = art_id a"
  by (auto simp: digest_once_def Let_def split: option.splits)

lemma from_bytes_digest: "fst (digest_once sha bytes' (from_bytes sha bytes)) = art_id (from_bytes sha bytes)"
  by (simp add: digest_once_def from_bytes_def)

text \<open>
  The digest a control plane brings along is believed: what is read from the path is never compared
  with it, so every answer of \<open>open_artifact\<close> names that digest.
\<close>

lemma map_sum_Inr_iff: "map_sum f g x = Inr y \<longleftrightarrow> (\<exists>b. x = Inr b \<and> y = g b)"
  by (cases x) auto

lemma given_digest_believed:
  "open_artifact fs parse sha (from_path_with_digest path d) = (Inr (bytes, d', f), a) \<Longrightarrow> d' = d \<and> fs path = FileBytes bytes"
  by (auto simp: open_artifact_def from_path_with_digest_def digest_once_def read_artifact_def map_sum_Inr_iff
      split: sum.splits path_state.splits)

lemma split_on_no_sep: "p \<in> set (split_on c s) \<Longrightarrow> c \<notin> set p"
  by (induction c s arbitrary: p rule: split_on.induct) (auto split: list.splits if_splits)

text \<open>A program name is never empty and never has a directory in it.\<close>

lemma program_name_ok: "program_name utf8 a \<noteq> [] \<and> CHR ''/'' \<notin> set (program_name utf8 a)"
proof -
  have "n \<noteq> [] \<and> CHR ''/'' \<notin> set n" if "file_name path = Some n" for path n
  proof -
    let ?parts = "filter (\<lambda>p. p \<noteq> [] \<and> p \<noteq> ''.'') (split_on (CHR ''/'') path)"
    have "?parts \<noteq> []" "n = last ?parts" using that by (auto simp: file_name_def Let_def split: if_splits)
    then have "n \<in> set ?parts" using last_in_set by blast
    then show ?thesis using split_on_no_sep by auto
  qed
  then show ?thesis by (auto simp: program_name_def split: ArtifactSource.split option.split)
qed

text \<open>
  A pooling engine is configured exactly for at most \<open>2^29 - 1\<close> slots, with eight core instances,
  memories and tables for each slot and nothing wrapped around; no slots mean one.
\<close>

lemma pooling_exact:
  assumes "rc_allocation rc = Pooling slots"
  shows "(\<exists>ec'. configure_engine rc ec = Inr ec') \<longleftrightarrow> unat slots < 2 ^ 29"
    and "configure_engine rc ec = Inr ec' \<Longrightarrow> \<exists>p. ec_pooling ec' = Some p
      \<and> unat (total_component_instances p) = max (unat slots) 1 \<and> unat (total_stacks p) = max (unat slots) 1
      \<and> unat (total_core_instances p) = 8 * max (unat slots) 1 \<and> unat (total_memories p) = 8 * max (unat slots) 1
      \<and> unat (total_tables p) = 8 * max (unat slots) 1"
proof -
  let ?n = "if slots = 0 then 1 else slots"
  have n: "unat ?n = max (unat slots) 1" by (auto simp: unat_eq_zero max_def) (metis One_nat_def le_antisym less_one not_le unat_eq_zero)
  have mul: "unat (?n * 8) = 8 * max (unat slots) 1" if "unat ?n * 8 < 2 ^ 64"
    using that n by (simp add: unat_word_ariths)
  have cast: "unat (ucast m :: u32) = unat m" if "unat m < 2 ^ 32" for m :: usize
    using that by (simp add: unsigned_ucast_eq take_bit_eq_mod)
  show "(\<exists>ec'. configure_engine rc ec = Inr ec') \<longleftrightarrow> unat slots < 2 ^ 29"
    using assms n mul by (auto simp: configure_engine_def u32_try_from_def checked_mul_def Let_def split: if_splits)
  show "\<exists>p. ec_pooling ec' = Some p
      \<and> unat (total_component_instances p) = max (unat slots) 1 \<and> unat (total_stacks p) = max (unat slots) 1
      \<and> unat (total_core_instances p) = 8 * max (unat slots) 1 \<and> unat (total_memories p) = 8 * max (unat slots) 1
      \<and> unat (total_tables p) = 8 * max (unat slots) 1" if "configure_engine rc ec = Inr ec'"
    using that assms n mul cast by (auto simp: configure_engine_def u32_try_from_def checked_mul_def Let_def split: if_splits)
qed

lemma captured_in_order: "snd (poll_write b (snd (poll_write a out))) = out @ a @ b"
  by (simp add: poll_write_def)

text \<open>A buffer holds what was written to it, in order, however it was flushed in between.\<close>

lemma captured_all:
  "captured_contents (fold (\<lambda>b out. snd (poll_flush (snd (poll_write b out)))) chunks new_captured) = concat chunks"
proof -
  have "fold (\<lambda>b out. snd (poll_flush (snd (poll_write b out)))) chunks out = out @ concat chunks" for out
    by (induction chunks arbitrary: out) (simp_all add: poll_flush_def poll_write_def)
  then show ?thesis by (simp add: captured_contents_def new_captured_def)
qed

end
