(* ===== verification/Rt_SigV4.thy ===== *)
theory Rt_SigV4
  imports
    Pit_Strings
    "HOL-Library.Char_ord"
    "HOL-Library.List_Lexorder"
    "HOL-Library.Product_Lexorder"
begin

unbundle bit_operations_syntax

section \<open>The SigV4 gateway check\<close>

text \<open>
  \<^verbatim>\<open>crates/pit-runtime/src/lib.rs\<close>, lines 2331 to 2590: hexadecimal digests, HMAC,
  the constant-time comparison, percent coding, the canonical path and query, the timestamp parser
  and \<^verbatim>\<open>verify_gateway_signature\<close>. The hash function of the \<^verbatim>\<open>sha2\<close> crate
  and the calendar of the \<^verbatim>\<open>time\<close> crate are parameters. Strings are UTF-8 byte lists;
  the sort of the canonical query compares byte-wise, as Rust does.
\<close>

subsection \<open>Digests and HMAC\<close>

definition hex_digest :: "string \<Rightarrow> string" where
  "hex_digest bytes =
     concat (map (\<lambda>b. [hex_char (byte_val b div 16), hex_char (byte_val b mod 16)]) bytes)"

definition byte_xor :: "char \<Rightarrow> char \<Rightarrow> char" where
  "byte_xor a b = byte_of_val (byte_val a XOR byte_val b)"

text \<open>
  \<^verbatim>\<open>padded.copy_from_slice(&Sha256::digest(key))\<close> panics when the lengths differ, which
  is \<open>None\<close>; \<open>padded\<close> has 64 bytes.
\<close>

definition hmac_padded :: "(string \<Rightarrow> string) \<Rightarrow> string \<Rightarrow> string option" where
  "hmac_padded sha key =
     (if 64 < length key
      then (let digest = sha key in if length digest = 64 then Some digest else None)
      else Some (key @ replicate (64 - length key) (byte_of_val 0)))"

definition hmac_sha256 :: "(string \<Rightarrow> string) \<Rightarrow> string \<Rightarrow> string \<Rightarrow> string option" where
  "hmac_sha256 sha key message =
     (case hmac_padded sha key of
        None \<Rightarrow> None
      | Some padded \<Rightarrow>
          (let inner = map (\<lambda>b. byte_xor b (byte_of_val 0x36)) padded;
               outer = map (\<lambda>b. byte_xor b (byte_of_val 0x5c)) padded
           in Some (sha (outer @ sha (inner @ message)))))"

definition constant_time_hex_eq :: "string \<Rightarrow> string \<Rightarrow> bool" where
  "constant_time_hex_eq left right =
     (if length left \<noteq> length right then False
      else foldl (\<lambda>difference (a, b). difference OR (byte_val a XOR byte_val b)) 0 (zip left right) = 0)"

subsection \<open>Percent coding\<close>

definition aws_unreserved :: "char \<Rightarrow> bool" where
  "aws_unreserved b \<longleftrightarrow> is_ascii_alpha b \<or> is_ascii_digit b \<or> b \<in> {CHR ''-'', CHR ''_'', CHR ''.'', CHR ''~''}"

definition aws_percent_encode :: "string \<Rightarrow> string" where
  "aws_percent_encode value =
     concat (map (\<lambda>b. if aws_unreserved b then [b]
       else [CHR ''%'', hex_char_upper (byte_val b div 16), hex_char_upper (byte_val b mod 16)]) value)"

definition percent_digit :: "char \<Rightarrow> nat option" where
  "percent_digit b =
     (let lower = to_ascii_lower b in
      if is_ascii_digit lower then Some (byte_val lower - 48)
      else if 97 \<le> byte_val lower \<and> byte_val lower \<le> 102 then Some (byte_val lower - 97 + 10)
      else None)"

text \<open>The index of the loop is the part of the input still to read.\<close>

fun percent_decode :: "string \<Rightarrow> string + string" where
  "percent_decode [] = Inr []"
| "percent_decode (b # bytes) =
     (if b \<noteq> CHR ''%'' then map_sum id (\<lambda>rest. b # rest) (percent_decode bytes)
      else (case bytes of
              h # l # rest \<Rightarrow>
                (case (percent_digit h, percent_digit l) of
                   (Some high, Some low) \<Rightarrow>
                     map_sum id (\<lambda>decoded. byte_of_val ((push_bit 4 high OR low) mod 256) # decoded)
                       (percent_decode rest)
                 | _ \<Rightarrow> Inl ''invalid percent-encoding'')
            | _ \<Rightarrow> Inl ''invalid percent-encoding''))"

text \<open>\<^verbatim>\<open>collect::<Result<Vec<_>, _>>\<close>: the first error wins.\<close>

fun collect_results :: "('e + 'a) list \<Rightarrow> 'e + 'a list" where
  "collect_results [] = Inr []"
| "collect_results (Inl e # rs) = Inl e"
| "collect_results (Inr a # rs) = map_sum id (\<lambda>as. a # as) (collect_results rs)"

definition recode :: "string \<Rightarrow> string + string" where
  "recode part = map_sum id aws_percent_encode (percent_decode part)"

definition split_pair :: "char \<Rightarrow> string \<Rightarrow> string \<times> string" where
  "split_pair c part = (case split_once c part of Some kv \<Rightarrow> kv | None \<Rightarrow> (part, []))"

definition recode_pair :: "string \<Rightarrow> string + (string \<times> string)" where
  "recode_pair part =
     (case split_pair (CHR ''='') part of (key, value) \<Rightarrow>
        (case recode key of
           Inl e \<Rightarrow> Inl e
         | Inr k \<Rightarrow> map_sum id (\<lambda>v. (k, v)) (recode value)))"

definition canonical_path_and_query :: "string \<Rightarrow> string + (string \<times> string)" where
  "canonical_path_and_query path =
     (case split_pair (CHR ''?'') path of (raw_path, raw_query) \<Rightarrow>
        (case collect_results (map recode (split_on (CHR ''/'') raw_path)) of
           Inl e \<Rightarrow> Inl e
         | Inr parts \<Rightarrow>
             (let canonical_path = join ''/'' parts in
              (case collect_results (map recode_pair
                      (filter (\<lambda>part. part \<noteq> []) (split_on (CHR ''&'') raw_query))) of
                 Inl e \<Rightarrow> Inl e
               | Inr query \<Rightarrow>
                   Inr (if canonical_path = [] then ''/'' else canonical_path,
                        join ''&'' (map (\<lambda>(key, value). key @ ''='' @ value) (sort query)))))))"

subsection \<open>Timestamps\<close>

text \<open>What the check uses of the \<^verbatim>\<open>time\<close> crate.\<close>

record ('month, 'date, 'clock) calendar =
  month_try_from :: "nat \<Rightarrow> 'month option"
  from_calendar_date :: "nat \<Rightarrow> 'month \<Rightarrow> nat \<Rightarrow> 'date option"
  from_hms :: "nat \<Rightarrow> nat \<Rightarrow> nat \<Rightarrow> 'clock option"
  unix_timestamp :: "'date \<Rightarrow> 'clock \<Rightarrow> int"

definition digits_at :: "string \<Rightarrow> nat \<Rightarrow> nat \<Rightarrow> string" where
  "digits_at value start stop = take (stop - start) (drop start value)"

text \<open>
  The fields are slices of digits of length two and four, so the conversions to
  \<^verbatim>\<open>u8\<close> and \<^verbatim>\<open>i32\<close> cannot fail.
\<close>

definition parse_amz_timestamp :: "('m, 'd, 'c) calendar \<Rightarrow> string \<Rightarrow> string + int" where
  "parse_amz_timestamp cal value =
     (if length value \<noteq> 16 \<or> value ! 8 \<noteq> CHR ''T'' \<or> value ! 15 \<noteq> CHR ''Z''
         \<or> \<not> list_all is_ascii_digit (digits_at value 0 8)
         \<or> \<not> list_all is_ascii_digit (digits_at value 9 15)
      then Inl ''x-amz-date must use YYYYMMDDTHHMMSSZ''
      else
        (let number = (\<lambda>start stop. undec (digits_at value start stop)) in
         (case month_try_from cal (number 4 6) of
            None \<Rightarrow> Inl ''x-amz-date contains an invalid month''
          | Some month \<Rightarrow>
              (case from_calendar_date cal (number 0 4) month (number 6 8) of
                 None \<Rightarrow> Inl ''x-amz-date contains an invalid day''
               | Some date \<Rightarrow>
                   (case from_hms cal (number 9 11) (number 11 13) (number 13 15) of
                      None \<Rightarrow> Inl ''x-amz-date contains an invalid time''
                    | Some clock \<Rightarrow> Inr (unix_timestamp cal date clock))))))"

subsection \<open>The verification\<close>

record gateway_auth =
  access_key :: string
  secret_key :: string
  auth_region :: string

text \<open>The fields of \<^verbatim>\<open>HttpHostState\<close> that the check reads.\<close>

record gateway_state =
  paddock_auth :: "gateway_auth option"
  request_method :: string
  request_path :: string
  request_headers :: "(string \<times> string) list"
  request_payload_hash :: string

definition header_value :: "gateway_state \<Rightarrow> string \<Rightarrow> string option" where
  "header_value st name =
     map_option (\<lambda>(_, value). trim value)
       (List.find (\<lambda>(header, _). eq_ignore_ascii_case header name) (request_headers st))"

definition accepted_payload_hash :: "string \<Rightarrow> string \<Rightarrow> bool" where
  "accepted_payload_hash declared actual \<longleftrightarrow>
     declared = ''UNSIGNED-PAYLOAD'' \<or> declared = ''STREAMING-AWS4-HMAC-SHA256-PAYLOAD'' \<or> declared = actual"

text \<open>\<^verbatim>\<open>collect::<HashMap<_, _>>\<close>: of several entries of one name the last one stays.\<close>

definition authorization_parts :: "string \<Rightarrow> string \<Rightarrow> string option" where
  "authorization_parts auth_fields =
     map_of (rev (List.map_filter (\<lambda>part. split_once (CHR ''='') (trim part)) (split_on (CHR '','') auth_fields)))"

text \<open>\<^verbatim>\<open>signed.windows(2).any(|window| window[0] >= window[1])\<close>\<close>

fun not_ascending :: "string list \<Rightarrow> bool" where
  "not_ascending (a # b # rest) \<longleftrightarrow> b \<le> a \<or> not_ascending (b # rest)"
| "not_ascending _ \<longleftrightarrow> False"

definition header_name_char :: "char \<Rightarrow> bool" where
  "header_name_char b \<longleftrightarrow> is_ascii_lower b \<or> is_ascii_digit b \<or> b = CHR ''-''"

fun canonical_headers :: "gateway_state \<Rightarrow> string list \<Rightarrow> string + string" where
  "canonical_headers st [] = Inr []"
| "canonical_headers st (name # names) =
     (if name = [] \<or> \<not> list_all header_name_char name then Inl ''invalid signed header name''
      else (case header_value st name of
              None \<Rightarrow> Inl (''signed header is missing: '' @ name)
            | Some value \<Rightarrow>
                map_sum id (\<lambda>rest. name @ '':'' @ join '' '' (split_whitespace value) @ ''\<newline>'' @ rest)
                  (canonical_headers st names)))"

text \<open>\<^verbatim>\<open>to_uppercase\<close> on an HTTP method, which is an ASCII token.\<close>

definition upper_method :: "string \<Rightarrow> string" where
  "upper_method m = map to_ascii_upper m"

definition canonical_request ::
  "gateway_state \<Rightarrow> string \<Rightarrow> string \<Rightarrow> string \<Rightarrow> string \<Rightarrow> string \<Rightarrow> string" where
  "canonical_request st uri query headers signed_headers payload_hash =
     upper_method (request_method st) @ ''\<newline>'' @ uri @ ''\<newline>'' @ query @ ''\<newline>''
     @ headers @ ''\<newline>'' @ signed_headers @ ''\<newline>'' @ payload_hash"

definition string_to_sign :: "(string \<Rightarrow> string) \<Rightarrow> gateway_auth \<Rightarrow> string \<Rightarrow> string \<Rightarrow> string" where
  "string_to_sign sha auth amz_date request =
     ''AWS4-HMAC-SHA256\<newline>'' @ amz_date @ ''\<newline>''
     @ (take 8 amz_date @ ''/'' @ auth_region auth @ ''/'' @ ''s3'' @ ''/aws4_request'')
     @ ''\<newline>'' @ hex_digest (sha request)"

definition signing_key :: "(string \<Rightarrow> string) \<Rightarrow> gateway_auth \<Rightarrow> string \<Rightarrow> string option" where
  "signing_key sha auth amz_date =
     Option.bind (hmac_sha256 sha (''AWS4'' @ secret_key auth) (take 8 amz_date)) (\<lambda>date_key.
     Option.bind (hmac_sha256 sha date_key (auth_region auth)) (\<lambda>region_key.
     Option.bind (hmac_sha256 sha region_key ''s3'') (\<lambda>service_key.
     hmac_sha256 sha service_key ''aws4_request'')))"

definition expected_signature ::
  "(string \<Rightarrow> string) \<Rightarrow> gateway_auth \<Rightarrow> string \<Rightarrow> string \<Rightarrow> string option" where
  "expected_signature sha auth amz_date request =
     Option.bind (signing_key sha auth amz_date) (\<lambda>key.
     map_option hex_digest (hmac_sha256 sha key (string_to_sign sha auth amz_date request)))"

text \<open>The checks of the header fields up to the signature, in the order of the code.\<close>

definition check_scope :: "gateway_auth \<Rightarrow> string \<Rightarrow> string \<Rightarrow> string + unit" where
  "check_scope auth amz_date credential =
     (let credential_parts = split_on (CHR ''/'') credential in
      if length credential_parts \<noteq> 5 \<or> credential_parts ! 0 \<noteq> access_key auth
      then Inl ''invalid SigV4 credential''
      else if credential_parts ! 1 \<noteq> take 8 amz_date \<or> credential_parts ! 2 \<noteq> auth_region auth
         \<or> credential_parts ! 3 \<noteq> ''s3'' \<or> credential_parts ! 4 \<noteq> ''aws4_request''
      then Inl ''invalid SigV4 credential scope''
      else Inr ())"

definition need :: "string \<Rightarrow> 'a option \<Rightarrow> string + 'a" where
  "need message v = (case v of None \<Rightarrow> Inl message | Some a \<Rightarrow> Inr a)"

definition bind_result :: "('e + 'a) \<Rightarrow> ('a \<Rightarrow> 'e + 'b) \<Rightarrow> 'e + 'b" where
  "bind_result r f = (case r of Inl e \<Rightarrow> Inl e | Inr a \<Rightarrow> f a)"

definition guard_result :: "bool \<Rightarrow> string \<Rightarrow> (string + 'b) \<Rightarrow> string + 'b" where
  "guard_result bad message k = (if bad then Inl message else k)"

text \<open>
  Everything of \<^verbatim>\<open>verify_gateway_signature\<close> up to the keys: the date, the request to
  be signed and the signature presented. \<open>now\<close> is the clock in seconds, \<open>None\<close> before the
  epoch.
\<close>

definition presented_signature ::
  "('m, 'd, 'c) calendar \<Rightarrow> int option \<Rightarrow> gateway_state \<Rightarrow> gateway_auth
    \<Rightarrow> string + (string \<times> string \<times> string)" where
  "presented_signature cal now st auth =
     bind_result (need ''SigV4 Authorization header is required'' (header_value st ''authorization'')) (\<lambda>authorization.
     bind_result (need ''x-amz-date header is required'' (header_value st ''x-amz-date'')) (\<lambda>amz_date.
     bind_result (parse_amz_timestamp cal amz_date) (\<lambda>signed_timestamp.
     bind_result (need ''system clock is before the Unix epoch'' now) (\<lambda>now.
     guard_result (900 < \<bar>now - signed_timestamp\<bar>) ''request timestamp is outside the 15 minute SigV4 window'' (
     bind_result (need ''unsupported authorization scheme'' (strip_prefix ''AWS4-HMAC-SHA256 '' authorization)) (\<lambda>auth_fields.
     let parts = authorization_parts auth_fields in
     bind_result (need ''SigV4 Credential is missing'' (parts ''Credential'')) (\<lambda>credential.
     bind_result (check_scope auth amz_date credential) (\<lambda>_.
     bind_result (need ''SigV4 SignedHeaders is missing'' (parts ''SignedHeaders'')) (\<lambda>signed_headers.
     bind_result (need ''SigV4 Signature is missing'' (parts ''Signature'')) (\<lambda>signature.
     guard_result (length signature \<noteq> 64 \<or> \<not> list_all is_ascii_hexdigit signature) ''invalid SigV4 signature'' (
     let signed = split_on (CHR '';'') signed_headers in
     guard_result (not_ascending signed) ''SigV4 SignedHeaders must be sorted'' (
     bind_result (canonical_headers st signed) (\<lambda>headers.
     guard_result (''host'' \<notin> set signed \<or> ''x-amz-date'' \<notin> set signed) ''host and x-amz-date must be signed'' (
     let payload_hash = (case header_value st ''x-amz-content-sha256'' of Some h \<Rightarrow> h | None \<Rightarrow> request_payload_hash st) in
     guard_result (\<not> accepted_payload_hash payload_hash (request_payload_hash st))
       ''x-amz-content-sha256 does not match the request body'' (
     bind_result (canonical_path_and_query (request_path st)) (\<lambda>(uri, query).
     Inr (amz_date, canonical_request st uri query headers signed_headers payload_hash, signature)))))))))))))))))"

text \<open>\<open>None\<close> is a panic, in \<^verbatim>\<open>hmac_sha256\<close>.\<close>

definition verify_gateway_signature ::
  "(string \<Rightarrow> string) \<Rightarrow> ('m, 'd, 'c) calendar \<Rightarrow> int option \<Rightarrow> gateway_state \<Rightarrow> (string + unit) option" where
  "verify_gateway_signature sha cal now st =
     (case paddock_auth st of
        None \<Rightarrow> Some (Inr ())
      | Some auth \<Rightarrow>
          (case presented_signature cal now st auth of
             Inl e \<Rightarrow> Some (Inl e)
           | Inr (amz_date, request, signature) \<Rightarrow>
               map_option
                 (\<lambda>expected. if \<not> constant_time_hex_eq expected signature
                   then Inl ''signature does not match'' else Inr ())
                 (expected_signature sha auth amz_date request)))"

subsection \<open>Laws of the encodings\<close>

lemma nibbles: "b < 256 \<Longrightarrow> b div 16 < 16 \<and> b mod 16 < 16 \<and> (push_bit 4 (b div 16) OR b mod 16) mod 256 = (b::nat)"
proof -
  assume b: "b < 256"
  have "push_bit 4 (b div 16) OR b mod 16 = push_bit 4 (drop_bit 4 b) OR take_bit 4 b"
    by (simp add: drop_bit_eq_div take_bit_eq_mod)
  also have "\<dots> = b" by (rule bit_eqI) (auto simp: bit_simps)
  finally show ?thesis using b by simp
qed

lemma percent_digit_hex: "d < 16 \<Longrightarrow> percent_digit (hex_char_upper d) = Some d"
  by (cases "d < 10")
    (auto simp: percent_digit_def hex_char_upper_def to_ascii_lower_def is_ascii_digit_def Let_def)

lemma aws_unreserved_percent: "\<not> aws_unreserved (CHR ''%'')"
  by (simp add: aws_unreserved_def is_ascii_alpha_def is_ascii_lower_def is_ascii_digit_def byte_val_def)

lemma percent_decode_encode: "percent_decode (aws_percent_encode v) = Inr v"
proof (induction v)
  case Nil
  show ?case by (simp add: aws_percent_encode_def)
next
  case (Cons b v)
  show ?case
  proof (cases "aws_unreserved b")
    case True
    then have "b \<noteq> CHR ''%''" using aws_unreserved_percent by auto
    then show ?thesis using Cons True by (simp add: aws_percent_encode_def)
  next
    case False
    have "aws_percent_encode (b # v) =
        CHR ''%'' # hex_char_upper (byte_val b div 16) # hex_char_upper (byte_val b mod 16) # aws_percent_encode v"
      using False by (simp add: aws_percent_encode_def)
    then show ?thesis
      using Cons nibbles [of "byte_val b"] by (simp add: percent_digit_hex)
  qed
qed

lemma recode_encode: "recode (aws_percent_encode v) = Inr (aws_percent_encode v)"
  by (simp add: recode_def percent_decode_encode)

lemma recode_idem: "recode part = Inr w \<Longrightarrow> recode w = Inr w"
  by (cases "percent_decode part") (auto simp: recode_def percent_decode_encode)

text \<open>Encoded text contains none of the separators.\<close>

lemma encoded_chars:
  assumes "c \<in> set (aws_percent_encode v)"
  shows "aws_unreserved c \<or> c = CHR ''%''"
proof -
  have hex: "aws_unreserved (hex_char_upper d)" if "d < 16" for d
    using that by (auto simp: aws_unreserved_def is_ascii_alpha_def is_ascii_digit_def hex_char_upper_def)
  have "byte_val b div 16 < 16" "byte_val b mod 16 < 16" for b
    using nibbles [of "byte_val b"] by auto
  then show ?thesis using assms hex by (auto simp: aws_percent_encode_def split: if_splits)
qed

lemma separators_reserved:
  "\<not> aws_unreserved (CHR ''/'')" "\<not> aws_unreserved (CHR ''?'')" "\<not> aws_unreserved (CHR ''&'')" "\<not> aws_unreserved (CHR ''='')"
  by (simp_all add: aws_unreserved_def is_ascii_alpha_def is_ascii_lower_def is_ascii_digit_def byte_val_def)

lemma recoded_free:
  assumes "recode part = Inr w" and "c \<in> {CHR ''/'', CHR ''?'', CHR ''&'', CHR ''=''}"
  shows "c \<notin> set w"
proof
  assume "c \<in> set w"
  moreover obtain v where "w = aws_percent_encode v"
    using assms(1) by (cases "percent_decode part") (auto simp: recode_def)
  ultimately have "aws_unreserved c \<or> c = CHR ''%''" using encoded_chars by blast
  then show False using assms(2) separators_reserved by auto
qed

lemma nat_or_zero: "(x :: nat) OR y = 0 \<longleftrightarrow> x = 0 \<and> y = 0"
  by (auto simp: bit_eq_iff bit_simps)

lemma nat_xor_zero: "(x :: nat) XOR y = 0 \<longleftrightarrow> x = y"
  by (auto simp: bit_eq_iff bit_simps)

lemma foldl_or_zero:
  "foldl (\<lambda>difference (a, b). difference OR (byte_val a XOR byte_val b)) d xs = 0 \<longleftrightarrow>
    d = 0 \<and> (\<forall>(a, b)\<in>set xs. a = b)"
proof (induction xs arbitrary: d)
  case (Cons x xs)
  obtain a b where x: "x = (a, b)" by (cases x)
  have "(d OR (byte_val a XOR byte_val b) = 0) \<longleftrightarrow> d = 0 \<and> byte_val a = byte_val b"
    by (simp add: nat_or_zero nat_xor_zero)
  then show ?case using Cons x by auto
qed simp

end
