(* ===== verification/Rt_SigV4_Claims.thy ===== *)
theory Rt_SigV4_Claims
  imports Rt_SigV4
begin

section \<open>What the SigV4 gateway check promises\<close>

text \<open>
  Round trips and injectivity of the encodings, idempotence of the canonical form, the comparison,
  when HMAC panics, soundness of the verification, and acceptance of a request signed by the
  published algorithm.
\<close>

subsection \<open>Lemmas\<close>

lemma collect_results_map: "collect_results (map Inr as) = Inr as"
  by (induction "as") simp_all

lemma collect_results_InrD: "collect_results rs = Inr as \<Longrightarrow> rs = map Inr as"
proof (induction rs arbitrary: "as")
  case (Cons r rs)
  show ?case
  proof (cases r)
    case (Inr a)
    then show ?thesis using Cons by (cases "collect_results rs") auto
  qed (use Cons in simp)
qed simp

lemma collect_results_Inr: "collect_results rs = Inr as \<longleftrightarrow> rs = map Inr as"
  using collect_results_map collect_results_InrD by blast

lemma collect_recode_idem:
  assumes "collect_results (map recode ps) = Inr ws"
  shows "collect_results (map recode ws) = Inr ws"
proof -
  have rec: "map recode ps = map Inr ws" using assms by (simp add: collect_results_Inr)
  have "recode w = Inr w" if "w \<in> set ws" for w
  proof -
    have "Inr w \<in> set (map recode ps)" using that rec by simp
    then show ?thesis using recode_idem by force
  qed
  then have "map recode ws = map Inr ws" by simp
  then show ?thesis by (simp add: collect_results_Inr)
qed

lemma recode_all_free:
  assumes "collect_results (map recode ps) = Inr ws" "w \<in> set ws"
    and "c \<in> {CHR ''/'', CHR ''?'', CHR ''&'', CHR ''=''}"
  shows "c \<notin> set w"
proof -
  have "map recode ps = map Inr ws" using assms(1) by (simp add: collect_results_Inr)
  then have "Inr w \<in> set (map recode ps)" using assms(2) by simp
  then show ?thesis using recoded_free [OF _ assms(3)] by force
qed

definition pair_text :: "string \<times> string \<Rightarrow> string" where
  "pair_text kv = fst kv @ ''='' @ snd kv"

lemma pair_text_nonempty [simp]: "pair_text kv \<noteq> []"
  by (simp add: pair_text_def)

lemma recode_pair_recoded:
  assumes "recode_pair part = Inr (k, v)"
  obtains p q where "recode p = Inr k" "recode q = Inr v"
  using assms unfolding recode_pair_def
  by (cases "split_pair (CHR ''='') part"; cases "recode (fst (split_pair (CHR ''='') part))";
      cases "recode (snd (split_pair (CHR ''='') part))") auto

lemma recode_pair_text:
  assumes "recode_pair part = Inr kv"
  shows "recode_pair (pair_text kv) = Inr kv" "CHR ''&'' \<notin> set (pair_text kv)" "CHR ''?'' \<notin> set (pair_text kv)"
proof -
  obtain k v where kv: "kv = (k, v)" by (cases kv)
  then obtain p q where r: "recode p = Inr k" "recode q = Inr v"
    using recode_pair_recoded assms by blast
  have "split_pair (CHR ''='') (pair_text kv) = (k, v)"
    using recoded_free [OF r(1)] by (simp add: kv pair_text_def split_pair_def split_once_append)
  then show "recode_pair (pair_text kv) = Inr kv"
    using recode_idem r kv by (simp add: recode_pair_def)
  show "CHR ''&'' \<notin> set (pair_text kv)" "CHR ''?'' \<notin> set (pair_text kv)"
    using recoded_free [OF r(1)] recoded_free [OF r(2)] by (simp_all add: kv pair_text_def)
qed

lemma recode_pairs_idem:
  assumes "collect_results (map recode_pair parts) = Inr kvs"
  shows "collect_results (map recode_pair (filter (\<lambda>part. part \<noteq> [])
      (split_on (CHR ''&'') (join ''&'' (map pair_text (sort kvs)))))) = Inr (sort kvs)"
proof -
  have rec: "map recode_pair parts = map Inr kvs" using assms by (simp add: collect_results_Inr)
  have each: "recode_pair (pair_text kv) = Inr kv \<and> CHR ''&'' \<notin> set (pair_text kv)" if "kv \<in> set kvs" for kv
  proof -
    have "Inr kv \<in> set (map recode_pair parts)" using that rec by simp
    then obtain part where "recode_pair part = Inr kv" unfolding set_map by (elim imageE) simp
    from recode_pair_text [OF this] show ?thesis by blast
  qed
  show ?thesis
  proof (cases "kvs = []")
    case True
    then show ?thesis by simp
  next
    case False
    have texts: "map pair_text (sort kvs) \<noteq> []"
    proof
      assume "map pair_text (sort kvs) = []"
      then have "length (map pair_text (sort kvs)) = 0" by (simp only: list.size)
      then show False using False by (simp only: length_map length_sort length_0_conv)
    qed
    have "split_on (CHR ''&'') (join [CHR ''&''] (map pair_text (sort kvs))) = map pair_text (sort kvs)"
      using each by (intro split_join [OF texts]) auto
    moreover have "filter (\<lambda>part. part \<noteq> []) (map pair_text (sort kvs)) = map pair_text (sort kvs)"
      by (simp add: filter_id_conv)
    moreover have "map recode_pair (map pair_text (sort kvs)) = map Inr (sort kvs)"
      using each by simp
    ultimately show ?thesis by (simp add: collect_results_Inr)
  qed
qed

lemma canonical_parts:
  assumes "canonical_path_and_query path = Inr (p, q)"
  obtains ps ws parts kvs where
    "collect_results (map recode ps) = Inr ws" "ws \<noteq> []"
    "p = (if join ''/'' ws = [] then ''/'' else join ''/'' ws)"
    "collect_results (map recode_pair parts) = Inr kvs" "q = join ''&'' (map pair_text (sort kvs))"
proof -
  obtain rp rq where split: "split_pair (CHR ''?'') path = (rp, rq)" by force
  obtain ws where ws: "collect_results (map recode (split_on (CHR ''/'') rp)) = Inr ws"
    using assms split
    by (cases "collect_results (map recode (split_on (CHR ''/'') rp))")
      (auto simp: canonical_path_and_query_def)
  obtain kvs where kvs: "collect_results (map recode_pair (filter (\<lambda>part. part \<noteq> []) (split_on (CHR ''&'') rq))) = Inr kvs"
    using assms split ws
    by (cases "collect_results (map recode_pair (filter (\<lambda>part. part \<noteq> []) (split_on (CHR ''&'') rq)))")
      (auto simp: canonical_path_and_query_def)
  have "ws \<noteq> []" using ws split_on_nonempty by (auto simp: collect_results_Inr)
  moreover have "(\<lambda>(key, value). key @ ''='' @ value) = pair_text"
    by (simp add: pair_text_def split_def fun_eq_iff)
  then have "Inr (if join ''/'' ws = [] then ''/'' else join ''/'' ws, join ''&'' (map pair_text (sort kvs)))
      = (Inr (p, q) :: string + _)"
    using assms split ws kvs by (simp only: canonical_path_and_query_def Let_def prod.case sum.case)
  ultimately show thesis using that [OF ws _ _ kvs] by simp
qed

lemma constant_time_hex_eq_iff: "constant_time_hex_eq left right \<longleftrightarrow> left = right"
proof (cases "length left = length right")
  case True
  then show ?thesis
    unfolding constant_time_hex_eq_def foldl_or_zero
    by (auto simp: list_eq_iff_nth_eq set_zip)
next
  case False
  then show ?thesis by (auto simp: constant_time_hex_eq_def)
qed

lemma strip_prefix_Some: "strip_prefix p s = Some r \<Longrightarrow> s = p @ r"
  by (auto simp: strip_prefix_def split: if_splits) (metis append_take_drop_id)

lemma hex_digest_laws:
  "length (hex_digest a) = 2 * length a" "list_all is_ascii_hexdigit (hex_digest a)"
proof -
  show "length (hex_digest a) = 2 * length a"
    by (induction a) (simp_all add: hex_digest_def)
  show "list_all is_ascii_hexdigit (hex_digest a)"
    using nibbles by (induction a) (simp_all add: hex_digest_def hexdigit_hex_char)
qed

lemma canonical_join_slash: "split_on (CHR ''/'') ''/'' = [[], []]" "recode [] = Inr []"
  by (simp_all add: recode_def aws_percent_encode_def)

subsection \<open>The encodings\<close>

text \<open>Percent coding is lossless: decoding an encoded byte string gives it back, so two
  different byte strings never share an encoding, and an encoding consists of unreserved
  characters and percent signs only.\<close>

theorem percent_roundtrip:
  "percent_decode (aws_percent_encode v) = Inr v
    \<and> (aws_percent_encode v = aws_percent_encode w \<longleftrightarrow> v = w)
    \<and> list_all (\<lambda>c. aws_unreserved c \<or> c = CHR ''%'') (aws_percent_encode v)"
proof (intro conjI)
  show "aws_percent_encode v = aws_percent_encode w \<longleftrightarrow> v = w"
    by (metis percent_decode_encode sum.inject(2))
  show "list_all (\<lambda>c. aws_unreserved c \<or> c = CHR ''%'') (aws_percent_encode v)"
    unfolding list_all_iff using encoded_chars by blast
qed (rule percent_decode_encode)

text \<open>The canonical form is canonical: canonicalising the path and query that
  \<^verbatim>\<open>canonical_path_and_query\<close> returns gives the same path and query again, so the two
  sides of a signature agree whether or not the other side has canonicalised already.\<close>

theorem canonical_idempotent:
  assumes "canonical_path_and_query path = Inr (p, q)"
  shows "canonical_path_and_query (p @ ''?'' @ q) = Inr (p, q)"
proof -
  from canonical_parts [OF assms] obtain ps ws parts kvs where
    ws: "collect_results (map recode ps) = Inr ws" "ws \<noteq> []"
    and p: "p = (if join ''/'' ws = [] then ''/'' else join ''/'' ws)"
    and kvs: "collect_results (map recode_pair parts) = Inr kvs" and q: "q = join ''&'' (map pair_text (sort kvs))" .
  have free: "CHR ''/'' \<notin> set w \<and> CHR ''?'' \<notin> set w" if "w \<in> set ws" for w
    using recode_all_free [OF ws(1) that] by simp
  have pfree: "CHR ''?'' \<notin> set p"
    using free set_join [of "''/''" ws] unfolding p by auto
  obtain us where us: "collect_results (map recode (split_on (CHR ''/'') p)) = Inr us"
    "(if join ''/'' us = [] then ''/'' else join ''/'' us) = p"
  proof (cases "join ''/'' ws = []")
    case True
    then have "p = ''/''" using p by simp
    then show thesis using that [of "[[], []]"] canonical_join_slash by simp
  next
    case False
    then have "split_on (CHR ''/'') p = ws" using p split_join [OF ws(2)] free by simp
    then show thesis using that [of ws] collect_recode_idem [OF ws(1)] p False by simp
  qed
  have pair: "(\<lambda>(key, value). key @ ''='' @ value) = pair_text"
    by (simp add: pair_text_def split_def fun_eq_iff)
  have split: "split_pair (CHR ''?'') (p @ ''?'' @ q) = (p, q)"
    using pfree by (simp add: split_pair_def split_once_append)
  have "sort (sort kvs) = sort kvs" by (simp add: sorted_sort_id)
  then show ?thesis
    using us recode_pairs_idem [OF kvs]
    unfolding canonical_path_and_query_def split pair
    by (simp only: prod.case sum.case Let_def q)
qed

theorem canonical_idempotent_witness:
  "canonical_path_and_query (''/a%20b'' @ ''?'' @ ''k=1&z='') = Inr (''/a%20b'', ''k=1&z='')"
proof (rule canonical_idempotent)
  show "canonical_path_and_query ''/a b?z&k=1'' = Inr (''/a%20b'', ''k=1&z='')"
    by code_simp
qed

text \<open>The constant-time comparison accepts exactly equal strings.\<close>

theorem constant_time_hex_eq_correct: "constant_time_hex_eq left right \<longleftrightarrow> left = right"
  by (rule constant_time_hex_eq_iff)
text \<open>Hexadecimal digests are faithful: two digits per byte, only hexadecimal digits, and
  different byte strings have different digests, so the comparison of two printed digests compares
  the digests.\<close>

theorem hex_digest_faithful:
  "length (hex_digest a) = 2 * length a \<and> list_all is_ascii_hexdigit (hex_digest a)
    \<and> (hex_digest a = hex_digest b \<longleftrightarrow> a = b)"
proof (intro conjI hex_digest_laws)
  have step: "b = c" if "hex_char (byte_val b div 16) = hex_char (byte_val c div 16)"
      "hex_char (byte_val b mod 16) = hex_char (byte_val c mod 16)" for b c
  proof -
    have "byte_val b div 16 = byte_val c div 16" "byte_val b mod 16 = byte_val c mod 16"
      using that nibbles [of "byte_val b"] nibbles [of "byte_val c"] hex_char_inj by simp_all
    then have "byte_val b = byte_val c" by (metis div_mod_decomp)
    then show ?thesis by simp
  qed
  show "hex_digest a = hex_digest b \<longleftrightarrow> a = b"
  proof
    show "hex_digest a = hex_digest b \<Longrightarrow> a = b"
    proof (induction a arbitrary: b)
      case Nil
      then show ?case by (cases b) (simp_all add: hex_digest_def)
    next
      case (Cons x a)
      then obtain y c where b: "b = y # c" by (cases b) (simp_all add: hex_digest_def)
      then have "x = y" "hex_digest a = hex_digest c"
        using Cons.prems step [of x y] by (simp_all add: hex_digest_def)
      then show ?case using Cons.IH [of c] b by simp
    qed
  qed simp
qed

subsection \<open>HMAC\<close>

lemma hmac_Some: "length key \<le> 64 \<Longrightarrow> \<exists>d. hmac_sha256 sha key m = Some d"
  by (simp add: hmac_sha256_def hmac_padded_def Let_def)

lemma hmac_Some_sha: "hmac_sha256 sha key m = Some d \<Longrightarrow> \<exists>x. d = sha x"
  by (auto simp: hmac_sha256_def Let_def split: option.splits)

text \<open>When \<^verbatim>\<open>hmac_sha256\<close> panics. Given that the hash function returns 32 bytes,
  it returns for keys of up to 64 bytes, with a value that RFC 2104 prescribes for the key padded
  with zeros, and panics on every longer key, where the RFC hashes the key first: the code copies
  the 32 bytes of the hashed key into the 64 byte block with \<^verbatim>\<open>copy_from_slice\<close>.\<close>

theorem hmac_returns_iff:
  assumes "\<And>x. length (sha x) = 32"
  shows "(hmac_sha256 sha key m = None \<longleftrightarrow> 64 < length key)
    \<and> (length key \<le> 64 \<longrightarrow>
        (let block = key @ replicate (64 - length key) (byte_of_val 0) in
         length block = 64
         \<and> hmac_sha256 sha key m =
            Some (sha (map (\<lambda>b. byte_xor b (byte_of_val 0x5c)) block
              @ sha (map (\<lambda>b. byte_xor b (byte_of_val 0x36)) block @ m)))))"
  using assms by (simp add: hmac_sha256_def hmac_padded_def Let_def)

definition demo_sha :: "string \<Rightarrow> string" where
  "demo_sha x = byte_of_val (length x mod 256) # replicate 31 (byte_of_val (foldl (\<lambda>a b. (a + byte_val b) mod 256) 0 x))"

lemma length_demo_sha: "length (demo_sha x) = 32"
  by (simp add: demo_sha_def)

theorem hmac_returns_iff_witness: "hmac_sha256 demo_sha (replicate 65 (CHR ''k'')) ''m'' = None"
  using hmac_returns_iff [OF length_demo_sha, where key = "replicate 65 (CHR ''k'')" and m = "''m''"] by simp

subsection \<open>Soundness of the verification\<close>

lemma bind_result_Inr: "bind_result r f = Inr y \<longleftrightarrow> (\<exists>a. r = Inr a \<and> f a = Inr y)"
  by (cases r) (simp_all add: bind_result_def)

lemma guard_result_Inr: "guard_result bad e k = Inr y \<longleftrightarrow> \<not> bad \<and> k = Inr y"
  by (simp add: guard_result_def)

lemma need_Inr: "need e v = Inr a \<longleftrightarrow> v = Some a"
  by (cases v) (simp_all add: need_def)

lemma ascending_sorted: "\<not> not_ascending ns \<longleftrightarrow> sorted_wrt (<) ns"
proof (induction ns rule: not_ascending.induct)
  case (1 a b rest)
  have "sorted_wrt (<) (a # b # rest) \<longleftrightarrow> a < b \<and> sorted_wrt (<) (b # rest)"
    by (auto intro: less_trans)
  then show ?case using 1 by (simp add: not_le)
qed simp_all

lemma check_scope_Inr:
  assumes "check_scope auth amz_date credential = Inr u"
  shows "credential = join ''/'' [access_key auth, take 8 amz_date, auth_region auth, ''s3'', ''aws4_request'']"
proof -
  let ?ps = "split_on (CHR ''/'') credential"
  have ps: "length ?ps = 5" "?ps ! 0 = access_key auth" "?ps ! 1 = take 8 amz_date"
    "?ps ! 2 = auth_region auth" "?ps ! 3 = ''s3''" "?ps ! 4 = ''aws4_request''"
    using assms by (auto simp: check_scope_def Let_def split: if_splits)
  have "?ps = [?ps ! 0, ?ps ! 1, ?ps ! 2, ?ps ! 3, ?ps ! 4]"
    using ps(1) by (auto simp: list_eq_iff_nth_eq less_Suc_eq numeral_eq_Suc)
  then have "?ps = [access_key auth, take 8 amz_date, auth_region auth, ''s3'', ''aws4_request'']"
    using ps(2-6) by simp
  then show ?thesis using join_split [of "CHR ''/''" credential] by metis
qed

lemma presented_Inr:
  assumes "presented_signature cal now st auth = Inr (amz_date, request, signature)"
  obtains authorization t n auth_fields credential signed_headers headers payload_hash uri query where
    "header_value st ''authorization'' = Some authorization"
    "header_value st ''x-amz-date'' = Some amz_date"
    "parse_amz_timestamp cal amz_date = Inr t" "now = Some n" "\<bar>n - t\<bar> \<le> 900"
    "strip_prefix ''AWS4-HMAC-SHA256 '' authorization = Some auth_fields"
    "authorization_parts auth_fields ''Credential'' = Some credential"
    "check_scope auth amz_date credential = Inr ()"
    "authorization_parts auth_fields ''SignedHeaders'' = Some signed_headers"
    "authorization_parts auth_fields ''Signature'' = Some signature"
    "\<not> not_ascending (split_on (CHR '';'') signed_headers)"
    "canonical_headers st (split_on (CHR '';'') signed_headers) = Inr headers"
    "''host'' \<in> set (split_on (CHR '';'') signed_headers)"
    "''x-amz-date'' \<in> set (split_on (CHR '';'') signed_headers)"
    "payload_hash = (case header_value st ''x-amz-content-sha256'' of Some h \<Rightarrow> h | None \<Rightarrow> request_payload_hash st)"
    "accepted_payload_hash payload_hash (request_payload_hash st)"
    "canonical_path_and_query (request_path st) = Inr (uri, query)"
    "request = canonical_request st uri query headers signed_headers payload_hash"
  using assms unfolding presented_signature_def Let_def bind_result_Inr guard_result_Inr need_Inr
  apply (elim exE conjE)
  subgoal premises prems for authorization date t n auth_fields credential u signed_headers signature headers pair
    by (rule prems(1) [of authorization t n auth_fields credential signed_headers headers
          "case header_value st ''x-amz-content-sha256'' of Some h \<Rightarrow> h | None \<Rightarrow> request_payload_hash st"
          "fst pair" "snd pair"])
      (use prems(2-) in \<open>simp_all split: prod.splits\<close>)
  done

text \<open>C35: What an accepted request guarantees. When the gateway has credentials and accepts a
  request, the request carries a date within 15 minutes of the clock, a credential that is exactly
  access key, day, region, \<^verbatim>\<open>s3\<close> and \<^verbatim>\<open>aws4_request\<close>, a strictly ascending list
  of signed headers that contains \<^verbatim>\<open>host\<close> and \<^verbatim>\<open>x-amz-date\<close>, an acceptable payload
  hash, and a signature equal to the HMAC chain, under the gateway's own secret, over the canonical
  request computed from the method, the canonical path and query, those headers and that hash.\<close>

theorem gateway_sound:
  assumes "paddock_auth st = Some auth"
    and "verify_gateway_signature sha cal now st = Some (Inr ())"
  shows "\<exists>amz_date t n auth_fields signed_headers headers payload_hash uri query.
      header_value st ''x-amz-date'' = Some amz_date
    \<and> parse_amz_timestamp cal amz_date = Inr t \<and> now = Some n \<and> \<bar>n - t\<bar> \<le> 900
    \<and> header_value st ''authorization'' = Some (''AWS4-HMAC-SHA256 '' @ auth_fields)
    \<and> authorization_parts auth_fields ''Credential'' =
        Some (join ''/'' [access_key auth, take 8 amz_date, auth_region auth, ''s3'', ''aws4_request''])
    \<and> authorization_parts auth_fields ''SignedHeaders'' = Some signed_headers
    \<and> sorted_wrt (<) (split_on (CHR '';'') signed_headers)
    \<and> {''host'', ''x-amz-date''} \<subseteq> set (split_on (CHR '';'') signed_headers)
    \<and> canonical_headers st (split_on (CHR '';'') signed_headers) = Inr headers
    \<and> accepted_payload_hash payload_hash (request_payload_hash st)
    \<and> canonical_path_and_query (request_path st) = Inr (uri, query)
    \<and> authorization_parts auth_fields ''Signature'' =
        expected_signature sha auth amz_date
          (canonical_request st uri query headers signed_headers payload_hash)
    \<and> expected_signature sha auth amz_date
          (canonical_request st uri query headers signed_headers payload_hash) \<noteq> None"
proof -
  obtain amz_date request signature where
    pres: "presented_signature cal now st auth = Inr (amz_date, request, signature)"
    and ok: "map_option (\<lambda>expected. if \<not> constant_time_hex_eq expected signature
        then Inl ''signature does not match'' else Inr ()) (expected_signature sha auth amz_date request)
      = Some (Inr ())"
    using assms by (auto simp: verify_gateway_signature_def split: sum.splits)
  then have sig: "expected_signature sha auth amz_date request = Some signature"
    by (auto simp: constant_time_hex_eq_iff split: if_splits)
  from pres show ?thesis
  proof (rule presented_Inr)
    fix authorization t n auth_fields credential signed_headers headers payload_hash uri query
    assume p: "header_value st ''authorization'' = Some authorization"
      "header_value st ''x-amz-date'' = Some amz_date"
      "parse_amz_timestamp cal amz_date = Inr t" "now = Some n" "\<bar>n - t\<bar> \<le> 900"
      "strip_prefix ''AWS4-HMAC-SHA256 '' authorization = Some auth_fields"
      "authorization_parts auth_fields ''Credential'' = Some credential"
      "check_scope auth amz_date credential = Inr ()"
      "authorization_parts auth_fields ''SignedHeaders'' = Some signed_headers"
      "authorization_parts auth_fields ''Signature'' = Some signature"
      "\<not> not_ascending (split_on (CHR '';'') signed_headers)"
      "canonical_headers st (split_on (CHR '';'') signed_headers) = Inr headers"
      "''host'' \<in> set (split_on (CHR '';'') signed_headers)"
      "''x-amz-date'' \<in> set (split_on (CHR '';'') signed_headers)"
      "payload_hash = (case header_value st ''x-amz-content-sha256'' of Some h \<Rightarrow> h | None \<Rightarrow> request_payload_hash st)"
      "accepted_payload_hash payload_hash (request_payload_hash st)"
      "canonical_path_and_query (request_path st) = Inr (uri, query)"
      "request = canonical_request st uri query headers signed_headers payload_hash"
    have prefix: "authorization = ''AWS4-HMAC-SHA256 '' @ auth_fields"
      using p(6) strip_prefix_Some by blast
    have cred: "credential = join ''/'' [access_key auth, take 8 amz_date, auth_region auth, ''s3'', ''aws4_request'']"
      by (rule check_scope_Inr [OF p(8)])
    have asc: "sorted_wrt (<) (split_on (CHR '';'') signed_headers)"
      using p(11) ascending_sorted by blast
    show ?thesis
      using p(1-5,7,9,10,12-14,16,17) sig asc unfolding prefix cred p(18)
      by (intro exI conjI) (assumption | simp)+
  qed
qed

subsection \<open>A request signed by the published algorithm is accepted\<close>

text \<open>Printable ASCII without the blank.\<close>

definition plain :: "string \<Rightarrow> bool" where
  "plain w \<longleftrightarrow> (\<forall>c\<in>set w. 33 \<le> byte_val c \<and> byte_val c \<le> 126)"

lemma plain_append [simp]: "plain (v @ w) \<longleftrightarrow> plain v \<and> plain w"
  by (auto simp: plain_def)

lemma plain_Cons: "plain (c # w) \<longleftrightarrow> 33 \<le> byte_val c \<and> byte_val c \<le> 126 \<and> plain w"
  by (auto simp: plain_def)

lemma plain_nil [simp]: "plain []"
  by (simp add: plain_def)

lemma plain_join: "plain sep \<Longrightarrow> (\<And>w. w \<in> set ws \<Longrightarrow> plain w) \<Longrightarrow> plain (join sep ws)"
  by (induction sep ws rule: join.induct) auto

lemma plain_space_len:
  assumes "plain w"
  shows "space_len w = 0"
proof (cases w)
  case (Cons c t)
  then have "33 \<le> byte_val c \<and> byte_val c \<le> 126" using assms by (simp add: plain_Cons)
  then have "\<not> ascii_space c" "\<And>b. \<not> wide_space2 c b" "\<And>a b. \<not> wide_space3 c a b"
    by (auto simp: ascii_space_def wide_space2_def wide_space3_def)
  then show ?thesis by (simp add: space_len_def Cons split: list.splits)
qed (simp add: space_len_def)

lemma plain_rev [simp]: "plain (rev w) = plain w"
  by (simp add: plain_def)

lemma plain_space_len_end:
  assumes "plain w"
  shows "space_len_end w = 0"
proof (cases "rev w")
  case (Cons c t)
  then have "33 \<le> byte_val c \<and> byte_val c \<le> 126" using assms plain_rev [of w] by (simp add: plain_Cons)
  then have "\<not> ascii_space c" "\<And>b. \<not> wide_space2 b c" "\<And>a b. \<not> wide_space3 a b c"
    by (auto simp: ascii_space_def wide_space2_def wide_space3_def)
  then show ?thesis by (simp add: space_len_end_def Cons split: list.splits)
qed (simp add: space_len_end_def)

lemma trim_start_plain: "plain w \<Longrightarrow> trim_start w = w"
  by (subst trim_start.simps) (simp add: plain_space_len)

lemma trim_end_plain: "plain w \<Longrightarrow> trim_end w = w"
  by (subst trim_end.simps) (simp add: plain_space_len_end)

lemma trim_plain: "plain w \<Longrightarrow> trim w = w"
  by (simp add: trim_def trim_start_plain trim_end_plain)

lemma trim_blank_plain: "plain w \<Longrightarrow> trim (CHR '' '' # w) = w"
proof -
  assume w: "plain w"
  have "space_len (CHR '' '' # w) = 1" by (simp add: space_len_def ascii_space_def byte_val_def)
  then have "trim_start (CHR '' '' # w) = trim_start w" by (subst trim_start.simps) simp
  then show ?thesis using w by (simp add: trim_def trim_start_plain trim_end_plain)
qed

lemma trim_ends:
  assumes "plain [c]" "plain [d]"
  shows "trim (c # w @ [d]) = c # w @ [d]"
proof -
  have c: "33 \<le> byte_val c \<and> byte_val c \<le> 126" and d: "33 \<le> byte_val d \<and> byte_val d \<le> 126"
    using assms by (simp_all add: plain_Cons)
  have "\<not> ascii_space c" "\<And>b. \<not> wide_space2 c b" "\<And>a b. \<not> wide_space3 c a b"
    using c by (auto simp: ascii_space_def wide_space2_def wide_space3_def)
  then have "space_len (c # w @ [d]) = 0" by (simp add: space_len_def split: list.splits)
  moreover have "\<not> ascii_space d" "\<And>b. \<not> wide_space2 b d" "\<And>a b. \<not> wide_space3 a b d"
    using d by (auto simp: ascii_space_def wide_space2_def wide_space3_def)
  then have "space_len_end (c # w @ [d]) = 0" by (simp add: space_len_end_def split: list.splits)
  ultimately show ?thesis
    unfolding trim_def by (subst trim_start.simps, subst trim_end.simps) simp
qed

lemma plain_hexdigits: "list_all is_ascii_hexdigit w \<Longrightarrow> plain w"
  by (auto simp: list_all_iff plain_def is_ascii_hexdigit_def is_ascii_digit_def)

lemma plain_header_name: "list_all header_name_char w \<Longrightarrow> plain w \<and> CHR '','' \<notin> set w \<and> CHR '';'' \<notin> set w"
  by (auto simp: list_all_iff plain_def header_name_char_def is_ascii_lower_def is_ascii_digit_def byte_val_def)

lemma canonical_headers_names:
  "canonical_headers st names = Inr hs \<Longrightarrow> name \<in> set names \<Longrightarrow> name \<noteq> [] \<and> list_all header_name_char name"
proof (induction st names arbitrary: hs rule: canonical_headers.induct)
  case (2 st n names)
  then show ?case
    by (cases "canonical_headers st names") (auto split: if_splits option.splits)
qed simp

text \<open>The header a client sends.\<close>

definition authorization_value :: "string \<Rightarrow> string \<Rightarrow> string \<Rightarrow> string" where
  "authorization_value credential signed_headers signature =
     ''AWS4-HMAC-SHA256 Credential='' @ credential @ '', SignedHeaders='' @ signed_headers
       @ '', Signature='' @ signature"

lemma authorization_parts_value:
  assumes "plain credential" "plain signed_headers" "plain signature"
    and "CHR '','' \<notin> set credential" "CHR '','' \<notin> set signed_headers" "CHR '','' \<notin> set signature"
  shows "authorization_parts (''Credential='' @ credential @ '', SignedHeaders='' @ signed_headers
       @ '', Signature='' @ signature) = [''Credential'' \<mapsto> credential, ''SignedHeaders'' \<mapsto> signed_headers,
         ''Signature'' \<mapsto> signature]"
proof -
  let ?a = "''Credential='' @ credential" and ?b = "''SignedHeaders='' @ signed_headers"
    and ?c = "''Signature='' @ signature"
  have "split_on (CHR '','') (?a @ CHR '','' # (CHR '' '' # ?b) @ CHR '','' # (CHR '' '' # ?c))
      = [?a, CHR '' '' # ?b, CHR '' '' # ?c]"
    using assms by (subst split_on_append, simp, subst split_on_append, simp, subst split_on_plain) simp_all
  moreover have "plain ?a" "plain ?b" "plain ?c"
    using assms by (simp_all add: plain_Cons byte_val_def)
  then have "trim ?a = ?a" "trim (CHR '' '' # ?b) = ?b" "trim (CHR '' '' # ?c) = ?c"
    by (simp_all only: trim_plain trim_blank_plain)
  moreover have "split_once (CHR ''='') ?a = Some (''Credential'', credential)"
    "split_once (CHR ''='') ?b = Some (''SignedHeaders'', signed_headers)"
    "split_once (CHR ''='') ?c = Some (''Signature'', signature)"
    by (simp_all add: split_once_def)
  ultimately show ?thesis
    by (simp add: authorization_parts_def List.map_filter_simps fun_upd_def fun_eq_iff)
qed

lemma expected_signature_hex:
  assumes sha: "\<And>x. length (sha x) = 32" and key: "length (secret_key auth) \<le> 60"
  shows "\<exists>s. expected_signature sha auth d r = Some s \<and> length s = 64 \<and> list_all is_ascii_hexdigit s"
proof -
  have next_key: "\<exists>y. hmac_sha256 sha (sha x) m = Some (sha y)" for x m
    using hmac_Some [of "sha x" sha m] hmac_Some_sha [of sha "sha x" m] sha [of x] by auto
  obtain a where "hmac_sha256 sha (''AWS4'' @ secret_key auth) (take 8 d) = Some (sha a)"
    using hmac_Some [of "''AWS4'' @ secret_key auth"] hmac_Some_sha key by fastforce
  moreover obtain b where "hmac_sha256 sha (sha a) (auth_region auth) = Some (sha b)" using next_key by blast
  moreover obtain c where "hmac_sha256 sha (sha b) ''s3'' = Some (sha c)" using next_key by blast
  moreover obtain e where "hmac_sha256 sha (sha c) ''aws4_request'' = Some (sha e)" using next_key by blast
  moreover obtain f where "hmac_sha256 sha (sha e) (string_to_sign sha auth d r) = Some (sha f)"
    using next_key by blast
  ultimately have "expected_signature sha auth d r = Some (hex_digest (sha f))"
    by (simp add: expected_signature_def signing_key_def)
  then show ?thesis using hex_digest_laws(1,2) [of "sha f"] sha [of f] by simp
qed

lemma plain_digits: "list_all is_ascii_digit w \<Longrightarrow> plain w \<and> CHR '','' \<notin> set w \<and> CHR ''/'' \<notin> set w"
  by (auto simp: list_all_iff plain_def is_ascii_digit_def byte_val_def)

lemma free_join: "c \<notin> set sep \<Longrightarrow> (\<And>w. w \<in> set ws \<Longrightarrow> c \<notin> set w) \<Longrightarrow> c \<notin> set (join sep ws)"
  using set_join [of sep ws] by auto

lemma parse_date_digits: "parse_amz_timestamp cal d = Inr t \<Longrightarrow> list_all is_ascii_digit (take 8 d)"
  by (auto simp: parse_amz_timestamp_def digits_at_def split: if_splits)

lemma signed_accepted:
  fixes cal :: "('m, 'd, 'c) calendar"
  assumes sha: "\<And>x. length (sha x) = 32"
    and auth: "paddock_auth st = Some auth" "length (secret_key auth) \<le> 60"
      "plain (access_key auth)" "plain (auth_region auth)"
      "CHR '','' \<notin> set (access_key auth)" "CHR ''/'' \<notin> set (access_key auth)"
      "CHR '','' \<notin> set (auth_region auth)" "CHR ''/'' \<notin> set (auth_region auth)"
    and date: "header_value st ''x-amz-date'' = Some amz_date"
      "parse_amz_timestamp cal amz_date = Inr t" "now = Some n" "\<bar>n - t\<bar> \<le> 900"
    and names: "sorted_wrt (<) names" "''host'' \<in> set names" "''x-amz-date'' \<in> set names"
      "canonical_headers st names = Inr headers"
    and payload: "payload_hash = (case header_value st ''x-amz-content-sha256'' of Some h \<Rightarrow> h | None \<Rightarrow> request_payload_hash st)"
      "accepted_payload_hash payload_hash (request_payload_hash st)"
    and path: "canonical_path_and_query (request_path st) = Inr (uri, query)"
    and header: "header_value st ''authorization'' = Some (authorization_value
        (join ''/'' [access_key auth, take 8 amz_date, auth_region auth, ''s3'', ''aws4_request''])
        (join '';'' names)
        (the (expected_signature sha auth amz_date
          (canonical_request st uri query headers (join '';'' names) payload_hash))))"
  shows "verify_gateway_signature sha cal now st = Some (Inr ())"
proof -
  let ?cred = "join ''/'' [access_key auth, take 8 amz_date, auth_region auth, ''s3'', ''aws4_request'']"
  let ?sh = "join '';'' names"
  let ?req = "canonical_request st uri query headers ?sh payload_hash"
  obtain s where sig: "expected_signature sha auth amz_date ?req = Some s" "length s = 64" "list_all is_ascii_hexdigit s"
    using expected_signature_hex [where sha = sha, OF sha auth(2)] by blast
  have name: "name \<noteq> [] \<and> list_all header_name_char name" if "name \<in> set names" for name
    using canonical_headers_names [OF names(4) that] .
  have day: "plain (take 8 amz_date)" "CHR '','' \<notin> set (take 8 amz_date)" "CHR ''/'' \<notin> set (take 8 amz_date)"
    using plain_digits [OF parse_date_digits [OF date(2)]] by auto
  have nonempty: "names \<noteq> []" using names(2) by auto
  have signed: "split_on (CHR '';'') ?sh = names"
    using name plain_header_name by (intro split_join [OF nonempty]) blast
  have "split_on (CHR ''/'') ?cred = [access_key auth, take 8 amz_date, auth_region auth, ''s3'', ''aws4_request'']"
    using auth(6,8) day(3) by (intro split_join) auto
  then have scope: "check_scope auth amz_date ?cred = Inr ()"
    by (simp add: check_scope_def Let_def)
  have "plain ?cred"
    using auth(3,4) day(1) by (intro plain_join) (auto simp: plain_Cons byte_val_def)
  moreover have "CHR '','' \<notin> set ?cred"
    using auth(5,7) day(2) by (intro free_join) auto
  moreover have "plain ?sh"
    using name plain_header_name by (intro plain_join) (auto simp: plain_Cons byte_val_def)
  moreover have "CHR '','' \<notin> set ?sh"
    using name plain_header_name by (intro free_join) auto
  moreover have "plain s" "CHR '','' \<notin> set s"
    using sig(3) plain_hexdigits by (auto simp: list_all_iff is_ascii_hexdigit_def is_ascii_digit_def byte_val_def)
  ultimately have parts: "authorization_parts (''Credential='' @ ?cred @ '', SignedHeaders='' @ ?sh @ '', Signature='' @ s)
      = [''Credential'' \<mapsto> ?cred, ''SignedHeaders'' \<mapsto> ?sh, ''Signature'' \<mapsto> s]"
    by (intro authorization_parts_value)
  have prefix: "strip_prefix ''AWS4-HMAC-SHA256 '' (authorization_value ?cred ?sh s)
      = Some (''Credential='' @ ?cred @ '', SignedHeaders='' @ ?sh @ '', Signature='' @ s)"
    by (simp add: strip_prefix_def authorization_value_def)
  have asc: "\<not> not_ascending names" using names(1) ascending_sorted by blast
  have "presented_signature cal now st auth = Inr (amz_date, ?req, s)"
    unfolding presented_signature_def header sig(1) option.sel date need_def option.case bind_result_def sum.case
      prefix parts scope Let_def signed names(4) path payload(1) [symmetric]
    using sig(2,3) asc names(2,3) payload(2) date(4) scope path
    by (simp add: guard_result_def signed names(4) path)
  then show ?thesis
    by (simp add: verify_gateway_signature_def auth(1) sig(1) constant_time_hex_eq_iff)
qed

subsection \<open>A concrete gateway\<close>

definition demo_cal :: "(nat, nat, nat) calendar" where
  "demo_cal =
     \<lparr>month_try_from = (\<lambda>m. if 1 \<le> m \<and> m \<le> 12 then Some m else None),
      from_calendar_date = (\<lambda>y m d. if 1 \<le> d \<and> d \<le> 28 then Some (372 * y + 31 * m + d) else None),
      from_hms = (\<lambda>h m s. if h < 24 \<and> m < 60 \<and> s < 60 then Some (3600 * h + 60 * m + s) else None),
      unix_timestamp = (\<lambda>d c. int (86400 * d + c))\<rparr>"

definition demo_auth :: gateway_auth where
  "demo_auth = \<lparr>access_key = ''AKID'', secret_key = ''secret'', auth_region = ''eu''\<rparr>"

definition demo_date :: string where
  "demo_date = ''20240102T030405Z''"

definition demo_base :: "(string \<times> string) list" where
  "demo_base = [(''Host'', ''s3.local''), (''X-Amz-Date'', demo_date)]"

definition demo_gateway :: "string \<Rightarrow> gateway_auth \<Rightarrow> gateway_state" where
  "demo_gateway signature auth =
     \<lparr>paddock_auth = Some auth, request_method = ''get'', request_path = ''/a b?z&k=1'',
      request_headers = demo_base @ [(''Authorization'', authorization_value
        (join ''/'' [access_key auth, take 8 demo_date, auth_region auth, ''s3'', ''aws4_request''])
        (join '';'' [''host'', ''x-amz-date'']) signature)],
      request_payload_hash = ''abc''\<rparr>"

definition demo_request :: string where
  "demo_request = canonical_request (demo_gateway [] demo_auth) ''/a%20b'' ''k=1&z=''
     (''host:s3.local\<newline>x-amz-date:20240102T030405Z\<newline>'') (join '';'' [''host'', ''x-amz-date'']) ''abc''"

definition demo_signed :: gateway_state where
  "demo_signed = demo_gateway (the (expected_signature demo_sha demo_auth demo_date demo_request)) demo_auth"

lemma demo_header [simp]:
  "header_value (demo_gateway sig auth) ''host'' = Some ''s3.local''"
  "header_value (demo_gateway sig auth) ''x-amz-date'' = Some demo_date"
  "header_value (demo_gateway sig auth) ''x-amz-content-sha256'' = None"
proof -
  have host: "eq_ignore_ascii_case ''Host'' ''host''" and "\<not> eq_ignore_ascii_case ''Host'' ''x-amz-date''"
    and "eq_ignore_ascii_case ''X-Amz-Date'' ''x-amz-date''"
    and "\<not> eq_ignore_ascii_case ''Host'' ''x-amz-content-sha256''"
    and "\<not> eq_ignore_ascii_case ''X-Amz-Date'' ''x-amz-content-sha256''"
    and "\<not> eq_ignore_ascii_case ''Authorization'' ''x-amz-content-sha256''"
    by code_simp+
  moreover have "trim ''s3.local'' = ''s3.local''" "trim demo_date = demo_date"
    unfolding demo_date_def by (rule trim_plain, code_simp)+
  ultimately show "header_value (demo_gateway sig auth) ''host'' = Some ''s3.local''"
    "header_value (demo_gateway sig auth) ''x-amz-date'' = Some demo_date"
    "header_value (demo_gateway sig auth) ''x-amz-content-sha256'' = None"
    by (simp_all add: header_value_def demo_gateway_def demo_base_def)
qed

lemma demo_authorization:
  assumes "plain sig" "sig \<noteq> []"
  shows "header_value (demo_gateway sig auth) ''authorization'' = Some (authorization_value
        (join ''/'' [access_key auth, take 8 demo_date, auth_region auth, ''s3'', ''aws4_request''])
        (join '';'' [''host'', ''x-amz-date'']) sig)"
proof -
  obtain w d where sig: "sig = w @ [d]" using assms(2) by (cases sig rule: rev_cases) auto
  have "plain [CHR ''A'']" "plain [d]" using assms(1) by (simp_all add: sig plain_Cons byte_val_def)
  then have "trim (authorization_value c n sig) = authorization_value c n sig" for c n
    using trim_ends [of "CHR ''A''" d "''WS4-HMAC-SHA256 Credential='' @ c @ '', SignedHeaders='' @ n @ '', Signature='' @ w"]
    by (simp add: authorization_value_def sig)
  moreover have "\<not> eq_ignore_ascii_case ''Host'' ''authorization''"
    "\<not> eq_ignore_ascii_case ''X-Amz-Date'' ''authorization''"
    "eq_ignore_ascii_case ''Authorization'' ''authorization''"
    by code_simp+
  ultimately show ?thesis by (simp add: header_value_def demo_gateway_def demo_base_def)
qed

lemma demo_names: "canonical_headers (demo_gateway sig auth) [''host'', ''x-amz-date'']
    = Inr ''host:s3.local\<newline>x-amz-date:20240102T030405Z\<newline>''"
proof -
  have "list_all header_name_char ''host''" "list_all header_name_char ''x-amz-date''"
    "join '' '' (split_whitespace ''s3.local'') = ''s3.local''"
    "join '' '' (split_whitespace demo_date) = demo_date"
    by code_simp+
  then show ?thesis by (simp add: demo_date_def)
qed

lemma demo_time: "parse_amz_timestamp demo_cal demo_date = Inr 65055841445"
  by (simp add: parse_amz_timestamp_def demo_date_def demo_cal_def digits_at_def undec_def
    digit_val_def byte_val_def is_ascii_digit_def Let_def)

lemma demo_path: "canonical_path_and_query ''/a b?z&k=1'' = Inr (''/a%20b'', ''k=1&z='')"
  by code_simp

lemma demo_request_gateway: "canonical_request (demo_gateway sig auth) ''/a%20b'' ''k=1&z=''
     (''host:s3.local\<newline>x-amz-date:20240102T030405Z\<newline>'') (join '';'' [''host'', ''x-amz-date'']) ''abc''
    = demo_request"
  by (simp add: demo_request_def canonical_request_def demo_gateway_def)

lemma demo_names_sorted: "sorted_wrt (<) [''host'', ''x-amz-date'']"
  by code_simp

lemma demo_signature: "\<exists>s. expected_signature demo_sha demo_auth demo_date demo_request = Some s \<and> length s = 64
    \<and> list_all is_ascii_hexdigit s"
  by (rule expected_signature_hex [OF length_demo_sha]) (simp add: demo_auth_def)

lemma demo_signed_header:
  "header_value demo_signed ''authorization'' = Some (authorization_value
        (join ''/'' [access_key demo_auth, take 8 demo_date, auth_region demo_auth, ''s3'', ''aws4_request''])
        (join '';'' [''host'', ''x-amz-date''])
        (the (expected_signature demo_sha demo_auth demo_date demo_request)))"
proof -
  have "plain (the (expected_signature demo_sha demo_auth demo_date demo_request))"
    "the (expected_signature demo_sha demo_auth demo_date demo_request) \<noteq> []"
    using demo_signature plain_hexdigits by auto
  then show ?thesis unfolding demo_signed_def by (rule demo_authorization)
qed

lemma demo_accepted: "verify_gateway_signature demo_sha demo_cal (Some 65055841500) demo_signed = Some (Inr ())"
proof (rule signed_accepted [OF length_demo_sha _ _ _ _ _ _ _ _ _ demo_time])
  show "paddock_auth demo_signed = Some demo_auth" by (simp add: demo_signed_def demo_gateway_def)
  show "header_value demo_signed ''x-amz-date'' = Some demo_date" by (simp add: demo_signed_def)
  show "\<bar>65055841500 - 65055841445\<bar> \<le> (900 :: int)" by simp
  show "canonical_path_and_query (request_path demo_signed) = Inr (''/a%20b'', ''k=1&z='')"
    using demo_path by (simp add: demo_signed_def demo_gateway_def)
  show "sorted_wrt (<) [''host'', ''x-amz-date'']" by (rule demo_names_sorted)
  show "canonical_headers demo_signed [''host'', ''x-amz-date'']
    = Inr ''host:s3.local\<newline>x-amz-date:20240102T030405Z\<newline>''"
    unfolding demo_signed_def by (rule demo_names)
  show "''abc'' = (case header_value demo_signed ''x-amz-content-sha256'' of Some h \<Rightarrow> h
      | None \<Rightarrow> request_payload_hash demo_signed)"
    unfolding demo_signed_def by (simp, simp add: demo_gateway_def)
  show "header_value demo_signed ''authorization'' = Some (authorization_value
        (join ''/'' [access_key demo_auth, take 8 demo_date, auth_region demo_auth, ''s3'', ''aws4_request''])
        (join '';'' [''host'', ''x-amz-date''])
        (the (expected_signature demo_sha demo_auth demo_date
          (canonical_request demo_signed ''/a%20b'' ''k=1&z=''
            ''host:s3.local\<newline>x-amz-date:20240102T030405Z\<newline>'' (join '';'' [''host'', ''x-amz-date'']) ''abc''))))"
    using demo_signed_header demo_request_gateway unfolding demo_signed_def by simp
qed (simp_all add: demo_auth_def plain_Cons byte_val_def demo_signed_def accepted_payload_hash_def demo_gateway_def)

theorem gateway_sound_witness:
  "\<exists>f. header_value demo_signed ''authorization'' = Some (''AWS4-HMAC-SHA256 '' @ f)"
proof -
  have "paddock_auth demo_signed = Some demo_auth" by (simp add: demo_signed_def demo_gateway_def)
  from gateway_sound [OF this demo_accepted] show ?thesis by blast
qed



text \<open>A long secret takes the gateway down. With a secret key of more than 60 bytes the check
  panics on every request that gets as far as the signature, instead of accepting or rejecting it,
  because the first HMAC key, \<^verbatim>\<open>AWS4\<close> and the secret, is longer than a block.\<close>

theorem gateway_long_secret_panics:
  assumes "\<And>x. length (sha x) = 32" and "paddock_auth st = Some auth" and "60 < length (secret_key auth)"
    and "presented_signature cal now st auth = Inr (amz_date, request, signature)"
  shows "verify_gateway_signature sha cal now st = None"
proof -
  have "hmac_sha256 sha (''AWS4'' @ secret_key auth) (take 8 amz_date) = None"
    using assms(1,3) by (simp add: hmac_sha256_def hmac_padded_def Let_def)
  then show ?thesis
    using assms(2,4) by (simp add: verify_gateway_signature_def expected_signature_def signing_key_def)
qed

definition demo_long :: gateway_auth where
  "demo_long = \<lparr>access_key = ''AKID'', secret_key = replicate 61 (CHR ''s''), auth_region = ''eu''\<rparr>"

definition demo_sig :: string where
  "demo_sig = replicate 64 (CHR ''0'')"

lemma demo_presented: "\<exists>r. presented_signature demo_cal (Some 65055841500) (demo_gateway demo_sig demo_long) demo_long
    = Inr (demo_date, r, demo_sig)"
proof -
  have sig: "plain demo_sig" "demo_sig \<noteq> []" "list_all is_ascii_hexdigit demo_sig" "length demo_sig = 64"
      "CHR '','' \<notin> set demo_sig"
    by (auto simp: demo_sig_def plain_def byte_val_def list_all_iff is_ascii_hexdigit_def is_ascii_digit_def)
  let ?cred = "join ''/'' [access_key demo_long, take 8 demo_date, auth_region demo_long, ''s3'', ''aws4_request'']"
  let ?sh = "join '';'' [''host'', ''x-amz-date'']"
  have prefix: "strip_prefix ''AWS4-HMAC-SHA256 '' (authorization_value ?cred ?sh demo_sig)
      = Some (''Credential='' @ ?cred @ '', SignedHeaders='' @ ?sh @ '', Signature='' @ demo_sig)"
    by (simp add: strip_prefix_def authorization_value_def)
  have "plain ?cred" "plain ?sh" "CHR '','' \<notin> set ?cred" "CHR '','' \<notin> set ?sh"
    by (simp_all add: demo_long_def demo_date_def plain_Cons byte_val_def)
  then have parts: "authorization_parts (''Credential='' @ ?cred @ '', SignedHeaders='' @ ?sh @ '', Signature='' @ demo_sig)
      = [''Credential'' \<mapsto> ?cred, ''SignedHeaders'' \<mapsto> ?sh, ''Signature'' \<mapsto> demo_sig]"
    using sig by (intro authorization_parts_value)
  have scope: "check_scope demo_long demo_date ?cred = Inr ()"
    by (simp add: check_scope_def demo_long_def demo_date_def Let_def)
  have signed: "split_on (CHR '';'') ?sh = [''host'', ''x-amz-date'']"
    by (intro split_join) auto
  have asc: "\<not> not_ascending [''host'', ''x-amz-date'']"
    using demo_names_sorted ascending_sorted by blast
  have path: "canonical_path_and_query (request_path (demo_gateway demo_sig demo_long)) = Inr (''/a%20b'', ''k=1&z='')"
    using demo_path by (simp add: demo_gateway_def)
  have hash: "request_payload_hash (demo_gateway demo_sig demo_long) = ''abc''" by (simp add: demo_gateway_def)
  show ?thesis
    unfolding presented_signature_def demo_authorization [OF sig(1,2)] demo_header need_def option.case
      bind_result_def sum.case demo_time prefix parts Let_def signed demo_names path hash
    using sig asc scope
    by (simp add: guard_result_def signed demo_names path accepted_payload_hash_def
      del: canonical_headers.simps)
qed

theorem gateway_long_secret_panics_witness:
  "verify_gateway_signature demo_sha demo_cal (Some 65055841500) (demo_gateway demo_sig demo_long) = None"
proof -
  obtain r where "presented_signature demo_cal (Some 65055841500) (demo_gateway demo_sig demo_long) demo_long
    = Inr (demo_date, r, demo_sig)"
    using demo_presented by blast
  from gateway_long_secret_panics [where sha = demo_sha, OF length_demo_sha _ _ this]
  show ?thesis by (simp add: demo_gateway_def demo_long_def)
qed

lemma parse_fields:
  assumes "length Y = 4" "length M = 2" "length D = 2" "length H = 2" "length I = 2" "length S = 2"
    and "list_all is_ascii_digit Y" "list_all is_ascii_digit M" "list_all is_ascii_digit D"
      "list_all is_ascii_digit H" "list_all is_ascii_digit I" "list_all is_ascii_digit S"
    and "month_try_from cal (undec M) = Some month" "from_calendar_date cal (undec Y) month (undec D) = Some date"
    and "from_hms cal (undec H) (undec I) (undec S) = Some clock"
  shows "parse_amz_timestamp cal ((Y @ M @ D) @ CHR ''T'' # (H @ I @ S) @ ''Z'') = Inr (unix_timestamp cal date clock)"
proof -
  let ?v = "(Y @ M @ D) @ CHR ''T'' # (H @ I @ S) @ ''Z''"
  have "length (Y @ M @ D) = 8" "length ((Y @ M @ D) @ CHR ''T'' # (H @ I @ S)) = 15"
    using assms(1-6) by simp_all
  then have nth: "?v ! 8 = CHR ''T''" "?v ! 15 = CHR ''Z''"
    by (metis nth_append_length, metis append.assoc append_Cons nth_append_length)
  have "digits_at ?v 0 8 = Y @ M @ D" "digits_at ?v 9 15 = H @ I @ S"
    "digits_at ?v 0 4 = Y" "digits_at ?v 4 6 = M" "digits_at ?v 6 8 = D"
    "digits_at ?v 9 11 = H" "digits_at ?v 11 13 = I" "digits_at ?v 13 15 = S"
    using assms(1-6) by (simp_all add: digits_at_def)
  moreover have "length ?v = 16" using assms(1-6) by simp
  ultimately show ?thesis
    using nth assms(7-15) by (simp only: parse_amz_timestamp_def Let_def list_all_append) simp
qed

text \<open>Timestamps are read back. A date and time rendered as
  \<^verbatim>\<open>YYYYMMDDTHHMMSSZ\<close> with zero-padded fields that the calendar accepts parses to the Unix
  time of exactly these fields.\<close>

theorem timestamp_roundtrip:
  assumes "y < 10000" "mo < 100" "d < 100" "h < 100" "mi < 100" "s < 100"
    and "month_try_from cal mo = Some month" "from_calendar_date cal y month d = Some date"
    and "from_hms cal h mi s = Some clock"
  shows "parse_amz_timestamp cal (pad0 4 (dec y) @ pad0 2 (dec mo) @ pad0 2 (dec d) @ ''T''
      @ pad0 2 (dec h) @ pad0 2 (dec mi) @ pad0 2 (dec s) @ ''Z'') = Inr (unix_timestamp cal date clock)"
proof -
  have two: "length (pad0 2 (dec n)) = 2 \<and> list_all is_ascii_digit (pad0 2 (dec n))" if "n < 100" for n
    using padded_number [of n 2] that by simp
  have year: "length (pad0 4 (dec y)) = 4 \<and> list_all is_ascii_digit (pad0 4 (dec y))"
    using padded_number [of y 4] assms(1) by simp
  have "parse_amz_timestamp cal ((pad0 4 (dec y) @ pad0 2 (dec mo) @ pad0 2 (dec d)) @ CHR ''T'' #
      (pad0 2 (dec h) @ pad0 2 (dec mi) @ pad0 2 (dec s)) @ ''Z'') = Inr (unix_timestamp cal date clock)"
    by (rule parse_fields [where month = month])
      (simp_all only: year two [OF assms(2)] two [OF assms(3)] two [OF assms(4)] two [OF assms(5)]
        two [OF assms(6)] undec_pad0 undec_dec assms(7-9))
  then show ?thesis by simp
qed

theorem timestamp_roundtrip_witness: "parse_amz_timestamp demo_cal ''20240102T030405Z'' = Inr 65055841445"
proof -
  have shown: "pad0 4 (dec 2024) @ pad0 2 (dec 1) @ pad0 2 (dec 2) @ ''T''
      @ pad0 2 (dec 3) @ pad0 2 (dec 4) @ pad0 2 (dec 5) @ ''Z'' = ''20240102T030405Z''"
    by code_simp
  have "month_try_from demo_cal 1 = Some 1" "from_calendar_date demo_cal 2024 1 2 = Some 752961"
    "from_hms demo_cal 3 4 5 = Some 11045"
    by (simp_all add: demo_cal_def)
  from timestamp_roundtrip [OF _ _ _ _ _ _ this] show ?thesis
    unfolding shown by (simp add: demo_cal_def)
qed

end
