(* ===== verification/Rt_Exec_Claims.thy ===== *)
theory Rt_Exec_Claims
  imports Rt_Exec
begin

section \<open>What an execution promises\<close>

text \<open>
  The shared contract of the two ways to run a guest as a locale, its interpretation on
  \<^verbatim>\<open>execute_p1\<close> and \<^verbatim>\<open>execute_p2\<close>, and the properties: validation, the shape of
  results, an exact specification of interruptions and of captured output, panics, and how HTTP
  executions report an interruption.
\<close>

subsection \<open>Running a guest, specified\<close>

text \<open>The events that stop a guest under a deadline and a limit, and what they stop it with.\<close>

fun stops :: "instant option \<Rightarrow> nat option \<Rightarrow> guest_event \<Rightarrow> bool" where
  "stops deadline limit (Tick cancelled now) \<longleftrightarrow> cancelled \<or> (\<exists>d. deadline = Some d \<and> d \<le> now)"
| "stops deadline limit (Grow desired) \<longleftrightarrow> (\<exists>l. limit = Some l \<and> l < desired)"
| "stops deadline limit (WriteOut _) \<longleftrightarrow> False"
| "stops deadline limit (WriteErr _) \<longleftrightarrow> False"

fun stop_status :: "guest_event \<Rightarrow> ExecutionStatus" where
  "stop_status (Tick cancelled _) = (if cancelled then Cancelled else TimedOut)"
| "stop_status (Grow _) = MemoryLimitExceeded"
| "stop_status _ = RuntimeError"

fun out_of :: "guest_event \<Rightarrow> string" where
  "out_of (WriteOut bytes) = bytes"
| "out_of _ = []"

fun err_of :: "guest_event \<Rightarrow> string" where
  "err_of (WriteErr bytes) = bytes"
| "err_of _ = []"

definition quiet :: "store \<Rightarrow> bool" where
  "quiet s \<longleftrightarrow> control_signal (st_control s) = SigNone \<and> \<not> memory_exceeded (st_limiter s)"

abbreviation store_stops :: "store \<Rightarrow> guest_event \<Rightarrow> bool" where
  "store_stops s \<equiv> stops (ctl_deadline (st_control s)) (memory_limit (st_limiter s))"

text \<open>The events of a run that take effect: those before the first that stops it.\<close>

abbreviation effective :: "store \<Rightarrow> guest_event list \<Rightarrow> guest_event list" where
  "effective s \<equiv> takeWhile (\<lambda>ev. \<not> store_stops s ev)"

lemma signal_codes [simp]:
  "control_signal (c\<lparr>ctl_signal := signal_code SigCancelled\<rparr>) = SigCancelled"
  "control_signal (c\<lparr>ctl_signal := signal_code SigTimedOut\<rparr>) = SigTimedOut"
  "control_signal (c\<lparr>ctl_signal := 2\<rparr>) = SigCancelled"
  "control_signal (c\<lparr>ctl_signal := Suc 0\<rparr>) = SigTimedOut"
  by (simp_all add: control_signal_def)

lemma tick_continues:
  "\<not> store_stops s (Tick cancelled now) \<Longrightarrow> epoch_callback cancelled now (st_control s) = (Continue, st_control s)"
  by (auto simp: epoch_callback_def timed_out_def split: option.splits)

lemma tick_stops:
  "store_stops s (Tick cancelled now) \<Longrightarrow> epoch_callback cancelled now (st_control s) =
    (Interrupt, (st_control s)\<lparr>ctl_signal := signal_code (if cancelled then SigCancelled else SigTimedOut)\<rparr>)"
  by (auto simp: epoch_callback_def timed_out_def split: option.splits)

lemma grow_continues:
  "\<not> store_stops s (Grow desired) \<Longrightarrow> memory_growing desired (st_limiter s) = (Inr True, st_limiter s)"
  by (auto simp: memory_growing_def split: option.splits)

lemma grow_stops:
  "store_stops s (Grow desired) \<Longrightarrow>
    \<exists>msg. memory_growing desired (st_limiter s) = (Inl msg, (st_limiter s)\<lparr>memory_exceeded := True\<rparr>)"
  by (auto simp: memory_growing_def split: option.splits)

text \<open>A run of a quiet store without a stopping event reaches the end and stays quiet.\<close>

lemma run_guest_free:
  assumes "quiet s" and "find (store_stops s) evs = None"
  shows "\<exists>s'. run_guest trap_text evs final s = (final, s') \<and> quiet s'
    \<and> st_control s' = st_control s \<and> st_limiter s' = st_limiter s
    \<and> st_stdout s' = st_stdout s @ concat (map out_of evs)
    \<and> st_stderr s' = st_stderr s @ concat (map err_of evs)"
  using assms
proof (induction evs arbitrary: s)
  case Nil
  then show ?case by simp
next
  case (Cons ev evs)
  then have "\<not> store_stops s ev" "find (store_stops s) evs = None" by (auto split: if_splits)
  then show ?case using Cons.prems(1) Cons.IH [of s] Cons.IH [of "s\<lparr>st_stdout := st_stdout s @ out_of ev\<rparr>"]
      Cons.IH [of "s\<lparr>st_stderr := st_stderr s @ err_of ev\<rparr>"]
    by (cases ev) (simp_all add: tick_continues grow_continues quiet_def del: stops.simps(1,2))
qed

text \<open>Otherwise the first stopping event ends it, with an error and with the sign of that event.\<close>

definition stopped :: "store \<Rightarrow> guest_event \<Rightarrow> bool" where
  "stopped s ev \<longleftrightarrow> (\<not> quiet s \<and> status_for_error (st_limiter s) (st_control s) = stop_status ev)"

lemma run_guest_stops:
  assumes "quiet s" and "find (store_stops s) evs = Some ev"
  shows "\<exists>msg s'. run_guest trap_text evs final s = (Inl (CallError None msg), s') \<and> stopped s' ev
    \<and> st_stdout s' = st_stdout s @ concat (map out_of (effective s evs))
    \<and> st_stderr s' = st_stderr s @ concat (map err_of (effective s evs))
    \<and> ((\<exists>cancelled now. ev = Tick cancelled now) \<longrightarrow> msg = trap_text)"
  using assms
proof (induction evs arbitrary: s)
  case Nil
  then show ?case by simp
next
  case (Cons first evs)
  show ?case
  proof (cases "store_stops s first")
    case True
    then have "ev = first" using Cons.prems by simp
    then show ?thesis using True Cons.prems(1) grow_stops [of s]
      by (cases first)
        (fastforce simp: tick_stops stopped_def quiet_def status_for_error_def simp del: stops.simps(1,2))+
  next
    case False
    then have "find (store_stops s) evs = Some ev" using Cons.prems by simp
    then show ?thesis
      using False Cons.prems(1) Cons.IH [of s] Cons.IH [of "s\<lparr>st_stdout := st_stdout s @ out_of first\<rparr>"]
        Cons.IH [of "s\<lparr>st_stderr := st_stderr s @ err_of first\<rparr>"]
      by (cases first) (simp_all add: tick_continues grow_continues quiet_def del: stops.simps(1,2))
  qed
qed

lemma new_store_simps [simp]:
  "quiet (new_store now r)"
  "ctl_deadline (st_control (new_store now r)) = map_option ((+) now) (lim_timeout (req_limits r))"
  "memory_limit (st_limiter (new_store now r)) = lim_memory_bytes (req_limits r)"
  "st_stdout (new_store now r) = []"
  "st_stderr (new_store now r) = []"
  by (simp_all add: new_store_def new_control_def new_limiter_def quiet_def control_signal_def)

subsection \<open>The contract of the runners\<close>

text \<open>
  What the status of an execution has to be: an instantiation or a call that meets a stopping event
  ends with the status of the first one, a failed instantiation or lookup is a runtime error, and
  otherwise the verdict on how the call ended counts.
\<close>

abbreviation req_stops :: "instant \<Rightarrow> ExecutionRequest \<Rightarrow> guest_event \<Rightarrow> bool" where
  "req_stops now r \<equiv> stops (map_option ((+) now) (lim_timeout (req_limits r))) (lim_memory_bytes (req_limits r))"

definition spec_status ::
  "(call_error + 'r \<Rightarrow> ExecutionStatus) \<Rightarrow> instant \<Rightarrow> 'r guest \<Rightarrow> bool \<Rightarrow> ExecutionRequest \<Rightarrow> ExecutionStatus" where
  "spec_status verdict now g found r =
     (case find (req_stops now r) (g_inst_events g) of
        Some ev \<Rightarrow> stop_status ev
      | None \<Rightarrow>
          if isl (g_inst_final g) \<or> \<not> found then RuntimeError
          else (case find (req_stops now r) (g_call_events g) of
                  Some ev \<Rightarrow> stop_status ev
                | None \<Rightarrow> verdict (g_call_final g)))"

text \<open>The events that take effect.\<close>

definition spec_events :: "instant \<Rightarrow> 'r guest \<Rightarrow> bool \<Rightarrow> ExecutionRequest \<Rightarrow> guest_event list" where
  "spec_events now g found r =
     takeWhile (\<lambda>ev. \<not> req_stops now r ev) (g_inst_events g)
     @ (if find (req_stops now r) (g_inst_events g) \<noteq> None \<or> isl (g_inst_final g) \<or> \<not> found then []
        else takeWhile (\<lambda>ev. \<not> req_stops now r ev) (g_call_events g))"

text \<open>Status, exit code and error of a result fit together.\<close>

definition well_shaped :: "RuntimeExecutionResult \<Rightarrow> bool" where
  "well_shaped res \<longleftrightarrow>
     (res_status res = Completed \<longleftrightarrow> res_exit_code res = Some 0)
     \<and> (res_status res = GuestExitNonZero \<longleftrightarrow> (\<exists>code. res_exit_code res = Some code \<and> code \<noteq> 0))
     \<and> (res_status res = Completed \<longleftrightarrow> res_error res = None)"

locale guest_runner =
  fixes exec :: "instant \<Rightarrow> 'r guest \<Rightarrow> ExecutionRequest \<Rightarrow> RuntimeExecutionResult"
    and lookup :: "'r guest \<Rightarrow> string option"
    and verdict :: "call_error + 'r \<Rightarrow> ExecutionStatus"
    and code_of :: "call_error + 'r \<Rightarrow> int option"
    and error_of :: "call_error + 'r \<Rightarrow> string option"
  assumes inst_error:
    "run_guest (g_trap_text g) (g_inst_events g) (g_inst_final g) (new_store now r) = (Inl e, s) \<Longrightarrow>
      exec now g r = make_result (status_for_error (st_limiter s) (st_control s)) None s g (Some (message e))"
    and lookup_error:
    "run_guest (g_trap_text g) (g_inst_events g) (g_inst_final g) (new_store now r) = (Inr u, s) \<Longrightarrow>
      lookup g = Some msg \<Longrightarrow>
      exec now g r = make_result (status_for_error (st_limiter s) (st_control s)) None s g (Some msg)"
    and call_interrupted:
    "run_guest (g_trap_text g) (g_inst_events g) (g_inst_final g) (new_store now r) = (Inr u, s) \<Longrightarrow>
      lookup g = None \<Longrightarrow> run_guest (g_trap_text g) (g_call_events g) (g_call_final g) s = (outcome, s') \<Longrightarrow>
      interrupted s' g = Some res \<Longrightarrow> exec now g r = res"
    and call_returns:
    "run_guest (g_trap_text g) (g_inst_events g) (g_inst_final g) (new_store now r) = (Inr u, s) \<Longrightarrow>
      lookup g = None \<Longrightarrow> run_guest (g_trap_text g) (g_call_events g) (g_call_final g) s = (outcome, s') \<Longrightarrow>
      interrupted s' g = None \<Longrightarrow>
      exec now g r = make_result (verdict outcome) (code_of outcome) s' g (error_of outcome)"
    and verdict_shape:
    "well_shaped (make_result (verdict outcome) (code_of outcome) s g (error_of outcome))"
begin

text \<open>The three ways an execution can go.\<close>

lemma inst_stops:
  assumes "find (req_stops now r) (g_inst_events g) = Some ev"
  shows "\<exists>s msg. exec now g r = make_result (stop_status ev) None s g (Some msg)
    \<and> st_stdout s = concat (map out_of (spec_events now g found r))
    \<and> st_stderr s = concat (map err_of (spec_events now g found r))"
  using run_guest_stops [of "new_store now r" "g_inst_events g" ev "g_trap_text g" "g_inst_final g"] assms
    inst_error [of g now r]
  by (fastforce simp: spec_events_def stopped_def)

lemma no_call:
  assumes "find (req_stops now r) (g_inst_events g) = None"
    and "isl (g_inst_final g) \<or> lookup g \<noteq> None"
  shows "\<exists>s msg. exec now g r = make_result RuntimeError None s g (Some msg)
    \<and> st_stdout s = concat (map out_of (spec_events now g (lookup g = None) r))
    \<and> st_stderr s = concat (map err_of (spec_events now g (lookup g = None) r))"
proof -
  obtain s where s: "run_guest (g_trap_text g) (g_inst_events g) (g_inst_final g) (new_store now r)
      = (g_inst_final g, s)" "quiet s"
    "st_stdout s = concat (map out_of (g_inst_events g))" "st_stderr s = concat (map err_of (g_inst_events g))"
    using run_guest_free [of "new_store now r" "g_inst_events g" "g_trap_text g" "g_inst_final g"] assms(1)
    by auto
  have events: "spec_events now g (lookup g = None) r = g_inst_events g"
    using assms by (auto simp: spec_events_def takeWhile_eq_all_conv find_None_iff)
  have error: "status_for_error (st_limiter s) (st_control s) = RuntimeError"
    using s(2) by (simp add: quiet_def status_for_error_def)
  show ?thesis
  proof (cases "g_inst_final g")
    case (Inl e)
    then show ?thesis using inst_error [of g now r e s] s events error by auto
  next
    case (Inr u)
    then obtain msg where "lookup g = Some msg" using assms(2) by auto
    then show ?thesis using lookup_error [of g now r u s msg] Inr s events error by auto
  qed
qed

lemma call_ends:
  assumes "find (req_stops now r) (g_inst_events g) = None" "\<not> isl (g_inst_final g)" "lookup g = None"
  shows "\<exists>s. exec now g r =
      (case find (req_stops now r) (g_call_events g) of
         Some ev \<Rightarrow> make_result (stop_status ev) None s g (Some
           (case stop_status ev of TimedOut \<Rightarrow> ''execution exceeded its timeout''
            | Cancelled \<Rightarrow> ''execution was cancelled'' | _ \<Rightarrow> ''execution exceeded its memory limit''))
       | None \<Rightarrow> make_result (verdict (g_call_final g)) (code_of (g_call_final g)) s g (error_of (g_call_final g)))
    \<and> st_stdout s = concat (map out_of (spec_events now g True r))
    \<and> st_stderr s = concat (map err_of (spec_events now g True r))"
proof -
  obtain u where u: "g_inst_final g = Inr u" using assms(2) by (cases "g_inst_final g") auto
  obtain s where s: "run_guest (g_trap_text g) (g_inst_events g) (g_inst_final g) (new_store now r) = (Inr u, s)"
    "quiet s" "st_control s = st_control (new_store now r)" "st_limiter s = st_limiter (new_store now r)"
    "st_stdout s = concat (map out_of (g_inst_events g))" "st_stderr s = concat (map err_of (g_inst_events g))"
    using run_guest_free [of "new_store now r" "g_inst_events g" "g_trap_text g" "g_inst_final g"] assms(1) u
    by auto
  have inst: "takeWhile (\<lambda>ev. \<not> req_stops now r ev) (g_inst_events g) = g_inst_events g"
    using assms by (auto simp: takeWhile_eq_all_conv find_None_iff)
  have stops_s: "store_stops s = req_stops now r" by (simp add: s)
  show ?thesis
  proof (cases "find (req_stops now r) (g_call_events g)")
    case None
    then have "takeWhile (\<lambda>ev. \<not> req_stops now r ev) (g_call_events g) = g_call_events g"
      by (auto simp: takeWhile_eq_all_conv find_None_iff)
    then obtain s' where s': "run_guest (g_trap_text g) (g_call_events g) (g_call_final g) s = (g_call_final g, s')"
      "quiet s'" "st_stdout s' = concat (map out_of (spec_events now g True r))"
      "st_stderr s' = concat (map err_of (spec_events now g True r))"
      using run_guest_free [of s "g_call_events g" "g_trap_text g" "g_call_final g"] s(2) None u
      by (auto simp: stops_s spec_events_def assms inst s)
    then have "interrupted s' g = None" by (simp add: interrupted_def quiet_def)
    then have "exec now g r = make_result (verdict (g_call_final g)) (code_of (g_call_final g)) s' g (error_of (g_call_final g))"
      using call_returns [OF s(1) assms(3) s'(1)] by simp
    then show ?thesis using None s' by auto
  next
    case (Some ev)
    obtain msg s' where s': "run_guest (g_trap_text g) (g_call_events g) (g_call_final g) s
        = (Inl (CallError None msg), s')" "stopped s' ev"
      "st_stdout s' = concat (map out_of (spec_events now g True r))"
      "st_stderr s' = concat (map err_of (spec_events now g True r))"
      using run_guest_stops [of s "g_call_events g" ev "g_trap_text g" "g_call_final g"] s(2) Some u
      by (auto simp: stops_s spec_events_def assms inst s)
    have "interrupted s' g = Some (make_result (stop_status ev) None s' g (Some
           (case stop_status ev of TimedOut \<Rightarrow> ''execution exceeded its timeout''
            | Cancelled \<Rightarrow> ''execution was cancelled'' | _ \<Rightarrow> ''execution exceeded its memory limit'')))"
      using s'(2) by (auto simp: stopped_def quiet_def interrupted_def status_for_error_def
          split: ControlSignal.splits if_splits)
    then show ?thesis using call_interrupted [OF s(1) assms(3) s'(1)] Some s' by auto
  qed
qed

lemma result_fields [simp]:
  "res_status (make_result status c s g e) = status"
  "res_exit_code (make_result status c s g e) = c"
  "res_stdout (make_result status c s g e) = st_stdout s"
  "res_stderr (make_result status c s g e) = st_stderr s"
  "res_error (make_result status c s g e) = e"
  by (simp_all add: make_result_def)

lemma found_cases:
  obtains (stopped) ev where "find (req_stops now r) (g_inst_events g) = Some ev"
  | (failed) "find (req_stops now r) (g_inst_events g) = None" "isl (g_inst_final g) \<or> lookup g \<noteq> None"
  | (called) "find (req_stops now r) (g_inst_events g) = None" "\<not> isl (g_inst_final g)" "lookup g = None"
  by (cases "find (req_stops now r) (g_inst_events g)") auto

lemma status_exact: "res_status (exec now g r) = spec_status verdict now g (lookup g = None) r"
proof (cases rule: found_cases [of now r g])
  case (stopped ev)
  then show ?thesis using inst_stops [OF stopped, of False] by (auto simp: spec_status_def)
next
  case failed
  then show ?thesis using no_call [OF failed] by (auto simp: spec_status_def)
next
  case called
  then show ?thesis using call_ends [OF called] by (auto simp: spec_status_def split: option.splits)
qed

lemma output_exact:
  "res_stdout (exec now g r) = concat (map out_of (spec_events now g (lookup g = None) r))
    \<and> res_stderr (exec now g r) = concat (map err_of (spec_events now g (lookup g = None) r))"
proof (cases rule: found_cases [of now r g])
  case (stopped ev)
  then show ?thesis using inst_stops [OF stopped, of "lookup g = None"] by auto
next
  case failed
  then show ?thesis using no_call [OF failed] by auto
next
  case called
  then show ?thesis using call_ends [OF called] by (auto split: option.splits)
qed

lemma result_shape: "well_shaped (exec now g r)"
proof (cases rule: found_cases [of now r g])
  case (stopped ev)
  moreover have "stop_status ev \<notin> {Completed, GuestExitNonZero}" by (cases ev) auto
  ultimately show ?thesis using inst_stops [OF stopped, of False] by (auto simp: well_shaped_def)
next
  case failed
  then show ?thesis using no_call [OF failed] by (auto simp: well_shaped_def)
next
  case called
  then obtain s where s: "exec now g r =
      (case find (req_stops now r) (g_call_events g) of
         Some ev \<Rightarrow> make_result (stop_status ev) None s g (Some
           (case stop_status ev of TimedOut \<Rightarrow> ''execution exceeded its timeout''
            | Cancelled \<Rightarrow> ''execution was cancelled'' | _ \<Rightarrow> ''execution exceeded its memory limit''))
       | None \<Rightarrow> make_result (verdict (g_call_final g)) (code_of (g_call_final g)) s g (error_of (g_call_final g)))"
    using call_ends by blast
  show ?thesis
  proof (cases "find (req_stops now r) (g_call_events g)")
    case (Some ev)
    moreover have "stop_status ev \<notin> {Completed, GuestExitNonZero}" by (cases ev) auto
    ultimately show ?thesis using s by (auto simp: well_shaped_def)
  qed (simp add: s verdict_shape)
qed

end

lemma classify_verdict:
  "classify_error s g e =
    make_result (case exit_code_in e of None \<Rightarrow> GuestTrap | Some c \<Rightarrow> if c = 0 then Completed else GuestExitNonZero)
      (exit_code_in e) s g (if exit_code_in e = Some 0 then None else Some (message e))"
  by (simp add: classify_error_def split: option.split)

lemma make_result_shape:
  "well_shaped (make_result status code s g err) \<longleftrightarrow>
     (status = Completed \<longleftrightarrow> code = Some 0) \<and> (status = GuestExitNonZero \<longleftrightarrow> (\<exists>c. code = Some c \<and> c \<noteq> 0))
     \<and> (status = Completed \<longleftrightarrow> err = None)"
  by (simp add: well_shaped_def make_result_def)

text \<open>How a call that nobody interrupted counts, for a core module and for a command.\<close>

definition p1_verdict :: "call_error + unit \<Rightarrow> ExecutionStatus" where
  "p1_verdict outcome =
     (case outcome of
        Inr _ \<Rightarrow> Completed
      | Inl e \<Rightarrow> (case exit_code_in e of None \<Rightarrow> GuestTrap | Some c \<Rightarrow> if c = 0 then Completed else GuestExitNonZero))"

definition p2_verdict :: "call_error + bool \<Rightarrow> ExecutionStatus" where
  "p2_verdict outcome =
     (case outcome of
        Inr ok \<Rightarrow> if ok then Completed else GuestExitNonZero
      | Inl e \<Rightarrow> (case exit_code_in e of None \<Rightarrow> GuestTrap | Some c \<Rightarrow> if c = 0 then Completed else GuestExitNonZero))"

lemma error_shape:
  "well_shaped (make_result (case exit_code_in e of None \<Rightarrow> GuestTrap | Some c \<Rightarrow> if c = 0 then Completed else GuestExitNonZero)
      (exit_code_in e) s g (if exit_code_in e = Some 0 then None else Some (message e)))"
  by (auto simp: make_result_shape split: option.splits)

interpretation p1: guest_runner execute_p1 g_lookup_error p1_verdict
  "\<lambda>outcome. case outcome of Inr _ \<Rightarrow> Some 0 | Inl e \<Rightarrow> exit_code_in e"
  "\<lambda>outcome. case outcome of Inr _ \<Rightarrow> None | Inl e \<Rightarrow> if exit_code_in e = Some 0 then None else Some (message e)"
proof unfold_locales
  fix outcome :: "call_error + unit" and s :: store and g :: "unit guest"
  show "well_shaped (make_result (p1_verdict outcome) (case outcome of Inr _ \<Rightarrow> Some 0 | Inl e \<Rightarrow> exit_code_in e)
      s g (case outcome of Inr _ \<Rightarrow> None | Inl e \<Rightarrow> if exit_code_in e = Some 0 then None else Some (message e)))"
    using error_shape by (cases outcome) (auto simp: p1_verdict_def make_result_shape)
qed (auto simp: execute_p1_def classify_verdict p1_verdict_def split: sum.splits)

interpretation p2: guest_runner execute_p2 "\<lambda>g. None" p2_verdict
  "\<lambda>outcome. case outcome of Inr ok \<Rightarrow> Some (if ok then 0 else 1) | Inl e \<Rightarrow> exit_code_in e"
  "\<lambda>outcome. case outcome of Inr ok \<Rightarrow> if ok then None else Some ''guest exited with a non-zero status''
     | Inl e \<Rightarrow> if exit_code_in e = Some 0 then None else Some (message e)"
proof unfold_locales
  fix outcome :: "call_error + bool" and s :: store and g :: "bool guest"
  show "well_shaped (make_result (p2_verdict outcome) (case outcome of Inr ok \<Rightarrow> Some (if ok then 0 else 1) | Inl e \<Rightarrow> exit_code_in e)
      s g (case outcome of Inr ok \<Rightarrow> if ok then None else Some ''guest exited with a non-zero status''
       | Inl e \<Rightarrow> if exit_code_in e = Some 0 then None else Some (message e)))"
    using error_shape by (cases outcome) (auto simp: p2_verdict_def make_result_shape)
qed (auto simp: execute_p2_def classify_verdict p2_verdict_def split: sum.splits)

subsection \<open>Lemmas on validation and on HTTP executions\<close>

definition entry_ok :: "string \<times> string \<Rightarrow> bool" where
  "entry_ok kv \<longleftrightarrow> fst kv \<noteq> [] \<and> CHR ''='' \<notin> set (fst kv) \<and> NUL \<notin> set (fst kv) \<and> NUL \<notin> set (snd kv)"

definition well_formed_request :: "ExecutionRequest \<Rightarrow> bool" where
  "well_formed_request r \<longleftrightarrow>
     req_entrypoint r \<noteq> [] \<and> NUL \<notin> set (req_entrypoint r)
     \<and> list_all (\<lambda>arg. NUL \<notin> set arg) (req_args r) \<and> list_all entry_ok (req_env r)"

lemma validate_env_entry_iff: "validate_env_entry k v = Inr u \<longleftrightarrow> entry_ok (k, v)"
  by (simp add: validate_env_entry_def entry_ok_def)

lemma validate_env_iff: "validate_env env = Inr u \<longleftrightarrow> list_all entry_ok env"
proof (induction env rule: validate_env.induct)
  case (2 key val env)
  then show ?case using validate_env_entry_iff [of key val "()"]
    by (cases "validate_env_entry key val") auto
qed simp

lemma validate_args_iff: "validate_args n args = Inr u \<longleftrightarrow> list_all (\<lambda>arg. NUL \<notin> set arg) args"
  by (induction n args rule: validate_args.induct) auto

lemma validate_accepts: "validate r = Inr () \<longleftrightarrow> well_formed_request r"
  using validate_args_iff [of 0 "req_args r" "()"] validate_env_iff [of "req_env r" "()"]
  by (cases "validate_args 0 (req_args r)") (auto simp: validate_def well_formed_request_def)

lemma http_store_simps [simp]:
  "quiet (http_store now limits)"
  "ctl_deadline (st_control (http_store now limits)) = map_option ((+) now) (lim_timeout limits)"
  "memory_limit (st_limiter (http_store now limits)) = lim_memory_bytes limits"
  by (simp_all add: http_store_def new_control_def new_limiter_def quiet_def control_signal_def)

abbreviation limit_stops :: "instant \<Rightarrow> ExecutionLimits \<Rightarrow> guest_event \<Rightarrow> bool" where
  "limit_stops now limits \<equiv> stops (map_option ((+) now) (lim_timeout limits)) (lim_memory_bytes limits)"

text \<open>An HTTP artifact that is ready, and an environment in which its instantiation succeeds.\<close>

definition http_ready :: "PreparedArtifact \<Rightarrow> http_guest \<Rightarrow> bool" where
  "http_ready p h \<longleftrightarrow>
     p_http_engine p \<and> p_http_ticker p \<and> h_request_error h = None \<and> h_resource_error h = None
     \<and> (p_http_pre p \<or> p_http_component p \<and> p_http_linker p \<and> h_pre_error h = None)"

definition instantiates :: "instant \<Rightarrow> http_guest \<Rightarrow> ExecutionLimits \<Rightarrow> bool" where
  "instantiates now h limits \<longleftrightarrow>
     find (limit_stops now limits) (g_inst_events (h_guest h)) = None \<and> g_inst_final (h_guest h) = Inr ()"

lemma execute_http_ready:
  assumes "http_ready p h"
  shows "execute_http now h p limits =
    (case run_guest (g_trap_text (h_guest h)) (g_inst_events (h_guest h)) (g_inst_final (h_guest h)) (http_store now limits) of
       (Inl e, _) \<Rightarrow> Inl (message e) | (Inr _, s) \<Rightarrow> http_outcome h (http_call h s))"
  using assms by (auto simp: execute_http_def http_ready_def)

lemma execute_http_not_ready:
  "\<not> http_ready p h \<Longrightarrow> \<exists>e. execute_http now h p limits = Inl e"
  by (auto simp: execute_http_def http_ready_def split: option.splits)

lemma instantiates_run:
  assumes "instantiates now h limits"
  obtains s where
    "run_guest (g_trap_text (h_guest h)) (g_inst_events (h_guest h)) (g_inst_final (h_guest h)) (http_store now limits)
      = (Inr (), s)" "quiet s" "store_stops s = limit_stops now limits"
  using run_guest_free [of "http_store now limits" "g_inst_events (h_guest h)" "g_trap_text (h_guest h)"
      "g_inst_final (h_guest h)"] assms
  by (force simp: instantiates_def)

lemma not_instantiates_run:
  assumes "\<not> instantiates now h limits"
  shows "\<exists>e s. run_guest (g_trap_text (h_guest h)) (g_inst_events (h_guest h)) (g_inst_final (h_guest h)) (http_store now limits)
    = (Inl e, s)"
proof (cases "find (limit_stops now limits) (g_inst_events (h_guest h))")
  case None
  then obtain e where "g_inst_final (h_guest h) = Inl e"
    using assms by (cases "g_inst_final (h_guest h)") (auto simp: instantiates_def)
  then show ?thesis
    using run_guest_free [of "http_store now limits" "g_inst_events (h_guest h)" "g_trap_text (h_guest h)"
        "g_inst_final (h_guest h)"] None by force
next
  case (Some ev)
  then show ?thesis
    using run_guest_stops [of "http_store now limits" "g_inst_events (h_guest h)" ev "g_trap_text (h_guest h)"
        "g_inst_final (h_guest h)"] by force
qed

lemma http_call_stops:
  assumes "http_ready p h" "instantiates now h limits"
    and "find (limit_stops now limits) (g_call_events (h_guest h)) = Some ev"
  shows "\<exists>msg. execute_http now h p limits = Inl (''WASI HTTP incoming handler failed: '' @ msg)
    \<and> ((\<exists>cancelled t. ev = Tick cancelled t) \<longrightarrow> msg = g_trap_text (h_guest h))"
proof -
  obtain s where s: "run_guest (g_trap_text (h_guest h)) (g_inst_events (h_guest h)) (g_inst_final (h_guest h))
      (http_store now limits) = (Inr (), s)" "quiet s" "store_stops s = limit_stops now limits"
    using instantiates_run [OF assms(2)] by blast
  obtain msg s' where "http_call h s = (Inl (CallError None msg), s')"
    "(\<exists>cancelled t. ev = Tick cancelled t) \<longrightarrow> msg = g_trap_text (h_guest h)"
    using run_guest_stops [of s "g_call_events (h_guest h)" ev "g_trap_text (h_guest h)" "g_call_final (h_guest h)"] s assms(3)
    by (force simp: http_call_def)
  then show ?thesis using s(1) assms(1) by (simp add: execute_http_ready http_outcome_def)
qed

lemma http_call_free:
  assumes "http_ready p h" "instantiates now h limits"
    and "find (limit_stops now limits) (g_call_events (h_guest h)) = None"
  shows "execute_http now h p limits =
    (case g_call_final (h_guest h) of
       Inl e \<Rightarrow> Inl (''WASI HTTP incoming handler failed: '' @ message e) | Inr _ \<Rightarrow> h_response h)"
proof -
  obtain s where s: "run_guest (g_trap_text (h_guest h)) (g_inst_events (h_guest h)) (g_inst_final (h_guest h))
      (http_store now limits) = (Inr (), s)" "quiet s" "store_stops s = limit_stops now limits"
    using instantiates_run [OF assms(2)] by blast
  obtain s' where "http_call h s = (g_call_final (h_guest h), s')" "quiet s'"
    using run_guest_free [of s "g_call_events (h_guest h)" "g_trap_text (h_guest h)" "g_call_final (h_guest h)"] s assms(3)
    by (force simp: http_call_def)
  then show ?thesis using s(1) assms(1)
    by (simp add: execute_http_ready http_outcome_def quiet_def split: sum.splits)
qed

subsection \<open>The properties\<close>

text \<open>A request is accepted exactly when its entry point is non-empty and free of NUL bytes, no
  argument has a NUL byte, and every environment entry has a non-empty name without an equals sign and
  no NUL byte in the name or the value.\<close>

theorem validate_exact: "validate r = Inr () \<longleftrightarrow> well_formed_request r"
  by (rule validate_accepts)

text \<open>C37: the status of an execution, for both kinds of guests and all event sequences: the first epoch
  check that finds the token cancelled or the deadline passed, or the first memory growth beyond the
  limit, decides it, in the instantiation as in the call; without one it is the verdict on the call's
  end; no execution reports a timeout, a cancellation or a memory failure that did not happen.\<close>

theorem execution_status_exact:
  "res_status (execute_p1 now g r) = spec_status p1_verdict now g (g_lookup_error g = None) r
   \<and> res_status (execute_p2 now h r) = spec_status p2_verdict now h True r"
  using p1.status_exact [of now g r] p2.status_exact [of now h r] by simp

text \<open>The captured output of an execution is what the guest wrote before the event that stopped it,
  complete and in order, whatever the status.\<close>

theorem execution_output_exact:
  "res_stdout (execute_p1 now g r) = concat (map out_of (spec_events now g (g_lookup_error g = None) r))
   \<and> res_stderr (execute_p1 now g r) = concat (map err_of (spec_events now g (g_lookup_error g = None) r))
   \<and> res_stdout (execute_p2 now h r) = concat (map out_of (spec_events now h True r))
   \<and> res_stderr (execute_p2 now h r) = concat (map err_of (spec_events now h True r))"
  using p1.output_exact [of now g r] p2.output_exact [of now h r] by simp

text \<open>C38: in every result the status, the exit code and the error agree: Completed exactly with exit code
  zero and without an error, GuestExitNonZero exactly with a non-zero exit code, and every other status
  without an exit code and with an error.\<close>

theorem execution_well_shaped: "well_shaped (execute_p1 now g r) \<and> well_shaped (execute_p2 now h r)"
  by (rule conjI p1.result_shape p2.result_shape)+


text \<open>An HTTP execution returns a response exactly when the artifact is ready, the instance starts and
  the handler returns without any interruption, and then it is the response the guest produced.\<close>

theorem http_response_iff:
  "execute_http now h p limits = Inr response \<longleftrightarrow>
     http_ready p h \<and> instantiates now h limits
     \<and> find (limit_stops now limits) (g_call_events (h_guest h)) = None
     \<and> g_call_final (h_guest h) = Inr () \<and> h_response h = Inr response"
proof (cases "http_ready p h \<and> instantiates now h limits")
  case True
  then show ?thesis
    using http_call_stops [of p h now limits] http_call_free [of p h now limits]
    by (cases "find (limit_stops now limits) (g_call_events (h_guest h))"; cases "g_call_final (h_guest h)") auto
next
  case False
  then have "\<exists>e. execute_http now h p limits = Inl e"
    using execute_http_not_ready [of p h now limits] not_instantiates_run [of now h limits]
    by (cases "http_ready p h") (auto simp: execute_http_ready)
  then show ?thesis using False by auto
qed

text \<open>C39: when a timeout, a cancellation or the memory limit interrupts the handler of an HTTP execution,
  the error is always that of a failed handler, for an epoch interruption with the runtime's trap text;
  the messages for a timeout, a cancellation and the memory limit are not reached.\<close>

theorem http_interruption_masked:
  assumes "http_ready p h" and "instantiates now h limits"
    and "find (limit_stops now limits) (g_call_events (h_guest h)) = Some ev"
  shows "\<exists>msg. execute_http now h p limits = Inl (''WASI HTTP incoming handler failed: '' @ msg)
    \<and> ((\<exists>cancelled t. ev = Tick cancelled t) \<longrightarrow> msg = g_trap_text (h_guest h))"
  by (rule http_call_stops [OF assms])

definition sample_guest :: "unit guest" where
  "sample_guest = \<lparr>g_trap_text = ''wasm trap: interrupt'', g_inst_events = [], g_inst_final = Inr (),
     g_lookup_error = None, g_call_events = [WriteOut ''a'', Tick False 5, Tick False 12, WriteOut ''b''],
     g_call_final = Inr (), g_started = 0, g_elapsed = 1\<rparr>"

definition sample_http :: http_guest where
  "sample_http = \<lparr>h_request_error = None, h_resource_error = None, h_pre_error = None, h_guest = sample_guest,
     h_response = Inr \<lparr>http_status = 200, http_headers = [], http_body = []\<rparr>\<rparr>"

lemma sample_http_ready:
  "http_ready (prepared_with_world ''a'' ComponentFormat None True True) sample_http"
  "instantiates 2 sample_http \<lparr>lim_timeout = Some 10, lim_memory_bytes = None\<rparr>"
  "find (limit_stops 2 \<lparr>lim_timeout = Some 10, lim_memory_bytes = None\<rparr>) (g_call_events (h_guest sample_http))
    = Some (Tick False 12)"
  by (simp_all add: http_ready_def instantiates_def sample_http_def sample_guest_def prepared_with_world_def prepared_cached_def)

theorem http_interruption_masked_witness:
  "execute_http 2 sample_http (prepared_with_world ''a'' ComponentFormat None True True)
     \<lparr>lim_timeout = Some 10, lim_memory_bytes = None\<rparr>
   = Inl ''WASI HTTP incoming handler failed: wasm trap: interrupt''"
proof -
  have "g_trap_text (h_guest sample_http) = ''wasm trap: interrupt''" by (simp add: sample_http_def sample_guest_def)
  then show ?thesis using http_interruption_masked [OF sample_http_ready] by auto
qed

end
