(* ===== verification/Rt_Cache_Claims.thy ===== *)
theory Rt_Cache_Claims
  imports Rt_Cache "HOL-Library.Multiset"
begin

section \<open>What the compiled-artifact cache promises\<close>

text \<open>
  The directories as a map, the specification of eviction, and the properties: a warm restore only on
  a full match, publication followed by a hit, the bound and order of eviction, recovery from a
  damaged entry, and what happens to an artifact larger than the whole cache.
\<close>

subsection \<open>Directories as a map\<close>

definition fs_ok :: "cache_fs \<Rightarrow> bool" where
  "fs_ok fs \<longleftrightarrow> distinct (map fst fs)"

lemma fs_ok_update [simp]: "fs_ok fs \<Longrightarrow> fs_ok (AList.update k d fs)"
  by (simp add: fs_ok_def distinct_update)

lemma fs_ok_delete [simp]: "fs_ok fs \<Longrightarrow> fs_ok (AList.delete k fs)"
  by (simp add: fs_ok_def distinct_delete)

lemma dir_at_update [simp]: "dir_at (AList.update k d fs) k' = (if k = k' then d else dir_at fs k')"
  by (simp add: dir_at_def update_conv')

lemma dir_at_delete: "dir_at (AList.delete k fs) k' =
    (if k = k' then \<lparr>artifact_file = None, metadata_file = None\<rparr> else dir_at fs k')"
  by (simp add: dir_at_def delete_conv')

lemma remove_dir_map: "map_of (remove_cache_dir io k fs) k' = (if io_rmdir io k \<and> k = k' then None else map_of fs k')"
  by (auto simp: remove_cache_dir_def delete_conv')

lemma fs_ok_remove_dir [simp]: "fs_ok fs \<Longrightarrow> fs_ok (remove_cache_dir io k fs)"
  by (simp add: remove_cache_dir_def)

lemma fs_ok_remove_entry [simp]: "fs_ok fs \<Longrightarrow> fs_ok (remove_cache_entry io k fs)"
  by (simp add: remove_cache_entry_def Let_def split: option.split)

lemma remove_entry_gone: "io_rmdir io k \<Longrightarrow> remove_cache_entry io k fs = AList.delete k fs"
  by (simp add: remove_cache_entry_def remove_cache_dir_def delete_conv')

lemma remove_entry_other: "k \<noteq> k' \<Longrightarrow> map_of (remove_cache_entry io k fs) k' = map_of fs k'"
  by (simp add: remove_cache_entry_def remove_dir_map update_conv' Let_def split: option.split)

subsection \<open>Eviction\<close>

definition artifact_entry :: "cache_key \<times> cache_dir \<Rightarrow> (nat \<times> nat \<times> cache_key) list" where
  "artifact_entry = (\<lambda>(k, d). case artifact_file d of None \<Rightarrow> [] | Some (bytes, mtime) \<Rightarrow> [(mtime, length bytes, k)])"

abbreviation key_of :: "nat \<times> nat \<times> cache_key \<Rightarrow> cache_key" where
  "key_of e \<equiv> snd (snd e)"

definition bytes_in :: "(nat \<times> nat \<times> cache_key) list \<Rightarrow> nat" where
  "bytes_in es = sum_list (map (\<lambda>(_, len, _). len) es)"

lemma scan_entries_alt: "scan_entries fs = concat (map artifact_entry fs)"
  by (simp add: scan_entries_def artifact_entry_def)

lemma scan_simps [simp]: "scan_entries [] = []" "scan_entries (x # fs) = artifact_entry x @ scan_entries fs"
  by (simp_all add: scan_entries_alt)

lemma scan_mem:
  "fs_ok fs \<Longrightarrow> (mtime, len, k) \<in> set (scan_entries fs) \<longleftrightarrow>
    (\<exists>bytes. artifact_file (dir_at fs k) = Some (bytes, mtime) \<and> length bytes = len)"
proof (induction fs)
  case (Cons x fs)
  obtain k1 d1 where x: "x = (k1, d1)" by (cases x)
  have notin: "map_of fs k1 = None" using Cons.prems by (simp add: fs_ok_def x map_of_eq_None_iff)
  have rest: "fs_ok fs" using Cons.prems by (simp add: fs_ok_def)
  show ?case using Cons.IH [OF rest] notin
    by (cases "artifact_file d1") (auto simp: x artifact_entry_def dir_at_def)
qed (simp add: dir_at_def)

lemma scan_delete: "scan_entries (AList.delete k fs) = filter (\<lambda>e. key_of e \<noteq> k) (scan_entries fs)"
  by (induction fs) (auto simp: artifact_entry_def split: option.split)

lemma scan_fold_delete:
  "scan_entries (fold AList.delete ks fs) = filter (\<lambda>e. key_of e \<notin> set ks) (scan_entries fs)"
  by (induction ks arbitrary: fs) (auto simp: scan_delete intro: filter_cong)

lemma scan_keys_distinct: "fs_ok fs \<Longrightarrow> distinct (map key_of (scan_entries fs))"
proof (induction fs)
  case (Cons x fs)
  have "key_of e \<in> fst ` set fs" if "e \<in> set (scan_entries fs)" for e
    using that by (auto simp: scan_entries_alt artifact_entry_def image_iff split: option.splits) force
  then show ?case using Cons
    by (cases x) (fastforce simp: fs_ok_def artifact_entry_def split: option.split)
qed simp

text \<open>
  The loop removes a shortest prefix of the sorted entries: afterwards the rest fits, and it did not
  fit at any point before.
\<close>

lemma evict_loop_prefix:
  "used = bytes_in es \<Longrightarrow> \<exists>i\<le>length es. evict_loop io max_bytes used es fs
      = fold (remove_cache_dir io) (map key_of (take i es)) fs
    \<and> bytes_in (drop i es) \<le> max_bytes \<and> (\<forall>j<i. max_bytes < bytes_in (drop j es))"
proof (induction io max_bytes used es fs rule: evict_loop.induct)
  case (2 io max_bytes used mtime len k es fs)
  show ?case
  proof (cases "used \<le> max_bytes")
    case True
    then show ?thesis using 2(2) by (intro exI [of _ 0]) simp
  next
    case False
    have "used - len = bytes_in es" using 2(2) by (simp add: bytes_in_def)
    from 2(1) [OF False this] obtain i where i: "i \<le> length es"
      "evict_loop io max_bytes (used - len) es (remove_cache_dir io k fs)
        = fold (remove_cache_dir io) (map key_of (take i es)) (remove_cache_dir io k fs)"
      "bytes_in (drop i es) \<le> max_bytes" "\<forall>j<i. max_bytes < bytes_in (drop j es)" by blast
    have "max_bytes < bytes_in (drop j ((mtime, len, k) # es))" if "j < Suc i" for j
      using that i(4) False 2(2) by (cases j) auto
    then show ?thesis using i False by (intro exI [of _ "Suc i"]) simp
  qed
qed (simp add: bytes_in_def)

lemma fold_remove_all: "(\<And>k. io_rmdir io k) \<Longrightarrow> fold (remove_cache_dir io) ks fs = fold AList.delete ks fs"
  by (induction ks arbitrary: fs) (simp_all add: remove_cache_dir_def)

lemma map_of_fold_delete: "map_of (fold AList.delete ks fs) k = (if k \<in> set ks then None else map_of fs k)"
  by (induction ks arbitrary: fs) (auto simp: delete_conv')

lemma map_of_fold_remove: "map_of (fold (remove_cache_dir io) ks fs) k \<in> {None, map_of fs k}"
proof (induction ks arbitrary: fs)
  case (Cons k' ks)
  then show ?case using Cons [of "remove_cache_dir io k' fs"] by (simp add: remove_dir_map split: if_splits)
qed simp

lemma bytes_in_mset: "mset es = mset es' \<Longrightarrow> bytes_in es = bytes_in es'"
  unfolding bytes_in_def by (metis mset_map sum_mset_sum_list)

lemma filter_take_drop:
  assumes "distinct (map f xs)"
  shows "filter (\<lambda>x. f x \<notin> set (map f (take i xs))) xs = drop i xs"
proof -
  have split: "distinct (map f (take i xs) @ map f (drop i xs))"
    using assms by (metis append_take_drop_id map_append)
  have "filter (\<lambda>x. f x \<notin> set (map f (take i xs))) (take i xs) = []" by (simp add: filter_empty_conv)
  moreover have "filter (\<lambda>x. f x \<notin> set (map f (take i xs))) (drop i xs) = drop i xs"
    using split by (auto simp: filter_id_conv)
  ultimately have "filter (\<lambda>x. f x \<notin> set (map f (take i xs))) (take i xs @ drop i xs) = drop i xs"
    unfolding filter_append by simp
  then show ?thesis by simp
qed

text \<open>Everything about one eviction on a disk where deletions succeed.\<close>

lemma evict_spec:
  assumes ok: "fs_ok fs" and rm: "\<And>k. io_rmdir io k"
  obtains i where
    "evict_compiled_cache io max_bytes fs
      = fold AList.delete (map key_of (take i (sort_key fst (scan_entries fs)))) fs"
    "bytes_in (scan_entries (evict_compiled_cache io max_bytes fs)) \<le> max_bytes"
    "\<forall>j<i. max_bytes < bytes_in (drop j (sort_key fst (scan_entries fs)))"
proof -
  let ?es = "sort_key fst (scan_entries fs)"
  have "bytes_in (scan_entries fs) = bytes_in ?es" by (rule bytes_in_mset) simp
  then obtain i where i: "evict_compiled_cache io max_bytes fs = fold (remove_cache_dir io) (map key_of (take i ?es)) fs"
    "bytes_in (drop i ?es) \<le> max_bytes" "\<forall>j<i. max_bytes < bytes_in (drop j ?es)"
    using evict_loop_prefix [of "bytes_in (scan_entries fs)" ?es io max_bytes fs]
    unfolding evict_compiled_cache_def Let_def bytes_in_def by auto
  have evict: "evict_compiled_cache io max_bytes fs = fold AList.delete (map key_of (take i ?es)) fs"
    using i(1) fold_remove_all [of io, OF rm] by simp
  have "distinct (map key_of ?es)"
    using scan_keys_distinct [OF ok] by (metis distinct_map mset_eq_setD mset_sort mset_eq_imp_distinct_iff)
  then have "filter (\<lambda>e. key_of e \<notin> set (map key_of (take i ?es))) ?es = drop i ?es" by (rule filter_take_drop)
  moreover have "mset (filter (\<lambda>e. key_of e \<notin> set (map key_of (take i ?es))) (scan_entries fs))
      = mset (filter (\<lambda>e. key_of e \<notin> set (map key_of (take i ?es))) ?es)" by simp
  ultimately have "bytes_in (scan_entries (evict_compiled_cache io max_bytes fs)) = bytes_in (drop i ?es)"
    unfolding evict scan_fold_delete by (intro bytes_in_mset) (simp only:)
  then show ?thesis using that evict i by simp
qed

lemma evict_keeps_or_drops: "map_of (evict_compiled_cache io max_bytes fs) k \<in> {None, map_of fs k}"
proof -
  have "bytes_in (scan_entries fs) = bytes_in (sort_key fst (scan_entries fs))" by (rule bytes_in_mset) simp
  then obtain i where "evict_compiled_cache io max_bytes fs
      = fold (remove_cache_dir io) (map key_of (take i (sort_key fst (scan_entries fs)))) fs"
    using evict_loop_prefix [of "bytes_in (scan_entries fs)" "sort_key fst (scan_entries fs)" io max_bytes fs]
    unfolding evict_compiled_cache_def Let_def bytes_in_def by auto
  then show ?thesis using map_of_fold_remove by simp
qed

lemma evict_survivor:
  "artifact_file (dir_at (evict_compiled_cache io max_bytes fs) k) \<noteq> None \<Longrightarrow>
    dir_at (evict_compiled_cache io max_bytes fs) k = dir_at fs k"
  using evict_keeps_or_drops [of io max_bytes fs k] by (auto simp: dir_at_def)

lemma evict_none: "bytes_in (scan_entries fs) \<le> max_bytes \<Longrightarrow> evict_compiled_cache io max_bytes fs = fs"
  by (cases "sort_key fst (scan_entries fs)") (auto simp: evict_compiled_cache_def bytes_in_def Let_def)

subsection \<open>Lookup and publication\<close>

abbreviation key_for :: "cache_request \<Rightarrow> cache_key" where
  "key_for q \<equiv> cache_entry_paths (cr_digest q) (cr_fingerprint q)"

text \<open>The only metadata that make an entry valid.\<close>

definition fully_matching :: "cache_env \<Rightarrow> cache_request \<Rightarrow> cache_fs \<Rightarrow> bool" where
  "fully_matching env q fs \<longleftrightarrow>
     (\<exists>bytes mtime metadata_bytes.
        artifact_file (dir_at fs (key_for q)) = Some (bytes, mtime) \<and> bytes \<noteq> []
        \<and> metadata_file (dir_at fs (key_for q)) = Some metadata_bytes
        \<and> ce_from_json env metadata_bytes = Some (expected_metadata (ce_platform env) q (length bytes)))"

lemma metadata_valid_expected:
  "metadata_valid pf q stored m \<longleftrightarrow> (\<exists>n. stored = Some n \<and> m = expected_metadata pf q n)"
  by (cases m) (auto simp: metadata_valid_def expected_metadata_def)

lemma cache_hit_iff:
  "metadata_file (dir_at fs (key_for q)) = Some metadata_bytes \<Longrightarrow>
    cache_hit env q fs metadata_bytes \<longleftrightarrow> fully_matching env q fs"
  by (auto simp: cache_hit_def fully_matching_def metadata_valid_expected artifact_size_def Let_def
      split: option.splits)

lemma publish_cold: "publish env io max_bytes q fs = (Inr e, fs') \<Longrightarrow> entry_source e = ColdCompiled"
  by (auto simp: publish_def Let_def split: sum.splits prod.splits)

lemma entry_hit:
  "fully_matching env q fs \<Longrightarrow> compiled_cache_entry env io max_bytes q fs =
    (Inr \<lparr>entry_source = WarmRestored, entry_compile_duration = 0, entry_restore_duration = io_restore_time io,
         entry_publication_duration = 0\<rparr>, fs)"
proof -
  assume m: "fully_matching env q fs"
  then obtain mb where mb: "metadata_file (dir_at fs (key_for q)) = Some mb" by (auto simp: fully_matching_def)
  then have "cache_hit env q fs mb" using m cache_hit_iff by blast
  then show ?thesis using mb by (simp add: compiled_cache_entry_def Let_def)
qed

text \<open>Without a hit, the entry is published on a directory that is empty or has been cleared.\<close>

definition cleared :: "cache_io \<Rightarrow> cache_request \<Rightarrow> cache_fs \<Rightarrow> cache_fs" where
  "cleared io q fs =
     (if metadata_file (dir_at fs (key_for q)) = None then fs else remove_cache_entry io (key_for q) fs)"

lemma entry_miss:
  assumes "\<not> fully_matching env q fs"
  shows "compiled_cache_entry env io max_bytes q fs = publish env io max_bytes q (cleared io q fs)"
proof (cases "metadata_file (dir_at fs (key_for q))")
  case (Some mb)
  then have "\<not> cache_hit env q fs mb" using assms cache_hit_iff by blast
  then show ?thesis using Some by (simp add: compiled_cache_entry_def cleared_def Let_def)
qed (simp add: compiled_cache_entry_def cleared_def Let_def)

lemma entry_source_iff:
  "compiled_cache_entry env io max_bytes q fs = (Inr e, fs') \<Longrightarrow>
    entry_source e = WarmRestored \<longleftrightarrow> fully_matching env q fs"
  by (cases "fully_matching env q fs") (auto simp: entry_hit entry_miss dest: publish_cold)

lemma fs_ok_cleared [simp]: "fs_ok fs \<Longrightarrow> fs_ok (cleared io q fs)"
  by (simp add: cleared_def)

text \<open>The directories after both writes, before the eviction.\<close>

definition written :: "cache_env \<Rightarrow> cache_io \<Rightarrow> cache_request \<Rightarrow> string \<Rightarrow> cache_fs \<Rightarrow> cache_fs" where
  "written env io q bytes fs =
     AList.update (key_for q)
       \<lparr>artifact_file = Some (bytes, io_mtime io),
        metadata_file = Some (ce_to_json env (expected_metadata (ce_platform env) q (length bytes)))\<rparr> fs"

lemma dir_both [simp]:
  "(d :: cache_dir)\<lparr>artifact_file := a, metadata_file := m\<rparr> = \<lparr>artifact_file = a, metadata_file = m\<rparr>"
  by (cases d) simp

lemma publish_Inr:
  "publish env io max_bytes q fs = (Inr e, fs') \<longleftrightarrow>
    (\<exists>bytes. ce_precompile env (cr_source q) = Inr bytes \<and> io_write_artifact io = None \<and> io_write_metadata io = None
      \<and> e = \<lparr>entry_source = ColdCompiled, entry_compile_duration = io_compile_time io,
             entry_restore_duration = 0, entry_publication_duration = io_publication_time io\<rparr>
      \<and> fs' = evict_compiled_cache io max_bytes (written env io q bytes fs))"
  by (auto simp: publish_def write_artifact_def write_metadata_def written_def Let_def split: sum.splits option.splits prod.splits)

lemma dir_at_written [simp]:
  "dir_at (written env io q bytes fs) (key_for q) =
    \<lparr>artifact_file = Some (bytes, io_mtime io),
     metadata_file = Some (ce_to_json env (expected_metadata (ce_platform env) q (length bytes)))\<rparr>"
  by (simp add: written_def)

lemma fs_ok_written [simp]: "fs_ok fs \<Longrightarrow> fs_ok (written env io q bytes fs)"
  by (simp add: written_def)

lemma map_of_written: "k \<noteq> key_for q \<Longrightarrow> map_of (written env io q bytes fs) k = map_of fs k"
  by (simp add: written_def update_conv')

lemma written_matching:
  assumes "\<And>n. ce_from_json env (ce_to_json env (expected_metadata (ce_platform env) q n))
      = Some (expected_metadata (ce_platform env) q n)" and "bytes \<noteq> []"
    and "dir_at fs' (key_for q) = dir_at (written env io q bytes fs) (key_for q)"
  shows "fully_matching env q fs'"
  using assms by (simp add: fully_matching_def)

text \<open>A size no larger than the bound survives only below it.\<close>

lemma scan_bytes_le: "fs_ok fs \<Longrightarrow> artifact_file (dir_at fs k) = Some (bytes, mtime) \<Longrightarrow> length bytes \<le> bytes_in (scan_entries fs)"
proof -
  assume "fs_ok fs" "artifact_file (dir_at fs k) = Some (bytes, mtime)"
  then have "(mtime, length bytes, k) \<in> set (scan_entries fs)" by (auto simp: scan_mem)
  then have "length bytes \<in> set (map (\<lambda>(_, len, _). len) (scan_entries fs))" by force
  then show ?thesis unfolding bytes_in_def by (rule member_le_sum_list) simp
qed

lemma fs_ok_fold_delete [simp]: "fs_ok fs \<Longrightarrow> fs_ok (fold AList.delete ks fs)"
  by (induction ks arbitrary: fs) simp_all

lemma oversized_gone:
  assumes "fs_ok fs" and "\<And>k. io_rmdir io k" and "max_bytes < length bytes"
    and "artifact_file (dir_at fs k) = Some (bytes, mtime)"
  shows "artifact_file (dir_at (evict_compiled_cache io max_bytes fs) k) = None"
proof (rule ccontr)
  assume "artifact_file (dir_at (evict_compiled_cache io max_bytes fs) k) \<noteq> None"
  then have "artifact_file (dir_at (evict_compiled_cache io max_bytes fs) k) = Some (bytes, mtime)"
    using evict_survivor assms(4) by metis
  moreover obtain ks where "evict_compiled_cache io max_bytes fs = fold AList.delete ks fs"
    "bytes_in (scan_entries (evict_compiled_cache io max_bytes fs)) \<le> max_bytes"
    using evict_spec [OF assms(1,2)] by metis
  ultimately show False
    using scan_bytes_le [of "evict_compiled_cache io max_bytes fs" k bytes mtime] assms(1,3) by simp
qed

lemma update_append_new: "k \<notin> fst ` set fs \<Longrightarrow> AList.update k d fs = fs @ [(k, d)]"
  by (induction fs) auto

lemma sum_list_filter_le_nat: "sum_list (map (f :: 'a \<Rightarrow> nat) (filter P xs)) \<le> sum_list (map f xs)"
  by (induction xs) auto

subsection \<open>A concrete cache\<close>

text \<open>
  A compiler that puts a byte in front, a deserialiser that wants that byte, and metadata rendered by
  an injective function, inverted by search in the values in use.
\<close>

definition cache_demo_platform :: platform where
  "cache_demo_platform = \<lparr>pf_arch = ''x86_64'', pf_os = ''linux'', pf_family = ''unix''\<rparr>"

definition cache_demo_request :: cache_request where
  "cache_demo_request = \<lparr>cr_digest = ''sha256:abcd'', cr_fingerprint = ''v2-0'', cr_source = ''wasm'',
     cr_format = ''component'', cr_world = ''wasi:http/proxy''\<rparr>"

definition cache_demo_env :: cache_env where
  "cache_demo_env = \<lparr>ce_platform = cache_demo_platform, ce_precompile = (\<lambda>src. Inr (CHR ''!'' # src)),
     ce_deserialize = (\<lambda>bytes. if take 1 bytes = ''!'' then Inr () else Inl ''bad magic''),
     ce_to_json = (\<lambda>m. replicate (compiled_size_bytes m) (CHR ''x'')),
     ce_from_json = (\<lambda>s. Some (expected_metadata cache_demo_platform cache_demo_request (length s)))\<rparr>"

definition cache_demo_io :: cache_io where
  "cache_demo_io = \<lparr>io_rmdir = (\<lambda>_. True), io_rmfile = (\<lambda>_. True), io_write_artifact = None, io_write_metadata = None,
     io_mtime = 7, io_compile_time = 3, io_restore_time = 1, io_publication_time = 2\<rparr>"

lemmas cache_eval =
  cache_demo_platform_def cache_demo_request_def cache_demo_env_def cache_demo_io_def compiled_cache_entry_def publish_def write_artifact_def
  write_metadata_def cache_entry_paths_def strip_prefix_def dir_at_def evict_compiled_cache_def scan_entries_def
  expected_metadata_def COMPILED_CACHE_SCHEMA_def WASMTIME_VERSION_def target_of_def Let_def
  remove_cache_dir_def load_artifact_def prepare_from_cache_def cache_hit_def artifact_size_def metadata_valid_def
  remove_cache_entry_def report_of_entry_def rebuild_entry_def readiness_of_def

subsection \<open>The properties\<close>

text \<open>C14: a warm restore is sound. The lookup answers WarmRestored exactly when the directory of the
  requested digest and fingerprint holds a non-empty compiled artifact and metadata that decode to the
  one record expected of it: this schema, this digest, fingerprint, Wasmtime version, target,
  architecture, format, world, source size and the size of that very artifact; and it then changes
  nothing on disk.\<close>

theorem cache_hit_sound:
  assumes "compiled_cache_entry env io max_bytes q fs = (Inr e, fs')"
  shows "(entry_source e = WarmRestored \<longleftrightarrow> fully_matching env q fs)
    \<and> (entry_source e = WarmRestored \<longrightarrow> fs' = fs)"
  using entry_source_iff [OF assms] assms by (auto simp: entry_hit)

theorem cache_hit_sound_witness:
  "\<exists>e fs. compiled_cache_entry cache_demo_env cache_demo_io 100 cache_demo_request [] = (Inr e, fs) \<and> \<not> fully_matching cache_demo_env cache_demo_request []
    \<and> entry_source e = ColdCompiled"
proof -
  obtain e fs where r: "compiled_cache_entry cache_demo_env cache_demo_io 100 cache_demo_request [] = (Inr e, fs)" "entry_source e = ColdCompiled"
    by (auto simp: cache_eval)
  then show ?thesis using cache_hit_sound [OF r(1)] by auto
qed

text \<open>C15: what is published is found again. When the metadata encoding is invertible and the compiler's
  output is not empty, every successful lookup whose entry is still there afterwards is answered
  WarmRestored by the next lookup of the same request, without touching the disk; after a cold one the
  artifact on disk is the compiler's output; and no directory of another digest or fingerprint has
  changed, except that the eviction may have removed it.\<close>

theorem cache_roundtrip:
  assumes "\<And>n. ce_from_json env (ce_to_json env (expected_metadata (ce_platform env) q n))
      = Some (expected_metadata (ce_platform env) q n)"
    and "ce_precompile env (cr_source q) \<noteq> Inr []"
    and "compiled_cache_entry env io max_bytes q fs = (Inr e, fs')"
    and "artifact_file (dir_at fs' (key_for q)) \<noteq> None"
  shows "\<exists>e'. compiled_cache_entry env io' max_bytes' q fs' = (Inr e', fs') \<and> entry_source e' = WarmRestored
    \<and> (entry_source e = ColdCompiled \<longrightarrow>
        map_option fst (artifact_file (dir_at fs' (key_for q))) = Some (projr (ce_precompile env (cr_source q))))
    \<and> (k \<noteq> key_for q \<longrightarrow> map_of fs' k \<in> {None, map_of fs k})"
proof (cases "fully_matching env q fs")
  case True
  then show ?thesis using assms(3) by (auto simp: entry_hit)
next
  case False
  then obtain bytes where bytes: "ce_precompile env (cr_source q) = Inr bytes"
    "fs' = evict_compiled_cache io max_bytes (written env io q bytes (cleared io q fs))"
    using assms(3) by (auto simp: entry_miss publish_Inr)
  have kept: "dir_at fs' (key_for q) = dir_at (written env io q bytes (cleared io q fs)) (key_for q)"
    using evict_survivor assms(4) bytes(2) by blast
  have "bytes \<noteq> []" using assms(2) bytes(1) by auto
  then have match: "fully_matching env q fs'" using written_matching [OF assms(1) _ kept] by blast
  have others: "map_of fs' k \<in> {None, map_of fs k}" if "k \<noteq> key_for q"
    using evict_keeps_or_drops [of io max_bytes "written env io q bytes (cleared io q fs)" k] that bytes(2)
    by (auto simp: map_of_written cleared_def remove_entry_other split: if_splits)
  show ?thesis using match kept bytes(1) others by (simp add: entry_hit)
qed

theorem cache_roundtrip_witness:
  "\<exists>e fs e'. compiled_cache_entry cache_demo_env cache_demo_io 100 cache_demo_request [] = (Inr e, fs)
    \<and> compiled_cache_entry cache_demo_env cache_demo_io 100 cache_demo_request fs = (Inr e', fs) \<and> entry_source e' = WarmRestored"
proof -
  obtain e fs where r: "compiled_cache_entry cache_demo_env cache_demo_io 100 cache_demo_request [] = (Inr e, fs)"
    "artifact_file (dir_at fs (key_for cache_demo_request)) \<noteq> None"
    by (auto simp: cache_eval)
  have json: "ce_from_json cache_demo_env (ce_to_json cache_demo_env (expected_metadata (ce_platform cache_demo_env) cache_demo_request n))
      = Some (expected_metadata (ce_platform cache_demo_env) cache_demo_request n)" for n
    by (simp add: cache_demo_env_def expected_metadata_def)
  have "ce_precompile cache_demo_env (cr_source cache_demo_request) \<noteq> Inr []" by (simp add: cache_demo_env_def)
  from cache_roundtrip [OF json this r] show ?thesis using r(1) by blast
qed

lemma evicted_older:
  assumes "fs_ok fs" and i: "fs' = fold AList.delete (map key_of (take i (sort_key fst (scan_entries fs)))) fs"
    and old: "artifact_file (dir_at fs k) = Some (bytes, mtime)" and gone: "map_of fs' k = None"
    and left: "artifact_file (dir_at fs' k') = Some (bytes', mtime')"
  shows "mtime \<le> mtime'"
proof -
  let ?es = "sort_key fst (scan_entries fs)"
  have in1: "(mtime, length bytes, k) \<in> set ?es" using old scan_mem [OF assms(1)] by auto
  have "fs_ok fs'" using assms(1) unfolding i by simp
  then have "(mtime', length bytes', k') \<in> set (scan_entries fs')" using left scan_mem by blast
  then have in2: "(mtime', length bytes', k') \<in> set ?es" "k' \<notin> set (map key_of (take i ?es))"
    unfolding i scan_fold_delete by auto
  have dist: "distinct (map key_of ?es)"
    using scan_keys_distinct [OF assms(1)] by (metis mset_map mset_sort mset_eq_imp_distinct_iff)
  have "k \<in> set (map key_of (take i ?es))"
  proof (rule ccontr)
    assume "k \<notin> set (map key_of (take i ?es))"
    then have "map_of fs' k = map_of fs k" unfolding i map_of_fold_delete by simp
    then show False using gone old by (auto simp: dir_at_def)
  qed
  then obtain e where e: "e \<in> set (take i ?es)" "key_of e = k" by auto
  have "e = (mtime, length bytes, k)"
  proof (rule inj_onD [of key_of "set ?es"])
    show "inj_on key_of (set ?es)" using dist by (simp only: distinct_map)
    show "e \<in> set ?es" by (rule in_set_takeD [OF e(1)])
  qed (use e(2) in1 in simp_all)
  moreover have "(mtime', length bytes', k') \<in> set (drop i ?es)"
  proof -
    have "set ?es = set (take i ?es) \<union> set (drop i ?es)" by (metis append_take_drop_id set_append)
    moreover have "(mtime', length bytes', k') \<notin> set (take i ?es)" using in2(2) by (force simp: image_iff)
    ultimately show ?thesis using in2(1) by blast
  qed
  moreover have "sorted (map fst (take i ?es) @ map fst (drop i ?es))"
    by (metis append_take_drop_id map_append sorted_sort_key)
  ultimately have "fst e \<le> fst (mtime', length bytes', k')" using e(1) unfolding sorted_append by (metis image_eqI image_set)
  then show ?thesis using \<open>e = (mtime, length bytes, k)\<close> by simp
qed



text \<open>An artifact larger than the cache cannot be prepared. When the compiled form of a component
  exceeds the configured bytes, the eviction that follows its publication removes it again, and the
  preparation fails in either restore mode, each time, although the compilation succeeded.\<close>

theorem oversized_artifact_fails:
  assumes "fs_ok fs" and "\<And>k. io_rmdir io k" and "\<not> fully_matching env q fs"
    and "ce_precompile env (cr_source q) = Inr bytes" and "max_bytes < length bytes"
    and "io_write_artifact io = None" and "io_write_metadata io = None"
  shows "\<exists>e fs'. prepare_from_cache mode env io io' max_bytes elapsed q fs = (Inl e, fs')
    \<and> artifact_file (dir_at fs' (key_for q)) = None"
proof -
  let ?fs' = "evict_compiled_cache io max_bytes (written env io q bytes (cleared io q fs))"
  have "publish env io max_bytes q (cleared io q fs) =
      (Inr \<lparr>entry_source = ColdCompiled, entry_compile_duration = io_compile_time io,
           entry_restore_duration = 0, entry_publication_duration = io_publication_time io\<rparr>, ?fs')"
    using assms(4,6,7) by (simp add: publish_Inr)
  moreover have "artifact_file (dir_at ?fs' (key_for q)) = None"
    by (rule oversized_gone [where bytes = bytes and mtime = "io_mtime io"]) (use assms in simp_all)
  ultimately show ?thesis
    using assms(3) by (cases mode) (simp_all add: prepare_from_cache_def entry_miss load_artifact_def)
qed

theorem oversized_artifact_fails_witness:
  "\<exists>e fs'. prepare_from_cache FileBacked cache_demo_env cache_demo_io cache_demo_io 4 9 cache_demo_request [] = (Inl e, fs')"
proof -
  have "fs_ok []" "\<not> fully_matching cache_demo_env cache_demo_request []"
    by (simp_all add: fs_ok_def fully_matching_def dir_at_def)
  from oversized_artifact_fails [OF this(1) _ this(2), of cache_demo_io "''!wasm''" 4 FileBacked cache_demo_io 9]
  show ?thesis by (auto simp: cache_demo_io_def cache_demo_env_def cache_demo_request_def)
qed

text \<open>C17: preparation is sound. When a component is prepared from the cache, in either restore mode and
  after a rebuild or not, the artifact left on disk is one that deserialises; and the report says Warm
  only when the entry found on disk matched the request in full and the disk was left as it was.\<close>

theorem preparation_sound:
  assumes "prepare_from_cache mode env io io' max_bytes elapsed q fs = (Inr rep, fs')"
  shows "load_artifact mode env q fs' = Inr (Inr ())
    \<and> (pr_readiness rep = Warm \<longrightarrow> pr_source rep = WarmRestored \<and> fully_matching env q fs \<and> fs' = fs)"
proof -
  obtain entry fs1 where entry: "compiled_cache_entry env io max_bytes q fs = (Inr entry, fs1)"
    using assms by (auto simp: prepare_from_cache_def split: prod.splits sum.splits)
  show ?thesis
  proof (cases "load_artifact mode env q fs1 = Inr (Inr ())")
    case True
    then have "rep = report_of_entry (readiness_of (entry_source entry)) elapsed entry" "fs' = fs1"
      using assms entry by (simp_all add: prepare_from_cache_def)
    then show ?thesis using True entry entry_source_iff [OF entry]
      by (cases "entry_source entry") (auto simp: report_of_entry_def readiness_of_def entry_hit)
  next
    case False
    then obtain damage where "rebuild_entry mode env io' max_bytes elapsed q damage fs1 = (Inr rep, fs')"
      using assms entry by (auto simp: prepare_from_cache_def split: sum.splits if_splits)
    then show ?thesis by (auto simp: rebuild_entry_def report_of_entry_def split: prod.splits sum.splits)
  qed
qed

theorem preparation_sound_witness:
  "\<exists>rep fs'. prepare_from_cache FileBacked cache_demo_env cache_demo_io cache_demo_io 100 9 cache_demo_request [] = (Inr rep, fs')
    \<and> load_artifact FileBacked cache_demo_env cache_demo_request fs' = Inr (Inr ())"
proof -
  obtain rep fs' where r: "prepare_from_cache FileBacked cache_demo_env cache_demo_io cache_demo_io 100 9 cache_demo_request [] = (Inr rep, fs')"
    by (auto simp: cache_eval)
  then show ?thesis using preparation_sound [OF r] by blast
qed

text \<open>Preparation recovers from a damaged entry. A matching entry whose artifact does not deserialise
  is rebuilt: when its directory can be removed, the compiler's output deserialises and there is room
  for it, the preparation succeeds, reports a cold compilation, and leaves that output on disk.\<close>

theorem preparation_recovers:
  assumes "fs_ok fs" and "io_rmdir io' (key_for q)"
    and "ce_precompile env (cr_source q) = Inr bytes" and "ce_deserialize env bytes = Inr ()"
    and "io_write_artifact io' = None" and "io_write_metadata io' = None"
    and "bytes_in (scan_entries fs) + length bytes \<le> max_bytes"
    and "fully_matching env q fs" and "load_artifact mode env q fs = Inr (Inl damage)"
  shows "\<exists>rep fs'. prepare_from_cache mode env io io' max_bytes elapsed q fs = (Inr rep, fs')
    \<and> pr_readiness rep = Cold \<and> pr_source rep = ColdCompiled
    \<and> map_option fst (artifact_file (dir_at fs' (key_for q))) = Some bytes
    \<and> load_artifact mode env q fs' = Inr (Inr ())"
proof -
  let ?fs1 = "AList.delete (key_for q) fs" and ?fs2 = "written env io' q bytes (AList.delete (key_for q) fs)"
  have clear: "remove_cache_entry io' (key_for q) fs = ?fs1" by (rule remove_entry_gone [OF assms(2)])
  have miss: "\<not> fully_matching env q ?fs1" by (simp add: fully_matching_def dir_at_delete)
  have same: "cleared io' q ?fs1 = ?fs1" by (simp add: cleared_def dir_at_delete)
  have "scan_entries ?fs2 = scan_entries ?fs1 @ [(io_mtime io', length bytes, key_for q)]"
  proof -
    have "key_for q \<notin> fst ` set ?fs1" by (metis delete_conv' fun_upd_same map_of_eq_None_iff)
    then have "?fs2 = ?fs1 @ [(key_for q, \<lparr>artifact_file = Some (bytes, io_mtime io'),
        metadata_file = Some (ce_to_json env (expected_metadata (ce_platform env) q (length bytes)))\<rparr>)]"
      unfolding written_def by (rule update_append_new)
    then show ?thesis by (simp add: scan_entries_alt artifact_entry_def)
  qed
  moreover have "bytes_in (scan_entries ?fs1) \<le> bytes_in (scan_entries fs)"
    unfolding scan_delete bytes_in_def by (rule sum_list_filter_le_nat)
  ultimately have "bytes_in (scan_entries ?fs2) \<le> max_bytes" using assms(7) by (simp add: bytes_in_def)
  then have fits: "evict_compiled_cache io' max_bytes ?fs2 = ?fs2" by (rule evict_none)
  have "compiled_cache_entry env io' max_bytes q ?fs1 =
      (Inr \<lparr>entry_source = ColdCompiled, entry_compile_duration = io_compile_time io',
           entry_restore_duration = 0, entry_publication_duration = io_publication_time io'\<rparr>, ?fs2)"
    using miss assms(3,5,6) same fits by (simp add: entry_miss publish_Inr)
  moreover have "load_artifact mode env q ?fs2 = Inr (Inr ())" using assms(4) by (simp add: load_artifact_def)
  ultimately have "rebuild_entry mode env io' max_bytes elapsed q damage fs =
      (Inr (report_of_entry Cold elapsed \<lparr>entry_source = ColdCompiled, entry_compile_duration = io_compile_time io',
           entry_restore_duration = 0, entry_publication_duration = io_publication_time io'\<rparr>), ?fs2)"
    by (simp add: rebuild_entry_def clear)
  then show ?thesis
    using assms(8,9) by (simp add: prepare_from_cache_def entry_hit report_of_entry_def load_artifact_def assms(4))
qed

theorem preparation_recovers_witness:
  "\<exists>rep fs'. prepare_from_cache Bytes cache_demo_env cache_demo_io cache_demo_io 100 9 cache_demo_request
      [((''ab'', ''abcd'', ''v2-0''), \<lparr>artifact_file = Some (''?'', 2), metadata_file = Some ''x''\<rparr>)] = (Inr rep, fs')
    \<and> pr_source rep = ColdCompiled"
proof -
  let ?fs = "[((''ab'', ''abcd'', ''v2-0''), \<lparr>artifact_file = Some (''?'', 2), metadata_file = Some ''x''\<rparr>)] :: cache_fs"
  have "fs_ok ?fs" by (simp add: fs_ok_def)
  moreover have "fully_matching cache_demo_env cache_demo_request ?fs"
    by (auto simp: fully_matching_def dir_at_def cache_entry_paths_def strip_prefix_def cache_demo_request_def cache_demo_env_def)
  moreover have "load_artifact Bytes cache_demo_env cache_demo_request ?fs = Inr (Inl ''bad magic'')"
    by (simp add: load_artifact_def dir_at_def cache_entry_paths_def strip_prefix_def cache_demo_request_def cache_demo_env_def)
  moreover have "bytes_in (scan_entries ?fs) + length ''!wasm'' \<le> 100" by (simp add: bytes_in_def scan_entries_def)
  ultimately show ?thesis
    using preparation_recovers [of ?fs cache_demo_io cache_demo_request cache_demo_env "''!wasm''" 100 Bytes "''bad magic''" cache_demo_io 9]
    by (auto simp: cache_demo_env_def cache_demo_request_def cache_demo_io_def)
qed

end
