(* ===== verification/Rt_Paddock.thy ===== *)
theory Rt_Paddock
  imports Pit_Strings "HOL-Library.AList"
begin

section \<open>The Paddock capability of a guest\<close>

text \<open>
  \<^verbatim>\<open>crates/pit-runtime/src/lib.rs\<close>, lines 2081 to 2323: the host functions a guest calls to
  store and read objects. They check names, then the grants of the invocation, then that a backend is
  configured, and call it; writers live in the resource table of the instance until they are committed
  or aborted. The backend, its writers, the two name parsers and \<^verbatim>\<open>PaddockGrant::allows\<close> belong
  to other crates and are parameters; the resource table is Wasmtime's, with its choice of fresh
  indices and its capacity as parameters.
\<close>

subsection \<open>Data\<close>

text \<open>\<^verbatim>\<open>ObjectRef\<close> of the backend, with its parts displayed, and the record handed to the guest.\<close>

record stored_object =
  so_namespace :: string
  so_key :: string
  so_version :: nat
  so_digest :: string
  so_size :: nat
  so_content_type :: "string option"
  so_deleted :: bool

record paddock_object =
  po_namespace :: string
  po_key :: string
  po_version :: nat
  po_digest :: string
  po_size :: nat
  po_content_type :: "string option"
  po_deleted :: bool

definition to_paddock_object :: "stored_object \<Rightarrow> paddock_object" where
  "to_paddock_object x =
     \<lparr>po_namespace = so_namespace x, po_key = so_key x, po_version = so_version x, po_digest = so_digest x,
      po_size = so_size x, po_content_type = so_content_type x, po_deleted = so_deleted x\<rparr>"

datatype store_error = Unavailable string | Denied string | Conflict string

definition paddock_error :: "string \<Rightarrow> store_error" where
  "paddock_error e = Unavailable e"

record PaddockGrant =
  grant_namespace :: string
  grant_delete :: bool
  grant_list :: bool
  grant_allows :: "string \<Rightarrow> bool \<Rightarrow> bool" \<comment> \<open>\<^verbatim>\<open>allows(namespace, write)\<close>\<close>

text \<open>A backend with state \<open>'b\<close> and open writers \<open>'w\<close>.\<close>

record ('b, 'w) paddock_backend =
  bk_begin :: "string \<Rightarrow> string \<Rightarrow> string option \<Rightarrow> 'b \<Rightarrow> (string + 'w) \<times> 'b"
  bk_get :: "string \<Rightarrow> string \<Rightarrow> 'b \<Rightarrow> (string + stored_object) \<times> 'b"
  bk_read_range :: "string \<Rightarrow> nat \<Rightarrow> nat \<Rightarrow> 'b \<Rightarrow> (string + string) \<times> 'b"
  bk_delete :: "string \<Rightarrow> string \<Rightarrow> 'b \<Rightarrow> (string + unit) \<times> 'b"
  bk_list :: "string \<Rightarrow> string option \<Rightarrow> 'b \<Rightarrow> (string + stored_object list) \<times> 'b"
  wr_chunk :: "string \<Rightarrow> 'w \<Rightarrow> 'b \<Rightarrow> (string + unit) \<times> 'w \<times> 'b"
  wr_commit :: "'w \<Rightarrow> 'b \<Rightarrow> (string + stored_object) \<times> 'b"
  wr_abort :: "'w \<Rightarrow> 'b \<Rightarrow> (string + unit) \<times> 'b"

record names =
  namespace_new :: "string \<Rightarrow> string + string"
  object_key_new :: "string \<Rightarrow> string + string"

record resource_table =
  fresh_index :: "nat list \<Rightarrow> nat"
  table_capacity :: nat
  table_error :: string

text \<open>What the handlers read and change of \<^verbatim>\<open>HttpHostState\<close>.\<close>

record ('b, 'w) host =
  hs_names :: names
  hs_resources :: resource_table
  hs_grants :: "PaddockGrant list"
  hs_backend :: "('b, 'w) paddock_backend option"
  hs_table :: "(nat \<times> 'w option) list"
  hs_store :: 'b

definition paddock_granted :: "('b, 'w) host \<Rightarrow> string \<Rightarrow> bool \<Rightarrow> bool" where
  "paddock_granted h ns write = list_ex (\<lambda>grant. grant_allows grant ns write) (hs_grants h)"

subsection \<open>Objects\<close>

definition not_configured :: store_error where
  "not_configured = Unavailable ''Paddock capability is not configured''"

text \<open>The common end of the handlers: the backend's result, its error as \<^verbatim>\<open>Unavailable\<close>.\<close>

definition backend_result :: "(string + 'a) \<times> 'b \<Rightarrow> ('a \<Rightarrow> 'r) \<Rightarrow> ('b, 'w) host \<Rightarrow> (store_error + 'r) \<times> ('b, 'w) host" where
  "backend_result res f h = (map_sum paddock_error f (fst res), h\<lparr>hs_store := snd res\<rparr>)"

definition push_writer :: "'w \<Rightarrow> ('b, 'w) host \<Rightarrow> (store_error + nat) \<times> ('b, 'w) host" where
  "push_writer w h =
     (if table_capacity (hs_resources h) \<le> length (hs_table h)
      then (Inl (paddock_error (table_error (hs_resources h))), h)
      else (let i = fresh_index (hs_resources h) (map fst (hs_table h))
            in (Inr i, h\<lparr>hs_table := (i, Some w) # hs_table h\<rparr>)))"

definition begin_write ::
  "string \<Rightarrow> string \<Rightarrow> string option \<Rightarrow> ('b, 'w) host \<Rightarrow> (store_error + nat) \<times> ('b, 'w) host" where
  "begin_write namespace key content_type h =
     (case namespace_new (hs_names h) namespace of Inl e \<Rightarrow> (Inl (paddock_error e), h) | Inr ns \<Rightarrow>
     (case object_key_new (hs_names h) key of Inl e \<Rightarrow> (Inl (paddock_error e), h) | Inr k \<Rightarrow>
      if \<not> paddock_granted h ns True
      then (Inl (Denied (''write access denied for namespace '' @ ns)), h)
      else (case hs_backend h of None \<Rightarrow> (Inl not_configured, h) | Some backend \<Rightarrow>
        (case bk_begin backend ns k content_type (hs_store h) of
           (Inl e, st) \<Rightarrow> (Inl (paddock_error e), h\<lparr>hs_store := st\<rparr>)
         | (Inr w, st) \<Rightarrow> push_writer w (h\<lparr>hs_store := st\<rparr>)))))"

definition get_object_ref ::
  "string \<Rightarrow> string \<Rightarrow> ('b, 'w) host \<Rightarrow> (store_error + paddock_object) \<times> ('b, 'w) host" where
  "get_object_ref namespace key h =
     (case namespace_new (hs_names h) namespace of Inl e \<Rightarrow> (Inl (paddock_error e), h) | Inr ns \<Rightarrow>
     (case object_key_new (hs_names h) key of Inl e \<Rightarrow> (Inl (paddock_error e), h) | Inr k \<Rightarrow>
      if \<not> paddock_granted h ns False
      then (Inl (Denied (''read access denied for namespace '' @ ns)), h)
      else (case hs_backend h of None \<Rightarrow> (Inl not_configured, h) | Some backend \<Rightarrow>
        backend_result (bk_get backend ns k (hs_store h)) to_paddock_object h)))"

definition read_range ::
  "string \<Rightarrow> string \<Rightarrow> nat \<Rightarrow> nat \<Rightarrow> ('b, 'w) host \<Rightarrow> (store_error + string) \<times> ('b, 'w) host" where
  "read_range namespace key offset len h =
     (case namespace_new (hs_names h) namespace of Inl e \<Rightarrow> (Inl (paddock_error e), h) | Inr ns \<Rightarrow>
     (case object_key_new (hs_names h) key of Inl e \<Rightarrow> (Inl (paddock_error e), h) | Inr k \<Rightarrow>
      if \<not> paddock_granted h ns False
      then (Inl (Denied (''read access denied for namespace '' @ ns)), h)
      else (case hs_backend h of None \<Rightarrow> (Inl not_configured, h) | Some backend \<Rightarrow>
        (case bk_get backend ns k (hs_store h) of
           (Inl e, st) \<Rightarrow> (Inl (paddock_error e), h\<lparr>hs_store := st\<rparr>)
         | (Inr x, st) \<Rightarrow> backend_result (bk_read_range backend (so_digest x) offset len st) id h))))"

definition delete_object_ref ::
  "string \<Rightarrow> string \<Rightarrow> ('b, 'w) host \<Rightarrow> (store_error + unit) \<times> ('b, 'w) host" where
  "delete_object_ref namespace key h =
     (case namespace_new (hs_names h) namespace of Inl e \<Rightarrow> (Inl (paddock_error e), h) | Inr ns \<Rightarrow>
     (case object_key_new (hs_names h) key of Inl e \<Rightarrow> (Inl (paddock_error e), h) | Inr k \<Rightarrow>
      if \<not> list_ex (\<lambda>grant. grant_namespace grant = ns \<and> grant_delete grant) (hs_grants h)
      then (Inl (Denied (''delete access denied for namespace '' @ ns)), h)
      else (case hs_backend h of None \<Rightarrow> (Inl not_configured, h) | Some backend \<Rightarrow>
        backend_result (bk_delete backend ns k (hs_store h)) id h)))"

definition list_object_refs ::
  "string \<Rightarrow> string option \<Rightarrow> ('b, 'w) host \<Rightarrow> (store_error + paddock_object list) \<times> ('b, 'w) host" where
  "list_object_refs namespace prefix h =
     (case namespace_new (hs_names h) namespace of Inl e \<Rightarrow> (Inl (paddock_error e), h) | Inr ns \<Rightarrow>
      if \<not> list_ex (\<lambda>grant. grant_namespace grant = ns \<and> grant_list grant) (hs_grants h)
      then (Inl (Denied (''list access denied for namespace '' @ ns)), h)
      else (case hs_backend h of None \<Rightarrow> (Inl not_configured, h) | Some backend \<Rightarrow>
        backend_result (bk_list backend ns prefix (hs_store h)) (map to_paddock_object) h))"

subsection \<open>Writers\<close>

text \<open>
  A writer slot is \<open>Some (Some w)\<close> while open, \<open>Some None\<close> once finalised, \<open>None\<close> when the
  index is not in the table. A backend is there when a writer is: only \<^verbatim>\<open>begin_write\<close> makes
  them, and the backend of an invocation does not change; \<open>None\<close> for the backend is therefore treated
  like a missing entry.
\<close>

definition writer_finalized :: store_error where
  "writer_finalized = Conflict ''writer finalized''"

definition missing_resource :: "('b, 'w) host \<Rightarrow> store_error" where
  "missing_resource h = paddock_error (table_error (hs_resources h))"

definition writer_write :: "nat \<Rightarrow> string \<Rightarrow> ('b, 'w) host \<Rightarrow> (store_error + unit) \<times> ('b, 'w) host" where
  "writer_write i chunk h =
     (case (map_of (hs_table h) i, hs_backend h) of
        (Some (Some w), Some backend) \<Rightarrow>
          (case wr_chunk backend chunk w (hs_store h) of
             (res, w', st) \<Rightarrow>
               (map_sum paddock_error id res,
                h\<lparr>hs_table := AList.update i (Some w') (hs_table h), hs_store := st\<rparr>))
      | (Some None, _) \<Rightarrow> (Inl writer_finalized, h)
      | _ \<Rightarrow> (Inl (missing_resource h), h))"

text \<open>\<^verbatim>\<open>commit\<close> takes the writer out of its slot before it commits it.\<close>

definition writer_commit :: "nat \<Rightarrow> ('b, 'w) host \<Rightarrow> (store_error + paddock_object) \<times> ('b, 'w) host" where
  "writer_commit i h =
     (case (map_of (hs_table h) i, hs_backend h) of
        (Some (Some w), Some backend) \<Rightarrow>
          backend_result (wr_commit backend w (hs_store h)) to_paddock_object
            (h\<lparr>hs_table := AList.update i None (hs_table h)\<rparr>)
      | (Some None, _) \<Rightarrow> (Inl writer_finalized, h)
      | _ \<Rightarrow> (Inl (missing_resource h), h))"

definition writer_abort :: "nat \<Rightarrow> ('b, 'w) host \<Rightarrow> (store_error + unit) \<times> ('b, 'w) host" where
  "writer_abort i h =
     (case (map_of (hs_table h) i, hs_backend h) of
        (Some (Some w), Some backend) \<Rightarrow>
          backend_result (wr_abort backend w (hs_store h)) id
            (h\<lparr>hs_table := AList.update i None (hs_table h)\<rparr>)
      | (Some None, _) \<Rightarrow> (Inr (), h)
      | _ \<Rightarrow> (Inl (missing_resource h), h))"

text \<open>Dropping the resource; the handler's error is Wasmtime's, for an index that is not there.\<close>

definition writer_drop :: "nat \<Rightarrow> ('b, 'w) host \<Rightarrow> (string + unit) \<times> ('b, 'w) host" where
  "writer_drop i h =
     (if map_of (hs_table h) i = None then (Inl (table_error (hs_resources h)), h)
      else (Inr (), h\<lparr>hs_table := AList.delete i (hs_table h)\<rparr>))"

end
