(* ===== verification/Rt_Paddock_Claims.thy ===== *)
theory Rt_Paddock_Claims
  imports Rt_Paddock
begin

section \<open>What the Paddock capability promises\<close>

text \<open>
  All host functions as the operations of one machine, with the properties that bind them: no access
  without a grant, the life of a writer, and that a sequence of writes reaches the backend as it is.
\<close>

subsection \<open>The operations\<close>

datatype store_op =
    BeginWrite string string "string option"
  | GetObject string string
  | ReadRange string string nat nat
  | DeleteObject string string
  | ListObjects string "string option"

datatype store_value =
    WriterHandle nat
  | ObjectValue paddock_object
  | BytesValue string
  | UnitValue
  | ObjectList "paddock_object list"

fun store_exec :: "store_op \<Rightarrow> ('b, 'w) host \<Rightarrow> (store_error + store_value) \<times> ('b, 'w) host" where
  "store_exec (BeginWrite ns k ct) h = map_prod (map_sum id WriterHandle) id (begin_write ns k ct h)"
| "store_exec (GetObject ns k) h = map_prod (map_sum id ObjectValue) id (get_object_ref ns k h)"
| "store_exec (ReadRange ns k off len) h = map_prod (map_sum id BytesValue) id (read_range ns k off len h)"
| "store_exec (DeleteObject ns k) h = map_prod (map_sum id (\<lambda>_. UnitValue)) id (delete_object_ref ns k h)"
| "store_exec (ListObjects ns p) h = map_prod (map_sum id ObjectList) id (list_object_refs ns p h)"

fun op_namespace :: "store_op \<Rightarrow> string" where
  "op_namespace (BeginWrite ns _ _) = ns"
| "op_namespace (GetObject ns _) = ns"
| "op_namespace (ReadRange ns _ _ _) = ns"
| "op_namespace (DeleteObject ns _) = ns"
| "op_namespace (ListObjects ns _) = ns"

fun op_key_ok :: "('b, 'w) host \<Rightarrow> store_op \<Rightarrow> bool" where
  "op_key_ok h (BeginWrite _ k _) \<longleftrightarrow> \<not> isl (object_key_new (hs_names h) k)"
| "op_key_ok h (GetObject _ k) \<longleftrightarrow> \<not> isl (object_key_new (hs_names h) k)"
| "op_key_ok h (ReadRange _ k _ _) \<longleftrightarrow> \<not> isl (object_key_new (hs_names h) k)"
| "op_key_ok h (DeleteObject _ k) \<longleftrightarrow> \<not> isl (object_key_new (hs_names h) k)"
| "op_key_ok h (ListObjects _ _) \<longleftrightarrow> True"

definition names_ok :: "('b, 'w) host \<Rightarrow> store_op \<Rightarrow> bool" where
  "names_ok h op \<longleftrightarrow> \<not> isl (namespace_new (hs_names h) (op_namespace op)) \<and> op_key_ok h op"

text \<open>What the grants say about an operation on a parsed namespace.\<close>

fun op_granted :: "PaddockGrant list \<Rightarrow> string \<Rightarrow> store_op \<Rightarrow> bool" where
  "op_granted grants ns (BeginWrite _ _ _) \<longleftrightarrow> (\<exists>g\<in>set grants. grant_allows g ns True)"
| "op_granted grants ns (GetObject _ _) \<longleftrightarrow> (\<exists>g\<in>set grants. grant_allows g ns False)"
| "op_granted grants ns (ReadRange _ _ _ _) \<longleftrightarrow> (\<exists>g\<in>set grants. grant_allows g ns False)"
| "op_granted grants ns (DeleteObject _ _) \<longleftrightarrow> (\<exists>g\<in>set grants. grant_namespace g = ns \<and> grant_delete g)"
| "op_granted grants ns (ListObjects _ _) \<longleftrightarrow> (\<exists>g\<in>set grants. grant_namespace g = ns \<and> grant_list g)"

definition permitted :: "('b, 'w) host \<Rightarrow> store_op \<Rightarrow> bool" where
  "permitted h op \<longleftrightarrow> op_granted (hs_grants h) (projr (namespace_new (hs_names h) (op_namespace op))) op"

lemma paddock_error_kind [simp]:
  "paddock_error e \<noteq> Denied m" "not_configured \<noteq> Denied m"
  "Denied m \<noteq> paddock_error e" "Denied m \<noteq> not_configured"
  by (simp_all add: paddock_error_def not_configured_def)

lemmas store_defs = begin_write_def get_object_ref_def read_range_def delete_object_ref_def list_object_refs_def
  push_writer_def backend_result_def

lemma map_sum_Inl_iff: "map_sum f g x = Inl y \<longleftrightarrow> (\<exists>a. x = Inl a \<and> y = f a)"
  by (cases x) auto

lemma store_exec_refused:
  "\<not> (names_ok h op \<and> permitted h op \<and> hs_backend h \<noteq> None) \<Longrightarrow> \<exists>e. store_exec op h = (Inl e, h)"
  by (cases op)
    (auto simp: store_defs names_ok_def permitted_def paddock_granted_def list_ex_iff isl_def split: sum.splits option.splits)

lemma store_exec_denied:
  "(\<exists>m. fst (store_exec op h) = Inl (Denied m)) \<longleftrightarrow> names_ok h op \<and> \<not> permitted h op"
  by (cases op)
    (auto simp: store_defs names_ok_def permitted_def paddock_granted_def list_ex_iff isl_def map_sum_Inl_iff Let_def
      split: sum.splits option.splits prod.splits)

subsection \<open>Writers\<close>

datatype host_op =
    StoreOp store_op
  | WriteChunk nat string
  | CommitWriter nat
  | AbortWriter nat
  | DropWriter nat

fun host_exec :: "host_op \<Rightarrow> ('b, 'w) host \<Rightarrow> ('b, 'w) host" where
  "host_exec (StoreOp op) h = snd (store_exec op h)"
| "host_exec (WriteChunk i chunk) h = snd (writer_write i chunk h)"
| "host_exec (CommitWriter i) h = snd (writer_commit i h)"
| "host_exec (AbortWriter i) h = snd (writer_abort i h)"
| "host_exec (DropWriter i) h = snd (writer_drop i h)"

text \<open>A fresh index is one not in the table.\<close>

definition fresh_ok :: "('b, 'w) host \<Rightarrow> bool" where
  "fresh_ok h \<longleftrightarrow> (\<forall>used. fresh_index (hs_resources h) used \<notin> set used)"

definition finalised :: "nat \<Rightarrow> ('b, 'w) host \<Rightarrow> bool" where
  "finalised i h \<longleftrightarrow> map_of (hs_table h) i = Some None"

lemma fresh_not_used: "fresh_ok h \<Longrightarrow> map_of (hs_table h) i = Some x \<Longrightarrow>
    fresh_index (hs_resources h) (map fst (hs_table h)) \<noteq> i"
  unfolding fresh_ok_def by (metis map_of_SomeD fst_conv image_eqI image_set)

text \<open>What an operation leaves alone: every slot but its own, and the resource table's policy.\<close>

lemma store_exec_slots:
  assumes "fresh_ok h" and "map_of (hs_table h) i = Some x"
  shows "map_of (hs_table (snd (store_exec op h))) i = Some x
    \<and> hs_resources (snd (store_exec op h)) = hs_resources h"
  using assms fresh_not_used [OF assms]
  by (cases op) (auto simp: store_defs Let_def split: sum.splits option.splits prod.splits)

lemma host_exec_finalised:
  assumes "fresh_ok h" and "finalised i h" and "op \<noteq> DropWriter i"
  shows "fresh_ok (host_exec op h) \<and> finalised i (host_exec op h)"
proof (cases op)
  case (StoreOp sop)
  then show ?thesis using store_exec_slots [OF assms(1), of i None sop] assms by (simp add: finalised_def fresh_ok_def)
qed (use assms in \<open>auto simp: finalised_def fresh_ok_def writer_write_def writer_commit_def writer_abort_def writer_drop_def
    backend_result_def update_conv' delete_conv' split: option.splits prod.splits\<close>)

lemma finalised_stays:
  "fresh_ok h \<Longrightarrow> finalised i h \<Longrightarrow> DropWriter i \<notin> set ops \<Longrightarrow>
    fresh_ok (fold host_exec ops h) \<and> finalised i (fold host_exec ops h)"
proof (induction ops arbitrary: h)
  case (Cons op ops)
  then have "op \<noteq> DropWriter i" by auto
  then show ?case using host_exec_finalised [of h i op] Cons by simp
qed simp

lemma finalised_ops:
  assumes "finalised i h"
  shows "writer_write i chunk h = (Inl writer_finalized, h)" "writer_commit i h = (Inl writer_finalized, h)"
    "writer_abort i h = (Inr (), h)"
  using assms by (simp_all add: finalised_def writer_write_def writer_commit_def writer_abort_def)

lemma ended_finalised:
  assumes "map_of (hs_table h) i = Some (Some w)" and "hs_backend h = Some backend" and "fresh_ok h"
  shows "finalised i (snd (writer_commit i h)) \<and> fresh_ok (snd (writer_commit i h))"
    and "finalised i (snd (writer_abort i h)) \<and> fresh_ok (snd (writer_abort i h))"
  using assms by (simp_all add: finalised_def fresh_ok_def writer_commit_def writer_abort_def backend_result_def update_conv')

text \<open>What no operation changes: the names, the grants and the backend of the invocation.\<close>

lemma host_exec_capability:
  "hs_names (host_exec op h) = hs_names h \<and> hs_grants (host_exec op h) = hs_grants h
    \<and> hs_backend (host_exec op h) = hs_backend h"
proof (cases op)
  case (StoreOp sop)
  then show ?thesis by (cases sop) (auto simp: store_defs Let_def split: sum.splits option.splits prod.splits)
qed (auto simp: writer_write_def writer_commit_def writer_abort_def writer_drop_def backend_result_def
    split: option.splits prod.splits)

lemma host_run_capability:
  "hs_names (fold host_exec ops h) = hs_names h \<and> hs_grants (fold host_exec ops h) = hs_grants h
    \<and> hs_backend (fold host_exec ops h) = hs_backend h"
  by (induction ops arbitrary: h) (simp_all add: host_exec_capability)

text \<open>A session with the backend alone, and the same session through the host.\<close>

fun backend_writes ::
  "('b, 'w) paddock_backend \<Rightarrow> string list \<Rightarrow> 'w \<Rightarrow> 'b \<Rightarrow> (string + unit) \<times> 'w \<times> 'b" where
  "backend_writes backend [] w st = (Inr (), w, st)"
| "backend_writes backend (chunk # chunks) w st =
     (case wr_chunk backend chunk w st of
        (Inl e, w', st') \<Rightarrow> (Inl e, w', st')
      | (Inr _, w', st') \<Rightarrow> backend_writes backend chunks w' st')"

fun host_writes :: "nat \<Rightarrow> string list \<Rightarrow> ('b, 'w) host \<Rightarrow> (store_error + unit) \<times> ('b, 'w) host" where
  "host_writes i [] h = (Inr (), h)"
| "host_writes i (chunk # chunks) h =
     (case writer_write i chunk h of (Inl e, h') \<Rightarrow> (Inl e, h') | (Inr _, h') \<Rightarrow> host_writes i chunks h')"

lemma host_writes_backend:
  assumes "hs_backend h = Some backend" and "map_of (hs_table h) i = Some (Some w)"
    and "backend_writes backend chunks w (hs_store h) = (res, w', st)"
  shows "\<exists>h'. host_writes i chunks h = (map_sum paddock_error id res, h') \<and> hs_backend h' = Some backend
    \<and> map_of (hs_table h') i = Some (Some w') \<and> hs_store h' = st"
  using assms
proof (induction chunks arbitrary: h w)
  case (Cons chunk chunks)
  obtain r v st1 where step: "wr_chunk backend chunk w (hs_store h) = (r, v, st1)" by (metis surj_pair)
  let ?h1 = "h\<lparr>hs_table := AList.update i (Some v) (hs_table h), hs_store := st1\<rparr>"
  have wrote: "writer_write i chunk h = (map_sum paddock_error id r, ?h1)"
    using Cons.prems step by (simp add: writer_write_def)
  show ?case
  proof (cases r)
    case (Inl e)
    then show ?thesis using Cons.prems step wrote by (auto simp: update_conv')
  next
    case (Inr u)
    then have "backend_writes backend chunks v st1 = (res, w', st)" using Cons.prems(3) step by simp
    then show ?thesis using Cons.IH [of ?h1 v] Cons.prems(1) wrote Inr by (simp add: update_conv')
  qed
qed auto

lemma begin_write_opens:
  assumes "begin_write namespace key content_type h = (Inr i, h')"
  shows "\<exists>ns k backend w. namespace_new (hs_names h) namespace = Inr ns \<and> object_key_new (hs_names h) key = Inr k
    \<and> paddock_granted h ns True \<and> hs_backend h = Some backend
    \<and> bk_begin backend ns k content_type (hs_store h) = (Inr w, hs_store h')
    \<and> hs_backend h' = Some backend \<and> map_of (hs_table h') i = Some (Some w)"
  using assms
  by (auto simp: begin_write_def push_writer_def Let_def split: sum.splits option.splits prod.splits if_splits)

subsection \<open>The properties\<close>

text \<open>C18: no access without a grant. An operation on the store is answered Denied exactly when its names
  parse and no grant of the invocation covers it: for writing, reading or reading a range what the grant
  allows, for deleting and listing the flags of a grant on that very namespace; and whatever is refused,
  for want of a grant, of valid names or of a backend, changes nothing and never reaches the backend.\<close>

theorem paddock_denied_exact:
  "((\<exists>m. fst (store_exec op h) = Inl (Denied m)) \<longleftrightarrow> names_ok h op \<and> \<not> permitted h op)
   \<and> (names_ok h op \<and> permitted h op \<and> hs_backend h \<noteq> None \<or> snd (store_exec op h) = h)"
  using store_exec_denied [of op h] store_exec_refused [of h op] by fastforce

text \<open>A writer is finalised once. After an open writer has been committed or aborted, whatever the
  backend answered, every later state that any operations lead to, short of dropping that very resource,
  still has it finalised: writing to it and committing it again are conflicts, aborting it succeeds, and
  none of them changes anything or reaches the backend.\<close>

theorem writer_finalised_once:
  assumes "fresh_ok h" and "hs_backend h = Some backend" and "map_of (hs_table h) i = Some (Some w)"
    and "ended = snd (writer_commit i h) \<or> ended = snd (writer_abort i h)"
    and "DropWriter i \<notin> set ops" and "later = fold host_exec ops ended"
  shows "writer_write i chunk later = (Inl writer_finalized, later)
    \<and> writer_commit i later = (Inl writer_finalized, later)
    \<and> writer_abort i later = (Inr (), later)"
proof -
  have "finalised i ended \<and> fresh_ok ended" using ended_finalised [OF assms(3,2,1)] assms(4) by blast
  then have "finalised i later" using finalised_stays assms(5,6) by blast
  then show ?thesis by (simp add: finalised_ops)
qed

definition log_backend :: "(string list, string) paddock_backend" where
  "log_backend =
     \<lparr>bk_begin = (\<lambda>ns k ct st. (Inr [], st)), bk_get = (\<lambda>ns k st. (Inl ''none'', st)),
      bk_read_range = (\<lambda>d off len st. (Inl ''none'', st)), bk_delete = (\<lambda>ns k st. (Inr (), st)),
      bk_list = (\<lambda>ns p st. (Inr [], st)), wr_chunk = (\<lambda>chunk w st. (Inr (), w @ chunk, st)),
      wr_commit = (\<lambda>w st. (Inr \<lparr>so_namespace = ''n'', so_key = ''k'', so_version = 1, so_digest = ''d'',
        so_size = length w, so_content_type = None, so_deleted = False\<rparr>, st @ [w])),
      wr_abort = (\<lambda>w st. (Inr (), st))\<rparr>"

definition fresh_demo :: "nat list \<Rightarrow> nat" where
  "fresh_demo used = Suc (fold max used 0)"

lemma fold_max_ge_start: "(a :: nat) \<le> fold max xs a"
  by (induction xs arbitrary: a) (auto intro: order_trans [OF max.cobounded2])

lemma fold_max_ge: "x \<in> set xs \<Longrightarrow> (x :: nat) \<le> fold max xs a"
proof (induction xs arbitrary: a)
  case (Cons y ys)
  then show ?case using fold_max_ge_start [of "max y a" ys] by auto
qed simp

lemma fresh_demo_new: "fresh_demo used \<notin> set used"
  using fold_max_ge [of "fresh_demo used" used 0] by (auto simp: fresh_demo_def)

definition demo_host :: "(string list, string) host" where
  "demo_host =
     \<lparr>hs_names = \<lparr>namespace_new = Inr, object_key_new = Inr\<rparr>,
      hs_resources = \<lparr>fresh_index = fresh_demo, table_capacity = 8, table_error = ''absent''\<rparr>,
      hs_grants = [\<lparr>grant_namespace = ''n'', grant_delete = False, grant_list = False, grant_allows = (\<lambda>ns _. ns = ''n'')\<rparr>],
      hs_backend = Some log_backend, hs_table = [(1, Some ''ab'')], hs_store = []\<rparr>"

lemma demo_host_fresh: "fresh_ok demo_host"
  by (simp add: fresh_ok_def demo_host_def fresh_demo_new)

theorem writer_finalised_once_witness:
  "writer_commit 1 (fold host_exec [WriteChunk 1 ''c''] (snd (writer_commit 1 demo_host)))
    = (Inl writer_finalized, fold host_exec [WriteChunk 1 ''c''] (snd (writer_commit 1 demo_host)))"
  using writer_finalised_once [OF demo_host_fresh, of log_backend 1 "''ab''" "snd (writer_commit 1 demo_host)" "[WriteChunk 1 ''c'']"]
  by (simp add: demo_host_def)

text \<open>C19: a session through the host is the session with the backend. After a successful
  \<^verbatim>\<open>begin_write\<close>, any sequence of writes has the result the backend's own writer gives for the
  same chunks in the same order, stopping at the same error, and committing then is committing that
  writer: the object handed back is the backend's, and so is the state of the store.\<close>

theorem writer_session_equiv:
  assumes "begin_write namespace key content_type h = (Inr i, h1)"
    and "host_writes i chunks h1 = (written, h2)" and "writer_commit i h2 = (committed, h3)"
  shows "\<exists>ns k backend w st1 res w' st2. paddock_granted h ns True \<and> hs_backend h = Some backend
    \<and> bk_begin backend ns k content_type (hs_store h) = (Inr w, st1)
    \<and> backend_writes backend chunks w st1 = (res, w', st2)
    \<and> written = map_sum paddock_error id res
    \<and> committed = map_sum paddock_error to_paddock_object (fst (wr_commit backend w' st2))
    \<and> hs_store h3 = snd (wr_commit backend w' st2)"
proof -
  obtain ns k backend w where opened: "paddock_granted h ns True" "hs_backend h = Some backend"
    "bk_begin backend ns k content_type (hs_store h) = (Inr w, hs_store h1)"
    "hs_backend h1 = Some backend" "map_of (hs_table h1) i = Some (Some w)"
    using begin_write_opens [OF assms(1)] by blast
  obtain res w' st2 where session: "backend_writes backend chunks w (hs_store h1) = (res, w', st2)" by (metis surj_pair)
  have "written = map_sum paddock_error id res" "hs_backend h2 = Some backend"
    "map_of (hs_table h2) i = Some (Some w')" "hs_store h2 = st2"
    using host_writes_backend [OF opened(4,5) session] assms(2) by auto
  then show ?thesis
    using opened session assms(3)
    by (intro exI [of _ ns] exI [of _ k] exI [of _ backend] exI [of _ w] exI [of _ "hs_store h1"] exI [of _ res]
        exI [of _ w'] exI [of _ st2]) (auto simp: writer_commit_def backend_result_def)
qed

theorem writer_session_equiv_witness:
  "\<exists>i h1 h2 h3 committed. begin_write ''n'' ''k'' None demo_host = (Inr i, h1)
    \<and> host_writes i [''x'', ''y''] h1 = (Inr (), h2) \<and> writer_commit i h2 = (committed, h3) \<and> hs_store h3 = [''xy'']"
proof -
  obtain i h1 where b: "begin_write ''n'' ''k'' None demo_host = (Inr i, h1)"
    by (auto simp: begin_write_def demo_host_def paddock_granted_def push_writer_def log_backend_def Let_def)
  obtain written h2 where w: "host_writes i [''x'', ''y''] h1 = (written, h2)" by (metis surj_pair)
  obtain committed h3 where c: "writer_commit i h2 = (committed, h3)" by (metis surj_pair)
  from writer_session_equiv [OF b w c] have "written = Inr () \<and> hs_store h3 = [''xy'']"
    by (auto simp: demo_host_def log_backend_def)
  then show ?thesis using b w c by blast
qed

end
