(* ===== verification/Rt_Service.thy ===== *)
theory Rt_Service
  imports Pit_Strings
begin

section \<open>Calls from a guest to another service\<close>

text \<open>
  \<^verbatim>\<open>crates/pit-runtime/src/lib.rs\<close>, lines 1914 to 2078: the two ways a guest reaches another
  service, an outgoing WASI HTTP request (\<^verbatim>\<open>send_request\<close>) and the PitFast interface
  (\<^verbatim>\<open>call\<close>). Both turn the request into a \<^verbatim>\<open>ServiceInvocationRequest\<close> that carries the
  identity of the calling execution, hand it to the invoker on a thread of its own, and turn the
  response back. The invoker belongs to the caller of the runtime; the parsers and displays of the
  \<^verbatim>\<open>http\<close> crate and of \<^verbatim>\<open>PitUri\<close> are parameters.
\<close>

subsection \<open>Header maps\<close>

text \<open>
  A \<^verbatim>\<open>HeaderMap\<close> holds for each name the values appended to it, in order; the list is in the
  order in which the map is iterated. \<^verbatim>\<open>iter\<close> gives every value with its name,
  \<^verbatim>\<open>into_iter\<close> gives the name only with the first value of each name, \<^verbatim>\<open>None\<close> with the
  others.
\<close>

type_synonym HeaderMap = "(string \<times> string list) list"

fun header_append :: "string \<Rightarrow> string \<Rightarrow> HeaderMap \<Rightarrow> HeaderMap" where
  "header_append name v [] = [(name, [v])]"
| "header_append name v ((n, vs) # hm) =
     (if n = name then (n, vs @ [v]) # hm else (n, vs) # header_append name v hm)"

definition header_iter :: "HeaderMap \<Rightarrow> (string \<times> string) list" where
  "header_iter hm = concat (map (\<lambda>(n, vs). map (Pair n) vs) hm)"

definition named_first :: "string \<Rightarrow> string list \<Rightarrow> (string option \<times> string) list" where
  "named_first n vs = (case vs of [] \<Rightarrow> [] | v # rest \<Rightarrow> (Some n, v) # map (Pair None) rest)"

definition header_into_iter :: "HeaderMap \<Rightarrow> (string option \<times> string) list" where
  "header_into_iter hm = concat (map (\<lambda>(n, vs). named_first n vs) hm)"

definition header_collect :: "(string \<times> string) list \<Rightarrow> HeaderMap" where
  "header_collect kvs = fold (\<lambda>(n, v). header_append n v) kvs []"

definition header_values :: "string \<Rightarrow> HeaderMap \<Rightarrow> string list" where
  "header_values name hm = (case map_of hm name of Some vs \<Rightarrow> vs | None \<Rightarrow> [])"

text \<open>What the code uses of other crates; an error is its display.\<close>

record PitUri =
  uri_service :: string
  uri_path_and_query :: string

record http_lib =
  parse_pit_uri :: "string \<Rightarrow> string + PitUri"
  parse_method :: "string \<Rightarrow> string + string"
  parse_header_name :: "string \<Rightarrow> string + string"
  parse_header_value :: "string \<Rightarrow> string + string"
  header_value_to_str :: "string \<Rightarrow> string option"
  parse_status :: "nat \<Rightarrow> string + nat"

subsection \<open>Invocations\<close>

text \<open>The part of \<^verbatim>\<open>HttpHostState\<close> that identifies the calling execution.\<close>

record calling =
  parent_execution_id :: "string option"
  invocation_depth :: u16
  source_garage_id :: "string option"
  visited_garages :: "string list"
  application_id :: "string option"
  release_id :: "string option"

record ServiceInvocationRequest =
  inv_target :: PitUri
  inv_method :: string
  inv_headers :: HeaderMap
  inv_body :: string
  inv_parent_execution_id :: "string option"
  inv_depth :: u16
  inv_source_garage_id :: "string option"
  inv_visited_garages :: "string list"
  inv_application_id :: "string option"
  inv_release_id :: "string option"

record ServiceInvocationResponse =
  sr_status :: nat
  sr_headers :: HeaderMap
  sr_body :: string
  sr_child_execution_id :: "string option"

text \<open>What the thread that runs the invoker ends with.\<close>

datatype invoked = InvokerPanicked | InvokerErr string | InvokerOk ServiceInvocationResponse

type_synonym ServiceInvoker = "ServiceInvocationRequest \<Rightarrow> invoked"

definition saturating_add :: "u16 \<Rightarrow> u16 \<Rightarrow> u16" where
  "saturating_add a b = (if unat a + unat b < 2 ^ 16 then a + b else - 1)"

definition service_request ::
  "calling \<Rightarrow> PitUri \<Rightarrow> string \<Rightarrow> HeaderMap \<Rightarrow> string \<Rightarrow> ServiceInvocationRequest" where
  "service_request c target meth headers bytes =
     \<lparr>inv_target = target, inv_method = meth, inv_headers = headers, inv_body = bytes,
      inv_parent_execution_id = parent_execution_id c,
      inv_depth = saturating_add (invocation_depth c) 1,
      inv_source_garage_id = source_garage_id c, inv_visited_garages = visited_garages c,
      inv_application_id = application_id c, inv_release_id = release_id c\<rparr>"

subsection \<open>The PitFast interface\<close>

datatype ServiceError = InvalidUri string | ServiceUnavailable string

record service_call_request =
  scr_uri :: string
  scr_method :: string
  scr_headers :: "(string \<times> string) list"
  scr_body :: string

record service_call_response =
  scp_status :: nat
  scp_headers :: "(string \<times> string) list"
  scp_body :: string

text \<open>The loop over the headers of the request; it stops at the first name or value that is not valid.\<close>

fun append_headers :: "http_lib \<Rightarrow> (string \<times> string) list \<Rightarrow> HeaderMap \<Rightarrow> string + HeaderMap" where
  "append_headers lib [] hm = Inr hm"
| "append_headers lib ((name, v) # kvs) hm =
     (case parse_header_name lib name of Inl e \<Rightarrow> Inl (''invalid header: '' @ e) | Inr n \<Rightarrow>
     (case parse_header_value lib v of Inl e \<Rightarrow> Inl (''invalid header: '' @ e) | Inr w \<Rightarrow>
        append_headers lib kvs (header_append n w hm)))"

definition shown_headers :: "http_lib \<Rightarrow> HeaderMap \<Rightarrow> (string \<times> string) list" where
  "shown_headers lib hm =
     map (\<lambda>(n, v). (n, case header_value_to_str lib v of Some s \<Rightarrow> s | None \<Rightarrow> [])) (header_iter hm)"

definition service_call ::
  "http_lib \<Rightarrow> calling \<Rightarrow> ServiceInvoker option \<Rightarrow> service_call_request \<Rightarrow> ServiceError + service_call_response" where
  "service_call lib c invoker req =
     (case parse_pit_uri lib (scr_uri req) of Inl e \<Rightarrow> Inl (InvalidUri e) | Inr target \<Rightarrow>
     (case invoker of None \<Rightarrow> Inl (ServiceUnavailable ''service invocation is not enabled'') | Some invoke \<Rightarrow>
     (case parse_method lib (scr_method req) of Inl e \<Rightarrow> Inl (ServiceUnavailable (''invalid method: '' @ e)) | Inr meth \<Rightarrow>
     (case append_headers lib (scr_headers req) [] of Inl e \<Rightarrow> Inl (ServiceUnavailable e) | Inr headers \<Rightarrow>
     (case invoke (service_request c target meth headers (scr_body req)) of
        InvokerPanicked \<Rightarrow> Inl (ServiceUnavailable ''service invocation thread panicked'')
      | InvokerErr e \<Rightarrow> Inl (ServiceUnavailable e)
      | InvokerOk r \<Rightarrow>
          Inr \<lparr>scp_status = sr_status r, scp_headers = shown_headers lib (sr_headers r), scp_body = sr_body r\<rparr>)))))"

subsection \<open>Outgoing WASI HTTP requests\<close>

datatype ErrorCode = HttpRequestUriInvalid | HttpRequestDenied

text \<open>
  The frames of a body as they arrive, each its data (or \<open>None\<close> for trailers) or an error; the bytes of the
  data are collected in order, up to the first error.
\<close>

fun collect_frames :: "(string + string option) list \<Rightarrow> string + string" where
  "collect_frames [] = Inr []"
| "collect_frames (Inl e # frames) = Inl e"
| "collect_frames (Inr data # frames) =
     map_sum id ((@) (case data of None \<Rightarrow> [] | Some bytes \<Rightarrow> bytes)) (collect_frames frames)"

definition collect_http_body :: "(string + string option) list \<Rightarrow> string + string" where
  "collect_http_body frames =
     (case collect_frames frames of
        Inl e \<Rightarrow> Inl (''HTTP request body collection failed: '' @ e)
      | Inr bytes \<Rightarrow> Inr bytes)"

text \<open>A request of the guest with the frames of its body.\<close>

record outgoing_request =
  out_authority :: "string option"
  out_path_and_query :: "string option"
  out_method :: string
  out_headers :: HeaderMap
  out_body :: "(string + string option) list"

record incoming_response =
  in_status :: nat
  in_headers :: HeaderMap
  in_body :: string

fun all_to_str :: "http_lib \<Rightarrow> (string \<times> string) list \<Rightarrow> (string \<times> string) list option" where
  "all_to_str lib [] = Some []"
| "all_to_str lib ((n, v) # kvs) =
     (case (header_value_to_str lib v, all_to_str lib kvs) of
        (Some s, Some rest) \<Rightarrow> Some ((n, s) # rest)
      | _ \<Rightarrow> None)"

text \<open>The \<^verbatim>\<open>filter_map\<close> that parses names and values again and drops what does not parse.\<close>

fun valid_headers :: "http_lib \<Rightarrow> (string \<times> string) list \<Rightarrow> (string \<times> string) list" where
  "valid_headers lib [] = []"
| "valid_headers lib ((name, v) # kvs) =
     (case (parse_header_name lib name, parse_header_value lib v) of
        (Inr n, Inr w) \<Rightarrow> (n, w) # valid_headers lib kvs
      | _ \<Rightarrow> valid_headers lib kvs)"

text \<open>The response builder: first the length of the body, then what \<^verbatim>\<open>into_iter\<close> gives a name with.\<close>

fun append_named :: "(string option \<times> string) list \<Rightarrow> HeaderMap \<Rightarrow> HeaderMap" where
  "append_named [] hm = hm"
| "append_named ((Some n, v) # kvs) hm = append_named kvs (header_append n v hm)"
| "append_named ((None, v) # kvs) hm = append_named kvs hm"

definition build_response :: "ServiceInvocationResponse \<Rightarrow> incoming_response" where
  "build_response r =
     \<lparr>in_status = sr_status r,
      in_headers = append_named (header_into_iter (sr_headers r))
        (header_append ''content-length'' (dec (length (sr_body r))) []),
      in_body = sr_body r\<rparr>"

definition send_request ::
  "http_lib \<Rightarrow> calling \<Rightarrow> ServiceInvoker option \<Rightarrow> outgoing_request \<Rightarrow> ErrorCode + incoming_response" where
  "send_request lib c invoker req =
     (case out_authority req of None \<Rightarrow> Inl HttpRequestUriInvalid | Some authority \<Rightarrow>
     (case parse_pit_uri lib (''pit://'' @ authority @ (case out_path_and_query req of Some p \<Rightarrow> p | None \<Rightarrow> ''/'')) of
        Inl _ \<Rightarrow> Inl HttpRequestDenied | Inr target \<Rightarrow>
     (case invoker of None \<Rightarrow> Inl HttpRequestDenied | Some invoke \<Rightarrow>
     (case all_to_str lib (header_iter (out_headers req)) of None \<Rightarrow> Inl HttpRequestDenied | Some headers \<Rightarrow>
     (case collect_http_body (out_body req) of Inl _ \<Rightarrow> Inl HttpRequestDenied | Inr bytes \<Rightarrow>
     (case invoke (service_request c target (out_method req) (header_collect (valid_headers lib headers)) bytes) of
        InvokerOk r \<Rightarrow> Inr (build_response r)
      | _ \<Rightarrow> Inl HttpRequestDenied))))))"

end
