(* ===== verification/Rt_Service_Claims.thy ===== *)
theory Rt_Service_Claims
  imports Rt_Service
begin

section \<open>What calls to another service promise\<close>

text \<open>
  When a call succeeds and what the invoker is told, what becomes of the headers of a response on the
  two paths, and the depth of nested calls.
\<close>

subsection \<open>Header maps\<close>

lemma header_append_names: "set (map fst (header_append n v hm)) = insert n (set (map fst hm))"
  by (induction n v hm rule: header_append.induct) auto

lemma header_append_values:
  "header_values m (header_append n v hm) = header_values m hm @ (if m = n then [v] else [])"
  by (induction n v hm rule: header_append.induct) (auto simp: header_values_def)

definition header_wf :: "HeaderMap \<Rightarrow> bool" where
  "header_wf hm \<longleftrightarrow> distinct (map fst hm)"

lemma header_append_wf: "header_wf hm \<Longrightarrow> header_wf (header_append n v hm)"
proof (induction n v hm rule: header_append.induct)
  case (2 name v n vs hm)
  then show ?case using header_append_names [of name v hm] by (auto simp: header_wf_def)
qed (simp add: header_wf_def)

lemma header_collect_wf: "header_wf (header_collect kvs)"
proof -
  have "header_wf hm \<Longrightarrow> header_wf (fold (\<lambda>(n, v). header_append n v) kvs hm)" for hm
    by (induction kvs arbitrary: hm) (auto simp: header_append_wf)
  then show ?thesis by (simp add: header_collect_def header_wf_def)
qed

abbreviation entries_of :: "'k \<Rightarrow> ('k \<times> 'v) list \<Rightarrow> 'v list" where
  "entries_of n kvs \<equiv> map snd (filter (\<lambda>kv. fst kv = n) kvs)"

lemma header_collect_values: "header_values n (header_collect kvs) = entries_of n kvs"
proof -
  have "header_values n (fold (\<lambda>(n, v). header_append n v) kvs hm) = header_values n hm @ entries_of n kvs" for hm
    by (induction kvs arbitrary: hm) (auto simp: header_append_values)
  then show ?thesis by (simp add: header_collect_def header_values_def)
qed

lemma append_named_values:
  "header_values n (append_named kvs hm) = header_values n hm @ entries_of (Some n) kvs"
  by (induction kvs hm rule: append_named.induct) (auto simp: header_append_values)

lemma entries_pair: "entries_of m (map (Pair n) vs) = (if m = n then vs else [])"
  by (induction vs) auto

lemma entries_none: "entries_of (Some m) (map (Pair None) vs) = []"
  by (induction vs) auto

lemma entries_named_first: "entries_of (Some m) (named_first n vs) = (if m = n then take 1 vs else [])"
  by (cases vs) (auto simp: named_first_def entries_none)

lemma header_values_absent: "n \<notin> set (map fst hm) \<Longrightarrow> header_values n hm = []"
  by (auto simp: header_values_def map_of_eq_None_iff split: option.split) (metis map_of_SomeD fst_conv image_eqI)

lemma header_iter_values: "header_wf hm \<Longrightarrow> entries_of n (header_iter hm) = header_values n hm"
proof (induction hm)
  case (Cons e hm)
  then have "n = fst e \<Longrightarrow> header_values n hm = []" by (auto simp: header_wf_def header_values_absent)
  then show ?case using Cons by (cases e) (auto simp: header_iter_def header_wf_def header_values_def entries_pair)
qed (simp add: header_iter_def header_values_def)

lemma header_into_iter_values:
  "header_wf hm \<Longrightarrow> entries_of (Some n) (header_into_iter hm) = take 1 (header_values n hm)"
proof (induction hm)
  case (Cons e hm)
  then have "n = fst e \<Longrightarrow> header_values n hm = []" by (auto simp: header_wf_def header_values_absent)
  then show ?case
    using Cons by (cases e) (auto simp: header_into_iter_def header_wf_def header_values_def entries_named_first)
qed (simp add: header_into_iter_def header_values_def)

subsection \<open>Requests\<close>

definition parsed_pair :: "http_lib \<Rightarrow> string \<times> string \<Rightarrow> string \<times> string \<Rightarrow> bool" where
  "parsed_pair lib kv nw \<longleftrightarrow>
     parse_header_name lib (fst kv) = Inr (fst nw) \<and> parse_header_value lib (snd kv) = Inr (snd nw)"

lemma append_headers_fold:
  "append_headers lib kvs hm = Inr res \<longleftrightarrow>
     (\<exists>nws. list_all2 (parsed_pair lib) kvs nws \<and> res = fold (\<lambda>(n, v). header_append n v) nws hm)"
proof (induction lib kvs hm rule: append_headers.induct)
  case (2 lib name v kvs hm)
  show ?case
  proof (cases "\<exists>n w. parse_header_name lib name = Inr n \<and> parse_header_value lib v = Inr w")
    case True
    then obtain n w where parsed: "parse_header_name lib name = Inr n" "parse_header_value lib v = Inr w" by blast
    then have "append_headers lib ((name, v) # kvs) hm = append_headers lib kvs (header_append n w hm)" by simp
    then show ?thesis using 2 [OF parsed] parsed by (auto simp: list_all2_Cons1 parsed_pair_def)
  next
    case False
    then show ?thesis by (auto simp: list_all2_Cons1 parsed_pair_def split: sum.split)
  qed
qed auto

lemma append_headers_collect:
  "append_headers lib kvs [] = Inr res \<longleftrightarrow>
     (\<exists>nws. list_all2 (parsed_pair lib) kvs nws \<and> res = header_collect nws)"
  by (simp add: append_headers_fold header_collect_def)

lemma saturating_add_one: "unat (saturating_add d 1) = min (unat d + 1) 65535"
proof (cases "unat d + 1 < 2 ^ 16")
  case True
  then have "unat (d + 1) = unat d + 1" by (simp add: unat_word_ariths)
  then show ?thesis using True by (simp add: saturating_add_def)
next
  case False
  moreover have "unat d < 2 ^ 16" using unsigned_less [of d] by simp
  ultimately show ?thesis by (simp add: saturating_add_def unsigned_minus_1_eq_mask mask_eq_exp_minus_1)
qed

text \<open>An invocation on behalf of an execution: everything but the request is the execution's own.\<close>

definition on_behalf :: "calling \<Rightarrow> ServiceInvocationRequest \<Rightarrow> bool" where
  "on_behalf c sent \<longleftrightarrow>
     inv_parent_execution_id sent = parent_execution_id c
     \<and> unat (inv_depth sent) = min (unat (invocation_depth c) + 1) 65535
     \<and> inv_source_garage_id sent = source_garage_id c \<and> inv_visited_garages sent = visited_garages c
     \<and> inv_application_id sent = application_id c \<and> inv_release_id sent = release_id c"

lemma service_request_on_behalf: "on_behalf c (service_request c target meth headers bytes)"
  by (simp add: on_behalf_def service_request_def saturating_add_one)

lemma service_request_fields:
  "on_behalf c sent \<and> inv_target sent = target \<and> inv_method sent = meth \<and> inv_headers sent = headers \<and> inv_body sent = bytes
    \<longleftrightarrow> sent = service_request c target meth headers bytes"
  by (cases sent) (auto simp: on_behalf_def service_request_def word_unat_eq_iff saturating_add_one)

text \<open>When a service call succeeds. It returns a response exactly when the URI, the method and every
  header parse, an invoker is there, and the invoker, given the request on behalf of the calling execution
  (its identifier, application, release and path of garages, one level deeper, the depth stopping at 65535)
  with the parsed headers in their order, answers; the response is the invoker's, with every value of
  every header.\<close>

theorem service_call_exact:
  "service_call lib c invoker req = Inr resp \<longleftrightarrow>
     (\<exists>invoke sent nws r. invoker = Some invoke \<and> invoke sent = InvokerOk r \<and> on_behalf c sent
        \<and> parse_pit_uri lib (scr_uri req) = Inr (inv_target sent)
        \<and> parse_method lib (scr_method req) = Inr (inv_method sent)
        \<and> list_all2 (parsed_pair lib) (scr_headers req) nws \<and> inv_headers sent = header_collect nws
        \<and> inv_body sent = scr_body req
        \<and> resp = \<lparr>scp_status = sr_status r, scp_headers = shown_headers lib (sr_headers r), scp_body = sr_body r\<rparr>)"
  (is "?call \<longleftrightarrow> ?spec")
proof
  assume ?call
  then show ?spec
    unfolding service_call_def
    by (auto split: sum.splits option.splits invoked.splits simp: append_headers_collect)
      (use service_request_on_behalf in \<open>fastforce simp: service_request_def\<close>)
next
  assume ?spec
  then obtain invoke sent nws r where s: "invoker = Some invoke" "invoke sent = InvokerOk r" "on_behalf c sent"
    "parse_pit_uri lib (scr_uri req) = Inr (inv_target sent)" "parse_method lib (scr_method req) = Inr (inv_method sent)"
    "list_all2 (parsed_pair lib) (scr_headers req) nws" "inv_headers sent = header_collect nws" "inv_body sent = scr_body req"
    "resp = \<lparr>scp_status = sr_status r, scp_headers = shown_headers lib (sr_headers r), scp_body = sr_body r\<rparr>" by blast
  then have "sent = service_request c (inv_target sent) (inv_method sent) (header_collect nws) (scr_body req)"
    using service_request_fields by metis
  moreover have "append_headers lib (scr_headers req) [] = Inr (header_collect nws)"
    using s(6) append_headers_collect by blast
  ultimately show ?call using s by (simp add: service_call_def)
qed

text \<open>C34: the headers of an outgoing request's response. When a WASI HTTP request of the guest succeeds,
  status and body are those of the invoker's response to an invocation on behalf of the execution; but
  of the headers the guest gets only the first value of each name, behind a content-length
  computed from the body, while the same response seen through the PitFast interface has all of them.\<close>

theorem outgoing_response_exact:
  assumes "send_request lib c (Some invoke) req = Inr resp"
  shows "\<exists>sent r. invoke sent = InvokerOk r \<and> on_behalf c sent \<and> inv_method sent = out_method req
    \<and> collect_http_body (out_body req) = Inr (inv_body sent) \<and> in_status resp = sr_status r \<and> in_body resp = sr_body r
    \<and> (header_wf (sr_headers r) \<longrightarrow>
         (\<forall>n. header_values n (in_headers resp)
              = (if n = ''content-length'' then [dec (length (sr_body r))] else []) @ take 1 (header_values n (sr_headers r))
            \<and> entries_of n (shown_headers lib (sr_headers r))
              = map (\<lambda>v. case header_value_to_str lib v of Some s \<Rightarrow> s | None \<Rightarrow> []) (header_values n (sr_headers r))))"
proof -
  obtain target headers bytes r where w: "collect_http_body (out_body req) = Inr bytes"
    "invoke (service_request c target (out_method req) headers bytes) = InvokerOk r" "resp = build_response r"
    using assms unfolding send_request_def by (auto split: sum.splits option.splits invoked.splits)
  have shown: "entries_of n (shown_headers lib hm)
    = map (\<lambda>v. case header_value_to_str lib v of Some s \<Rightarrow> s | None \<Rightarrow> []) (entries_of n (header_iter hm))" for n hm
    by (simp add: shown_headers_def filter_map comp_def case_prod_beta)
  have built: "header_wf hm \<Longrightarrow> header_values n (append_named (header_into_iter hm) (header_append m v []))
    = (if n = m then [v] else []) @ take 1 (header_values n hm)" for n m v hm
    by (simp only: append_named_values header_append_values header_into_iter_values) (simp add: header_values_def)
  show ?thesis
    using w service_request_on_behalf [of c target "out_method req" headers bytes] built
    by (intro exI [of _ "service_request c target (out_method req) headers bytes"] exI [of _ r])
      (auto simp: service_request_def build_response_def shown header_iter_values)
qed

definition plain_lib :: http_lib where
  "plain_lib =
     \<lparr>parse_pit_uri = (\<lambda>s. Inr \<lparr>uri_service = drop 6 s, uri_path_and_query = ''/''\<rparr>), parse_method = Inr,
      parse_header_name = Inr, parse_header_value = Inr, header_value_to_str = Some, parse_status = Inr\<rparr>"

definition cookie_reply :: "ServiceInvocationRequest \<Rightarrow> invoked" where
  "cookie_reply sent = InvokerOk \<lparr>sr_status = 200, sr_headers = [(''set-cookie'', [''a'', ''b''])], sr_body = ''hi'',
     sr_child_execution_id = None\<rparr>"

definition plain_calling :: calling where
  "plain_calling = \<lparr>parent_execution_id = Some ''e'', invocation_depth = 0, source_garage_id = None, visited_garages = [],
     application_id = None, release_id = None\<rparr>"

theorem outgoing_response_exact_witness:
  "\<exists>resp. send_request plain_lib plain_calling (Some cookie_reply)
      \<lparr>out_authority = Some ''svc'', out_path_and_query = None, out_method = ''GET'', out_headers = [], out_body = []\<rparr>
      = Inr resp
    \<and> header_values ''set-cookie'' (in_headers resp) = [''a'']"
proof -
  let ?req = "\<lparr>out_authority = Some ''svc'', out_path_and_query = None, out_method = ''GET'', out_headers = [], out_body = []\<rparr>"
  obtain resp where resp: "send_request plain_lib plain_calling (Some cookie_reply) ?req = Inr resp"
    by (simp add: send_request_def collect_http_body_def plain_lib_def header_iter_def cookie_reply_def)
  from outgoing_response_exact [OF this] have "header_values ''set-cookie'' (in_headers resp) = [''a'']"
    by (auto simp: cookie_reply_def header_wf_def header_values_def)
  then show ?thesis using resp by blast
qed

end
