(* ===== verification/Pit_Node.thy ===== *)
theory Pit_Node
  imports Rt_Exec Sched_Batch
begin

section \<open>The node: scheduler and runtime composed\<close>

text \<open>
  \<^verbatim>\<open>apps/pit-node/src/lib.rs\<close>: the check of a project's runtime contract, \<^verbatim>\<open>PitNode\<close>,
  which runs batches of one prepared artifact on the lanes of its scheduler, and
  \<^verbatim>\<open>PitHttpDispatcher\<close>, which keeps prepared HTTP artifacts by key and runs requests on the
  shared lane pool.
\<close>

subsection \<open>The runtime contract of a project\<close>

text \<open>
  The specification type belongs to another crate; the check reads the ABI, the artifact format,
  whether the world is \<^verbatim>\<open>wasi:http/proxy\<close>, and the entry point.
\<close>

record RuntimeSpec =
  spec_abi :: string
  spec_format :: ArtifactFormat
  spec_http_world :: bool
  spec_entrypoint :: string

record contract_names = \<comment> \<open>constants and displays of that crate\<close>
  p1_entrypoint :: string
  p2_entrypoint :: string
  http_proxy_world :: string
  format_name :: "ArtifactFormat \<Rightarrow> string"
  abi_supported :: "string \<Rightarrow> bool"

text \<open>What an ABI demands; \<open>None\<close> for a name the \<^verbatim>\<open>match\<close> does not list.\<close>

definition expected_contract :: "contract_names \<Rightarrow> RuntimeSpec \<Rightarrow> (ArtifactFormat \<times> string) option" where
  "expected_contract names spec =
     (if spec_abi spec = ''wasi-preview1'' then Some (CoreModule, p1_entrypoint names)
      else if spec_abi spec = ''wasi-preview2''
      then Some (ComponentFormat, if spec_http_world spec then http_proxy_world names else p2_entrypoint names)
      else None)"

text \<open>\<open>None\<close> is the \<^verbatim>\<open>unreachable!()\<close> arm.\<close>

definition validate_runtime_spec :: "contract_names \<Rightarrow> RuntimeSpec \<Rightarrow> (string + unit) option" where
  "validate_runtime_spec names spec =
     (if \<not> abi_supported names (spec_abi spec)
      then Some (Inl (''unsupported runtime ABI '' @ [CHR 0x27] @ spec_abi spec @ [CHR 0x27]
        @ ''; this PitBox supports wasi-preview1 and wasi-preview2''))
      else (case expected_contract names spec of
              None \<Rightarrow> None
            | Some (format, entrypoint) \<Rightarrow>
                Some (if spec_format spec \<noteq> format
                  then Inl (''runtime ABI '' @ [CHR 0x27] @ spec_abi spec @ [CHR 0x27] @ '' requires the ''
                    @ format_name names format @ '' artifact format'')
                  else if spec_entrypoint spec \<noteq> entrypoint
                  then Inl (''unsupported entrypoint '' @ [CHR 0x27] @ spec_entrypoint spec @ [CHR 0x27]
                    @ ''; expected '' @ entrypoint)
                  else Inr ())))"

subsection \<open>Batches of one artifact\<close>

record PitNode =
  node_prepared :: PreparedArtifact
  node_scheduler :: PitScheduler
  node_source_path :: "string option" \<comment> \<open>\<^verbatim>\<open>ArtifactSource\<close>: a path, or bytes in memory\<close>

text \<open>\<^verbatim>\<open>PitNode::from_artifact\<close>, once the artifact is prepared, which uses no compiled cache.\<close>

definition node_from_artifact :: "string \<Rightarrow> ArtifactFormat \<Rightarrow> string option \<Rightarrow> nat option \<Rightarrow> instant \<Rightarrow> PitNode" where
  "node_from_artifact artifact format path parallelism now =
     \<lparr>node_prepared = prepared_with_world artifact format None False True,
      node_scheduler = local_scheduler parallelism now, node_source_path = path\<rparr>"

definition node_lanes :: "PitNode \<Rightarrow> nat" where
  "node_lanes node = lane_count (node_scheduler node)"

definition node_entrypoint :: "string \<Rightarrow> PitNode \<Rightarrow> string \<Rightarrow> string" where
  "node_entrypoint p2 node p1 = wasi_preview2_entrypoint p2 (node_prepared node) p1"

definition node_measure_instantiation ::
  "(nat option \<Rightarrow> string + duration) \<Rightarrow> (nat option \<Rightarrow> string + duration) \<Rightarrow> PitNode \<Rightarrow> ExecutionRequest
    \<Rightarrow> (string + duration) option" where
  "node_measure_instantiation instance_p1 instance_p2 node r =
     measure_instantiation instance_p1 instance_p2 (node_prepared node) r"

record NodeExecutionResult =
  nx_execution_id :: ExecutionId
  nx_lane_id :: LaneId
  nx_status :: ExecutionStatus
  nx_exit_code :: "int option"
  nx_stdout :: string
  nx_stderr :: string
  nx_started :: nat
  nx_queued_for :: duration
  nx_duration :: duration
  nx_error :: "string option"

record NodeRunReport =
  nr_artifact_path :: string
  nr_execution_lanes :: nat
  nr_requested :: nat
  nr_completed :: nat
  nr_failed :: nat
  nr_timed_out :: nat
  nr_cancelled :: nat
  nr_memory_limit_exceeded :: nat
  nr_total_duration :: duration
  nr_peak_active :: usize
  nr_snapshot :: SchedulerSnapshot
  nr_events :: "ExecutionEvent list"
  nr_executions :: "NodeExecutionResult list"

text \<open>
  The task of one execution: \<^verbatim>\<open>prepared.execute(request, cancellation)\<close>. Its environment in
  Wasmtime and the instant it starts at are given per identifier and lane.
\<close>

type_synonym exec_world = "ExecutionId \<Rightarrow> LaneId \<Rightarrow> instant \<times> unit program \<times> bool program"

definition node_task ::
  "string \<Rightarrow> exec_world \<Rightarrow> PreparedArtifact \<Rightarrow> ExecutionRequest \<Rightarrow> ExecutionId \<Rightarrow> LaneId
    \<Rightarrow> RuntimeExecutionResult outcome" where
  "node_task p2_entry world p r e l =
     (case world e l of (now, g1, g2) \<Rightarrow>
        (case execute p2_entry now g1 g2 p r of
           None \<Rightarrow> TaskPanic
         | Some (Inl err) \<Rightarrow> TaskErr err
         | Some (Inr res) \<Rightarrow> TaskOk res))"

definition node_classify :: "RuntimeExecutionResult \<Rightarrow> string option" where
  "node_classify res =
     (if res_status res \<noteq> Completed
      then Some (case res_error res of Some e \<Rightarrow> e | None \<Rightarrow> status_name (res_status res))
      else None)"

text \<open>
  \<^verbatim>\<open>execute_many_with_cancellation\<close> up to the start of the workers. \<open>gaps\<close>,
  \<open>queued\<close> and \<open>wall\<close> are what the batch meets of other callers and of the clocks.
\<close>

definition execute_many_begin ::
  "string \<Rightarrow> exec_world \<Rightarrow> PitNode \<Rightarrow> ExecutionRequest \<Rightarrow> nat \<Rightarrow> nat list \<Rightarrow> instant list \<Rightarrow> (instant \<Rightarrow> nat)
    \<Rightarrow> instant \<Rightarrow> string + (RuntimeExecutionResult batch_job \<times> RuntimeExecutionResult batch)" where
  "execute_many_begin p2_entry world node r n gaps queued wall now =
     (case validate r of
        Inl e \<Rightarrow> Inl e
      | Inr _ \<Rightarrow>
          if req_artifact r \<noteq> p_id (node_prepared node)
          then Inl (''execution request artifact '' @ [CHR 0x27] @ req_artifact r @ [CHR 0x27]
            @ '' does not match prepared artifact '' @ [CHR 0x27] @ p_id (node_prepared node) @ [CHR 0x27])
          else batch_begin n gaps queued
            (\<lambda>e l out. out = node_task p2_entry world (node_prepared node) r e l)
            node_classify (\<lambda>_. False) wall now (node_scheduler node))"

definition execution_result :: "ExecutionReport \<Rightarrow> RuntimeExecutionResult \<Rightarrow> NodeExecutionResult" where
  "execution_result rep res =
     \<lparr>nx_execution_id = execution_id rep, nx_lane_id = lane_id rep, nx_status = res_status res,
      nx_exit_code = res_exit_code res, nx_stdout = res_stdout res, nx_stderr = res_stderr res,
      nx_started = res_started res, nx_queued_for = queued_for rep, nx_duration = rep_duration rep,
      nx_error = res_error res\<rparr>"

definition failed_result :: "ExecutionReport \<Rightarrow> NodeExecutionResult" where
  "failed_result rep =
     \<lparr>nx_execution_id = execution_id rep, nx_lane_id = lane_id rep, nx_status = RuntimeError,
      nx_exit_code = None, nx_stdout = [], nx_stderr = [], nx_started = started rep,
      nx_queued_for = queued_for rep, nx_duration = rep_duration rep, nx_error = rep_error rep\<rparr>"

definition node_execution :: "RuntimeExecutionResult ExecutionResult \<Rightarrow> NodeExecutionResult" where
  "node_execution scheduled =
     (case result_value scheduled of
        Some runtime \<Rightarrow> execution_result (report scheduled) runtime
      | None \<Rightarrow> failed_result (report scheduled))"

definition counts_failed :: "ExecutionStatus \<Rightarrow> bool" where
  "counts_failed status \<longleftrightarrow> status \<in> {GuestExitNonZero, GuestTrap, MemoryLimitExceeded, RuntimeError}"

definition node_report :: "PitNode \<Rightarrow> nat \<Rightarrow> duration \<Rightarrow> RuntimeExecutionResult SchedulerRun \<Rightarrow> NodeRunReport" where
  "node_report node n elapsed run =
     (let executions = map node_execution (run_results run);
          number = (\<lambda>P. length (filter (\<lambda>x. P (nx_status x)) executions))
      in \<lparr>nr_artifact_path = (case node_source_path node of Some path \<Rightarrow> path | None \<Rightarrow> ''<in-memory-artifact>''),
          nr_execution_lanes = lane_count (node_scheduler node), nr_requested = n,
          nr_completed = number (\<lambda>st. st = Completed), nr_failed = number counts_failed,
          nr_timed_out = number (\<lambda>st. st = TimedOut), nr_cancelled = number (\<lambda>st. st = Cancelled),
          nr_memory_limit_exceeded = number (\<lambda>st. st = MemoryLimitExceeded),
          nr_total_duration = elapsed, nr_peak_active = snap_peak_active (run_snapshot run),
          nr_snapshot = run_snapshot run, nr_events = run_events run, nr_executions = executions\<rparr>)"

text \<open>\<^verbatim>\<open>execute_many_with_cancellation\<close> when the batch is over; \<open>None\<close> is an unwinding panic.\<close>

definition execute_many_end ::
  "PitNode \<Rightarrow> nat \<Rightarrow> duration \<Rightarrow> RuntimeExecutionResult batch \<Rightarrow> (string + NodeRunReport) option" where
  "execute_many_end node n elapsed s = map_option (map_sum id (node_report node n elapsed)) (batch_finish s)"

text \<open>\<^verbatim>\<open>execute_with_cancellation\<close>: the only execution of a batch of one.\<close>

definition execute_one_end ::
  "PitNode \<Rightarrow> duration \<Rightarrow> RuntimeExecutionResult batch \<Rightarrow> (string + NodeExecutionResult) option" where
  "execute_one_end node elapsed s =
     (case execute_many_end node 1 elapsed s of
        None \<Rightarrow> None
      | Some (Inl e) \<Rightarrow> Some (Inl e)
      | Some (Inr rep) \<Rightarrow>
          Some (case nr_executions rep of
                  [] \<Rightarrow> Inl ''single execution returned no result''
                | x # _ \<Rightarrow> Inr x))"

end
