(* ===== verification/Pit_Node_Claims.thy ===== *)
theory Pit_Node_Claims
  imports Pit_Node Sched_Batch_Live Rt_Exec_Claims
begin

section \<open>What a node promises\<close>

text \<open>
  The batch lemmas of the scheduler and the execution lemmas of the runtime put together: a batch of
  a node ends without panicking, its report counts every execution once and agrees with the
  scheduler's snapshot, and every execution reports exactly what its own guest did.
\<close>

subsection \<open>A batch of a node\<close>

text \<open>
  A batch that an accepted call has begun on a node with the given number of lanes, with the sizes
  the machine words need; the artifact was prepared without a compiled cache.
\<close>

definition node_begun ::
  "string \<Rightarrow> exec_world \<Rightarrow> nat \<Rightarrow> PitNode \<Rightarrow> ExecutionRequest \<Rightarrow> nat \<Rightarrow> RuntimeExecutionResult batch_job
    \<Rightarrow> RuntimeExecutionResult batch \<Rightarrow> bool" where
  "node_begun p2_entry world lanes node r n job s \<longleftrightarrow>
     (\<exists>artifact format http_world pre gaps queued wall now.
        node_prepared node = prepared_with_world artifact format http_world False pre
        \<and> execute_many_begin p2_entry world node r n gaps queued wall now = Inr (job, s)
        \<and> length gaps = n \<and> length queued = n \<and> (\<forall>q\<in>set queued. q \<le> now)
        \<and> 0 < lanes \<and> sched_lanes (node_scheduler node) = sched_lanes (scheduler_with_lanes lanes now)
        \<and> n + lanes < 2 ^ 64
        \<and> unat (next_execution_id (node_scheduler node)) + sum_list gaps + n \<le> 2 ^ 64)"

lemma execute_many_begin_Inr:
  assumes "execute_many_begin p2_entry world node r n gaps queued wall now = Inr (job, s)"
  shows "well_formed_request r" "req_artifact r = p_id (node_prepared node)"
    "batch_begin n gaps queued (\<lambda>e l out. out = node_task p2_entry world (node_prepared node) r e l)
      node_classify (\<lambda>_. False) wall now (node_scheduler node) = Inr (job, s)"
  using assms validate_accepts [of r] by (auto simp: execute_many_begin_def split: sum.splits if_splits)

lemma node_begun_batch: "node_begun p2_entry world lanes node r n job s \<Longrightarrow> batch_begun lanes job s"
  unfolding node_begun_def batch_begun_def by (blast dest: execute_many_begin_Inr(3))

lemma batch_begin_job:
  "batch_begin n gaps queued returns classify panics wall now p = Inr (job, s) \<Longrightarrow>
    j_count job = n \<and> j_returns job = returns \<and> j_classify job = classify \<and> j_classify_panics job = panics"
  by (auto simp: batch_begin_def batch_job_of_def Let_def split: if_splits)

lemma node_begun_job:
  assumes "node_begun p2_entry world lanes node r n job s"
  shows "j_count job = n" "j_classify job = node_classify" "j_classify_panics job = (\<lambda>_. False)"
    "j_returns job = (\<lambda>e l out. out = node_task p2_entry world (node_prepared node) r e l)"
  using assms unfolding node_begun_def by (blast dest: execute_many_begin_Inr(3) batch_begin_job)+

text \<open>What one execution of such a node comes to, computed from its guest's events alone.\<close>

definition node_expected ::
  "string \<Rightarrow> exec_world \<Rightarrow> PitNode \<Rightarrow> ExecutionRequest \<Rightarrow> ExecutionId \<Rightarrow> LaneId \<Rightarrow> ExecutionStatus \<times> string \<times> string" where
  "node_expected p2_entry world node r e l =
     (case world e l of (now, g1, g2) \<Rightarrow>
       let h1 = g1 (guest_args r) (req_env r) (req_entrypoint r); h2 = g2 (guest_args r) (req_env r) (req_entrypoint r) in
       if p_component (node_prepared node) then
         (if req_entrypoint r \<noteq> p2_entry then (RuntimeError, [], [])
          else (spec_status p2_verdict now h2 True r,
                concat (map out_of (spec_events now h2 True r)), concat (map err_of (spec_events now h2 True r))))
       else (spec_status p1_verdict now h1 (g_lookup_error h1 = None) r,
             concat (map out_of (spec_events now h1 (g_lookup_error h1 = None) r)),
             concat (map err_of (spec_events now h1 (g_lookup_error h1 = None) r))))"

lemma node_task_expected:
  assumes "node_prepared node = prepared_with_world artifact format http_world False pre"
    and "well_formed_request r" and "req_artifact r = p_id (node_prepared node)"
  shows "(\<exists>res. node_task p2_entry world (node_prepared node) r e l = TaskOk res
      \<and> (res_status res, res_stdout res, res_stderr res) = node_expected p2_entry world node r e l \<and> well_shaped res)
    \<or> (\<exists>msg. node_task p2_entry world (node_prepared node) r e l = TaskErr msg
      \<and> node_expected p2_entry world node r e l = (RuntimeError, [], []))"
proof -
  obtain now g1 g2 where w: "world e l = (now, g1, g2)" by (cases "world e l")
  let ?h1 = "g1 (guest_args r) (req_env r) (req_entrypoint r)"
  let ?h2 = "g2 (guest_args r) (req_env r) (req_entrypoint r)"
  have v: "validate r = Inr ()" using assms(2) by (simp add: validate_accepts)
  show ?thesis
  proof (cases format)
    case CoreModule
    then have "node_task p2_entry world (node_prepared node) r e l = TaskOk (execute_p1 now ?h1 r)"
      using assms v by (simp add: node_task_def w execute_def prepared_with_world_def)
    moreover have "\<not> p_component (node_prepared node)" using CoreModule assms(1) by (simp add: prepared_with_world_def)
    ultimately show ?thesis
      by (simp add: node_expected_def w Let_def p1.status_exact p1.output_exact p1.result_shape)
  next
    case ComponentFormat
    then have p: "p_component (node_prepared node)" "p_p2_linker (node_prepared node)"
      using assms(1) by (simp_all add: prepared_with_world_def)
    then show ?thesis using assms(3) v
      by (cases "req_entrypoint r = p2_entry")
        (simp_all add: node_task_def w execute_def node_expected_def Let_def p2.status_exact p2.output_exact p2.result_shape)
  qed
qed

lemma node_begun_task:
  assumes "node_begun p2_entry world lanes node r n job s"
  shows "(\<exists>res. node_task p2_entry world (node_prepared node) r e l = TaskOk res
      \<and> (res_status res, res_stdout res, res_stderr res) = node_expected p2_entry world node r e l \<and> well_shaped res)
    \<or> (\<exists>msg. node_task p2_entry world (node_prepared node) r e l = TaskErr msg
      \<and> node_expected p2_entry world node r e l = (RuntimeError, [], []))"
  using assms node_task_expected execute_many_begin_Inr(1,2) unfolding node_begun_def by metis

lemma node_begun_calm:
  assumes "node_begun p2_entry world lanes node r n job s"
  shows "job_calm job" and "job_returns job"
proof -
  have "TaskPanic \<noteq> node_task p2_entry world (node_prepared node) r e l" for e l
    using node_begun_task [OF assms, of e l] by auto
  then show "job_calm job" "job_returns job"
    using node_begun_job [OF assms] by (auto simp: job_calm_def job_returns_def)
qed

text \<open>The batch has reached a state, and all workers have left their loops there.\<close>

lemma node_reachable:
  "node_begun p2_entry world lanes node r n job s0 \<Longrightarrow> (batch_step job)\<^sup>*\<^sup>* s0 s \<Longrightarrow> batch_reachable lanes job s"
  unfolding batch_reachable_def using node_begun_batch by blast

subsection \<open>The executions of a report\<close>

lemma node_execution_right:
  assumes begun: "node_begun p2_entry world lanes node r n job s0" and fine: "result_fine job lanes x"
  shows "(nx_status (node_execution x), nx_stdout (node_execution x), nx_stderr (node_execution x))
      = node_expected p2_entry world node r (rid x) (lane_id (report x))
    \<and> (success (report x) \<longleftrightarrow> nx_status (node_execution x) = Completed)
    \<and> (nx_status (node_execution x) = Completed \<longleftrightarrow> nx_error (node_execution x) = None)"
proof -
  let ?out = "node_task p2_entry world (node_prepared node) r (rid x) (lane_id (report x))"
  have out: "(success (report x), rep_error (report x), result_value x) = classified node_classify ?out"
    using fine node_begun_job [OF begun] by (auto simp: result_fine_def)
  from node_begun_task [OF begun, of "rid x" "lane_id (report x)"] show ?thesis
  proof (elim disjE exE conjE)
    fix res assume res: "?out = TaskOk res"
      "(res_status res, res_stdout res, res_stderr res) = node_expected p2_entry world node r (rid x) (lane_id (report x))"
      "well_shaped res"
    then show ?thesis using out
      by (auto simp: node_execution_def execution_result_def node_classify_def well_shaped_def split: if_splits)
  next
    fix msg assume "?out = TaskErr msg"
      "node_expected p2_entry world node r (rid x) (lane_id (report x)) = (RuntimeError, [], [])"
    then show ?thesis using out by (simp add: node_execution_def failed_result_def)
  qed
qed

lemma filter_node_execution:
  "length (filter (P \<circ> node_execution) xs) = cnt (\<lambda>x. P (node_execution x)) xs"
  by (simp add: cnt_def comp_def)

lemma status_cases:
  "cnt (\<lambda>x. f x = Completed) xs + cnt (\<lambda>x. counts_failed (f x)) xs + cnt (\<lambda>x. f x = TimedOut) xs
    + cnt (\<lambda>x. f x = Cancelled) xs = length xs"
proof (induction xs)
  case (Cons x xs)
  then show ?case by (cases "f x") (simp_all add: cnt_def counts_failed_def)
qed (simp add: cnt_def)

lemma node_run_fine:
  assumes "node_begun p2_entry world lanes node r n job s0" and "(batch_step job)\<^sup>*\<^sup>* s0 s"
    and "batch_finish s = Some (Inr run)" and "x \<in> set (run_results run)"
  shows "result_fine job lanes x"
proof -
  have "x \<in> set (bd_results (bt_board s))" using assms(3,4) by (auto simp: batch_finish_def split: if_splits)
  then show ?thesis
    using batch_reachable_inv [OF node_reachable [OF assms(1,2)]] by (simp add: batch_inv_def)
qed

lemma cnt_success:
  assumes "\<And>x. x \<in> set xs \<Longrightarrow> result_fine job lanes x"
    and "node_begun p2_entry world lanes node r n job s0"
  shows "cnt (\<lambda>x. success (report x)) xs = cnt (\<lambda>x. nx_status (node_execution x) = Completed) xs"
  using assms node_execution_right by (intro cnt_cong) blast

lemma cnt_complement: "cnt P xs + cnt (\<lambda>x. \<not> P x) xs = length xs"
  by (simp add: cnt_def sum_length_filter_compl)

lemma node_report_counts:
  assumes "node_begun p2_entry world lanes node r n job s0" and "(batch_step job)\<^sup>*\<^sup>* s0 s"
    and "list_all (\<lambda>w. w_pc w = WExit) (bt_workers s)"
  shows "\<exists>rep. execute_many_end node n elapsed s = Some (Inr rep)
    \<and> nr_requested rep = n \<and> length (nr_executions rep) = n
    \<and> nr_completed rep + nr_failed rep + nr_timed_out rep + nr_cancelled rep = n
    \<and> nr_memory_limit_exceeded rep \<le> nr_failed rep
    \<and> unat (snap_completed (nr_snapshot rep)) = nr_completed rep
    \<and> unat (snap_failed (nr_snapshot rep)) = nr_failed rep + nr_timed_out rep + nr_cancelled rep"
proof -
  obtain run where run: "batch_finish s = Some (Inr run)"
    "map rid (run_results run) = j_ids job"
    "unat (snap_completed (run_snapshot run)) = cnt (\<lambda>r. success (report r)) (run_results run)"
    "unat (snap_failed (run_snapshot run)) = cnt (\<lambda>r. \<not> success (report r)) (run_results run)"
    using batch_complete_run [OF node_reachable [OF assms(1,2)] assms(3)] by blast
  let ?xs = "run_results run" and ?st = "\<lambda>x. nx_status (node_execution x)"
  have len: "length ?xs = n"
    using arg_cong [OF run(2), of length] batch_reachable_inv [OF node_reachable [OF assms(1,2)]]
      node_begun_job(1) [OF assms(1)] by (simp add: batch_inv_def job_ok_def)
  have good: "cnt (\<lambda>x. success (report x)) ?xs = cnt (\<lambda>x. ?st x = Completed) ?xs"
    using cnt_success [OF node_run_fine [OF assms(1,2) run(1)] assms(1)] .
  have memory: "cnt (\<lambda>x. ?st x = MemoryLimitExceeded) ?xs \<le> cnt (\<lambda>x. counts_failed (?st x)) ?xs"
    by (rule cnt_mono) (simp add: counts_failed_def)
  have all: "cnt (\<lambda>x. ?st x = Completed) ?xs + cnt (\<lambda>x. counts_failed (?st x)) ?xs
      + cnt (\<lambda>x. ?st x = TimedOut) ?xs + cnt (\<lambda>x. ?st x = Cancelled) ?xs = n"
    using status_cases [of ?st ?xs] len by simp
  have rest: "cnt (\<lambda>x. success (report x)) ?xs + cnt (\<lambda>x. \<not> success (report x)) ?xs = n"
    using cnt_complement [of "\<lambda>x. success (report x)" ?xs] len by simp
  show ?thesis
    using run(1,3,4) len good memory all rest
    by (simp add: execute_many_end_def node_report_def Let_def filter_map filter_node_execution)
qed

lemma node_executions_right:
  assumes "node_begun p2_entry world lanes node r n job s0" and "(batch_step job)\<^sup>*\<^sup>* s0 s"
    and "list_all (\<lambda>w. w_pc w = WExit) (bt_workers s)"
    and "execute_many_end node n elapsed s = Some (Inr rep)"
  shows "map nx_execution_id (nr_executions rep) = j_ids job
    \<and> (\<forall>x\<in>set (nr_executions rep).
          (nx_status x, nx_stdout x, nx_stderr x)
            = node_expected p2_entry world node r (nx_execution_id x) (nx_lane_id x)
        \<and> (nx_status x = Completed \<longleftrightarrow> nx_error x = None))"
proof -
  obtain run where run: "batch_finish s = Some (Inr run)" "map rid (run_results run) = j_ids job"
    using batch_complete_run [OF node_reachable [OF assms(1,2)] assms(3)] by blast
  have rep: "nr_executions rep = map node_execution (run_results run)"
    using assms(4) run(1) by (auto simp: execute_many_end_def node_report_def Let_def)
  have ids: "nx_execution_id (node_execution x) = rid x \<and> nx_lane_id (node_execution x) = lane_id (report x)" for x
    by (simp add: node_execution_def execution_result_def failed_result_def split: option.split)
  have "map nx_execution_id (nr_executions rep) = j_ids job"
    using run(2) ids by (simp add: rep comp_def)
  moreover have "(nx_status x, nx_stdout x, nx_stderr x)
        = node_expected p2_entry world node r (nx_execution_id x) (nx_lane_id x)
      \<and> (nx_status x = Completed \<longleftrightarrow> nx_error x = None)" if x: "x \<in> set (nr_executions rep)" for x
  proof -
    obtain y where y: "x = node_execution y" "y \<in> set (run_results run)" using x rep by auto
    show ?thesis
      using node_execution_right [OF assms(1) node_run_fine [OF assms(1,2) run(1) y(2)]] ids y(1) by simp
  qed
  ultimately show ?thesis by blast
qed

subsection \<open>A concrete node\<close>

definition quiet_guest :: "unit guest" where
  "quiet_guest = \<lparr>g_trap_text = [], g_inst_events = [], g_inst_final = Inr (), g_lookup_error = None,
     g_call_events = [WriteOut ''hi''], g_call_final = Inr (), g_started = 0, g_elapsed = 1\<rparr>"

definition sample_node :: PitNode where
  "sample_node = node_from_artifact ''a'' CoreModule None (Some 2) 0"

definition sample_request :: ExecutionRequest where
  "sample_request = \<lparr>req_artifact = ''a'', req_program = ''p'', req_entrypoint = ''_start'', req_args = [],
     req_env = [], req_limits = \<lparr>lim_timeout = None, lim_memory_bytes = None\<rparr>\<rparr>"

definition sample_world :: exec_world where
  "sample_world = (\<lambda>_ _. (0, \<lambda>_ _ _. quiet_guest, \<lambda>_ _ _. undefined))"

definition sample_run_in :: "exec_world \<Rightarrow> RuntimeExecutionResult batch_job \<times> RuntimeExecutionResult batch" where
  "sample_run_in world = projr (execute_many_begin ''run'' world sample_node sample_request 3 [0, 0, 0] [0, 0, 0] id 0)"

lemma sample_begun_in:
  "node_begun ''run'' world 2 sample_node sample_request 3 (fst (sample_run_in world)) (snd (sample_run_in world))"
proof -
  have "validate sample_request = Inr ()"
    by (simp add: validate_accepts well_formed_request_def sample_request_def NUL_def byte_of_val_def char_of_def)
  then have "\<exists>job s. execute_many_begin ''run'' world sample_node sample_request 3 [0, 0, 0] [0, 0, 0] id 0 = Inr (job, s)"
    by (simp add: execute_many_begin_def batch_begin_def Let_def sample_node_def node_from_artifact_def
        prepared_with_world_def sample_request_def)
  then obtain job s where start:
    "execute_many_begin ''run'' world sample_node sample_request 3 [0, 0, 0] [0, 0, 0] id 0 = Inr (job, s)" by blast
  then have "sample_run_in world = (job, s)" by (simp add: sample_run_in_def)
  then show ?thesis unfolding node_begun_def using start
    by (intro exI [of _ "''a''"] exI [of _ CoreModule] exI [of _ None] exI [of _ True] exI [of _ "[0, 0, 0]"]
        exI [of _ id] exI [of _ 0])
      (simp add: sample_node_def node_from_artifact_def local_scheduler_def scheduler_with_lanes_def)
qed

lemma sample_ends_in:
  "\<exists>s. (batch_step (fst (sample_run_in world)))\<^sup>*\<^sup>* (snd (sample_run_in world)) s \<and> list_all (\<lambda>w. w_pc w = WExit) (bt_workers s)"
proof -
  obtain s where s: "(batch_step (fst (sample_run_in world)))\<^sup>*\<^sup>* (snd (sample_run_in world)) s" "list_all worker_ended (bt_workers s)"
    using batch_reaches_end [OF node_begun_batch [OF sample_begun_in] node_begun_calm(2) [OF sample_begun_in]] by blast
  then have "\<not> list_ex (\<lambda>w. worker_panicked (w_pc w)) (bt_workers s)"
    using batch_never_panics [OF node_reachable [OF sample_begun_in] node_begun_calm(1) [OF sample_begun_in]] by blast
  then show ?thesis using s worker_all_exit by blast
qed

text \<open>In a world of quiet guests.\<close>

definition sample_run :: "RuntimeExecutionResult batch_job \<times> RuntimeExecutionResult batch" where
  "sample_run = sample_run_in sample_world"

lemma sample_begun: "node_begun ''run'' sample_world 2 sample_node sample_request 3 (fst sample_run) (snd sample_run)"
  unfolding sample_run_def by (rule sample_begun_in)

lemma sample_ends:
  "\<exists>s. (batch_step (fst sample_run))\<^sup>*\<^sup>* (snd sample_run) s \<and> list_all (\<lambda>w. w_pc w = WExit) (bt_workers s)"
  unfolding sample_run_def by (rule sample_ends_in)

subsection \<open>The properties\<close>

text \<open>C10: the report of a node's batch counts every requested execution exactly once: there are as
  many results as requested, completed, failed, timed-out and cancelled add up to that number, and
  memory failures are among the failed; and the node's counts agree with the scheduler's snapshot, whose
  completed is the node's completed and whose failed is everything else.\<close>

theorem node_report_adds_up:
  assumes "node_begun p2_entry world lanes node r n job s0" and "(batch_step job)\<^sup>*\<^sup>* s0 s"
    and "list_all (\<lambda>w. w_pc w = WExit) (bt_workers s)"
  shows "\<exists>rep. execute_many_end node n elapsed s = Some (Inr rep)
    \<and> nr_requested rep = n \<and> length (nr_executions rep) = n
    \<and> nr_completed rep + nr_failed rep + nr_timed_out rep + nr_cancelled rep = n
    \<and> nr_memory_limit_exceeded rep \<le> nr_failed rep
    \<and> unat (snap_completed (nr_snapshot rep)) = nr_completed rep
    \<and> unat (snap_failed (nr_snapshot rep)) = nr_failed rep + nr_timed_out rep + nr_cancelled rep"
  by (rule node_report_counts [OF assms])

theorem node_report_adds_up_witness:
  "\<exists>s rep. execute_many_end sample_node 3 1 s = Some (Inr rep)
    \<and> nr_completed rep + nr_failed rep + nr_timed_out rep + nr_cancelled rep = 3"
proof -
  obtain s where s: "(batch_step (fst sample_run))\<^sup>*\<^sup>* (snd sample_run) s"
    "list_all (\<lambda>w. w_pc w = WExit) (bt_workers s)" using sample_ends by blast
  show ?thesis using node_report_adds_up [OF sample_begun s, of 1] by blast
qed

text \<open>C11: executions are isolated and reported faithfully. Every execution in the report of a batch has
  the status, the standard output and the standard error that its own guest determines, by the
  specification of a single execution, whatever the other executions of the batch do and however the
  workers interleave; it is Completed exactly when it carries no error; and the executions carry the
  allocated identifiers in order.\<close>

theorem node_executions_exact:
  assumes "node_begun p2_entry world lanes node r n job s0" and "(batch_step job)\<^sup>*\<^sup>* s0 s"
    and "list_all (\<lambda>w. w_pc w = WExit) (bt_workers s)"
    and "execute_many_end node n elapsed s = Some (Inr rep)"
  shows "map nx_execution_id (nr_executions rep) = j_ids job
    \<and> (\<forall>x\<in>set (nr_executions rep).
          (nx_status x, nx_stdout x, nx_stderr x)
            = node_expected p2_entry world node r (nx_execution_id x) (nx_lane_id x)
        \<and> (nx_status x = Completed \<longleftrightarrow> nx_error x = None))"
  by (rule node_executions_right [OF assms])

theorem node_executions_exact_witness:
  "\<exists>s rep. execute_many_end sample_node 3 1 s = Some (Inr rep) \<and> nr_executions rep \<noteq> []
    \<and> (\<forall>x\<in>set (nr_executions rep). nx_status x = Completed \<and> nx_stdout x = ''hi'')"
proof -
  obtain s where s: "(batch_step (fst sample_run))\<^sup>*\<^sup>* (snd sample_run) s"
    "list_all (\<lambda>w. w_pc w = WExit) (bt_workers s)" using sample_ends by blast
  obtain run where run: "batch_finish s = Some (Inr run)" "map rid (run_results run) = j_ids (fst sample_run)"
    using batch_complete_run [OF node_reachable [OF sample_begun s(1)] s(2)] by blast
  define rep where "rep = node_report sample_node 3 1 run"
  then have rep: "execute_many_end sample_node 3 1 s = Some (Inr rep)" using run(1) by (simp add: execute_many_end_def)
  have ids: "length (j_ids (fst sample_run)) = 3"
    using batch_reachable_inv [OF node_reachable [OF sample_begun s(1)]] node_begun_job(1) [OF sample_begun]
    by (simp add: batch_inv_def job_ok_def)
  note exact = node_executions_exact [OF sample_begun s rep]
  have "nr_executions rep \<noteq> []" using exact ids by auto
  moreover have "nx_status x = Completed \<and> nx_stdout x = ''hi''" if "x \<in> set (nr_executions rep)" for x
    using exact that
    by (auto simp: node_expected_def sample_world_def sample_node_def node_from_artifact_def prepared_with_world_def
        quiet_guest_def spec_status_def spec_events_def p1_verdict_def Let_def)
  ultimately show ?thesis using rep by blast
qed

text \<open>A batch of a node always comes to its report. No worker of such a batch ever panics, whatever
  the guests do, so the call never unwinds; every run takes at most \<open>20 * n + lanes\<close> steps; and a state
  is always reachable in which the call returns its report.\<close>

theorem node_batch_returns:
  assumes "node_begun p2_entry world lanes node r n job s0"
  shows "((batch_step job)\<^sup>*\<^sup>* s0 s \<longrightarrow> execute_many_end node n elapsed s \<noteq> None)
    \<and> ((batch_step job ^^ k) s0 s \<longrightarrow> k \<le> 20 * n + lanes)
    \<and> (\<exists>t rep. (batch_step job)\<^sup>*\<^sup>* s0 t \<and> execute_many_end node n elapsed t = Some (Inr rep))"
proof (intro conjI impI)
  have calm: "\<not> list_ex (\<lambda>w. worker_panicked (w_pc w)) (bt_workers t)" if "(batch_step job)\<^sup>*\<^sup>* s0 t" for t
    using batch_never_panics [OF node_reachable [OF assms that] node_begun_calm(1) [OF assms]] .
  show "execute_many_end node n elapsed s \<noteq> None" if "(batch_step job)\<^sup>*\<^sup>* s0 s"
    using calm [OF that] by (simp add: execute_many_end_def batch_finish_def)
  note ends = batch_reaches_end [OF node_begun_batch [OF assms] node_begun_calm(2) [OF assms]]
  show "k \<le> 20 * n + lanes" if "(batch_step job ^^ k) s0 s"
    using ends that node_begun_job(1) [OF assms] by simp
  obtain t where t: "(batch_step job)\<^sup>*\<^sup>* s0 t" "list_all worker_ended (bt_workers t)" using ends by blast
  then obtain run where "batch_finish t = Some (Inr run)"
    using batch_done_run [OF worker_all_exit [OF t(2) calm [OF t(1)]]] by blast
  then show "\<exists>t rep. (batch_step job)\<^sup>*\<^sup>* s0 t \<and> execute_many_end node n elapsed t = Some (Inr rep)"
    using t(1) by (auto simp: execute_many_end_def)
qed

theorem node_batch_returns_witness:
  "\<exists>t rep. (batch_step (fst sample_run))\<^sup>*\<^sup>* (snd sample_run) t
    \<and> execute_many_end sample_node 3 1 t = Some (Inr rep)"
  using node_batch_returns [OF sample_begun] by blast

end
