(* ===== verification/Rt_Http.thy ===== *)
theory Rt_Http
  imports Rt_Exec Rt_Service Rt_Paddock Rt_SigV4
begin

section \<open>The host of an HTTP execution\<close>

text \<open>
  \<^verbatim>\<open>crates/pit-runtime/src/lib.rs\<close>, lines 340 to 382 and the set-up of
  \<^verbatim>\<open>execute_http_with_invoker_timed\<close>: the request becomes a WASI context, the state of the host
  functions and a request for the guest's handler, with a clock reading around each stage. The state is
  where the capabilities of a guest come from: this theory gives the parts of it that the service calls
  (\<^verbatim>\<open>Rt_Service\<close>), the Paddock functions (\<^verbatim>\<open>Rt_Paddock\<close>) and the signature check
  (\<^verbatim>\<open>Rt_SigV4\<close>) work on.
\<close>

subsection \<open>Requests\<close>

text \<open>
  The request, and with it the object backend and the gateway credentials of the invocation. A socket
  address is its text.
\<close>

record HttpRequest =
  hq_method :: string
  hq_path_and_query :: string
  hq_headers :: "(string \<times> string) list"
  hq_body :: string
  hq_env :: "(string \<times> string) list"
  hq_allowed_tcp :: "string list"
  hq_source_garage_id :: "string option"
  hq_visited_garages :: "string list"
  hq_application_id :: "string option"
  hq_release_id :: "string option"
  hq_paddock_grants :: "PaddockGrant list"

record ('b, 'w) HttpCall = HttpRequest +
  hq_paddock :: "('b, 'w) paddock_backend option"
  hq_paddock_auth :: "gateway_auth option"

text \<open>
  The request for the guest's handler, built with the \<^verbatim>\<open>http\<close> crate: its parsers are in
  \<open>http_lib\<close>, \<open>parse_uri\<close> is the parser of a request target. The builder keeps the first
  error, and the context hides what it was. (Its bound on the number of headers is left out.)
\<close>

record handler_request =
  hr_method :: string
  hr_uri :: string
  hr_headers :: HeaderMap
  hr_body :: string

definition handler_request_of ::
  "http_lib \<Rightarrow> (string \<Rightarrow> string + string) \<Rightarrow> 'z HttpRequest_scheme \<Rightarrow> string + handler_request" where
  "handler_request_of lib parse_uri rq =
     (case (parse_method lib (hq_method rq), parse_uri (hq_path_and_query rq), append_headers lib (hq_headers rq) []) of
        (Inr m, Inr uri, Inr headers) \<Rightarrow>
          Inr \<lparr>hr_method = m, hr_uri = uri, hr_headers = headers, hr_body = hq_body rq\<rparr>
      | _ \<Rightarrow> Inl ''invalid HTTP request'')"

subsection \<open>The WASI context\<close>

text \<open>The uses a socket address is checked for, from \<^verbatim>\<open>wasmtime_wasi::sockets\<close>.\<close>

datatype SocketAddrUse = TcpBind | TcpConnect | UdpBind | UdpConnect | UdpOutgoingDatagram

record WasiCtx =
  wc_args :: "string list"
  wc_env :: "(string \<times> string) list"
  wc_allow_tcp :: bool
  wc_allow_udp :: bool
  wc_allow_ip_name_lookup :: bool
  wc_socket_addr_check :: "string \<Rightarrow> SocketAddrUse \<Rightarrow> bool"

definition http_wasi_ctx :: "'z HttpRequest_scheme \<Rightarrow> WasiCtx" where
  "http_wasi_ctx rq =
     \<lparr>wc_args = [''pit-http''], wc_env = hq_env rq, wc_allow_tcp = (hq_allowed_tcp rq \<noteq> []),
      wc_allow_udp = False, wc_allow_ip_name_lookup = False,
      wc_socket_addr_check = (\<lambda>address use. use = TcpConnect \<and> address \<in> set (hq_allowed_tcp rq))\<rparr>"

subsection \<open>The host state\<close>

record ('b, 'w) HttpHostState =
  hh_wasi :: WasiCtx
  hh_table :: "(nat \<times> 'w option) list"
  hh_limits :: RuntimeLimiter
  hh_service_invoker :: "ServiceInvoker option"
  hh_parent_execution_id :: "string option"
  hh_invocation_depth :: u16
  hh_source_garage_id :: "string option"
  hh_visited_garages :: "string list"
  hh_application_id :: "string option"
  hh_release_id :: "string option"
  hh_paddock :: "('b, 'w) paddock_backend option"
  hh_paddock_grants :: "PaddockGrant list"
  hh_paddock_auth :: "gateway_auth option"
  hh_request_method :: string
  hh_request_path :: string
  hh_request_headers :: "(string \<times> string) list"
  hh_request_payload_hash :: string

definition http_host_state ::
  "(string \<Rightarrow> string) \<Rightarrow> ('b, 'w, 'z) HttpCall_scheme \<Rightarrow> ExecutionLimits \<Rightarrow> ServiceInvoker option \<Rightarrow> string option
    \<Rightarrow> u16 \<Rightarrow> ('b, 'w) HttpHostState" where
  "http_host_state sha rq limits invoker parent depth =
     \<lparr>hh_wasi = http_wasi_ctx rq, hh_table = [], hh_limits = new_limiter (lim_memory_bytes limits),
      hh_service_invoker = invoker, hh_parent_execution_id = parent, hh_invocation_depth = depth,
      hh_source_garage_id = hq_source_garage_id rq, hh_visited_garages = hq_visited_garages rq,
      hh_application_id = hq_application_id rq, hh_release_id = hq_release_id rq,
      hh_paddock = hq_paddock rq, hh_paddock_grants = hq_paddock_grants rq, hh_paddock_auth = hq_paddock_auth rq,
      hh_request_method = hq_method rq, hh_request_path = hq_path_and_query rq,
      hh_request_headers = hq_headers rq, hh_request_payload_hash = hex_digest (sha (hq_body rq))\<rparr>"

text \<open>The state as the service calls, the signature check and the Paddock functions see it.\<close>

definition state_calling :: "('b, 'w) HttpHostState \<Rightarrow> calling" where
  "state_calling st =
     \<lparr>parent_execution_id = hh_parent_execution_id st, invocation_depth = hh_invocation_depth st,
      source_garage_id = hh_source_garage_id st, visited_garages = hh_visited_garages st,
      application_id = hh_application_id st, release_id = hh_release_id st\<rparr>"

definition state_gateway :: "('b, 'w) HttpHostState \<Rightarrow> gateway_state" where
  "state_gateway st =
     \<lparr>paddock_auth = hh_paddock_auth st, request_method = hh_request_method st, request_path = hh_request_path st,
      request_headers = hh_request_headers st, request_payload_hash = hh_request_payload_hash st\<rparr>"

text \<open>\<^verbatim>\<open>auth::Host::verify\<close>: the signature check on the state of the guest; \<open>None\<close> is a panic.\<close>

definition auth_verify ::
  "(string \<Rightarrow> string) \<Rightarrow> ('m, 'd, 'c) calendar \<Rightarrow> int option \<Rightarrow> ('b, 'w) HttpHostState \<Rightarrow> (string + unit) option" where
  "auth_verify sha cal now st = verify_gateway_signature sha cal now (state_gateway st)"

text \<open>How many chunks of a response body the host takes before the guest has to wait.\<close>

definition outgoing_body_buffer_chunks :: nat where
  "outgoing_body_buffer_chunks = 4096"

definition state_host :: "names \<Rightarrow> resource_table \<Rightarrow> 'b \<Rightarrow> ('b, 'w) HttpHostState \<Rightarrow> ('b, 'w) host" where
  "state_host ns resources store st =
     \<lparr>hs_names = ns, hs_resources = resources, hs_grants = hh_paddock_grants st, hs_backend = hh_paddock st,
      hs_table = hh_table st, hs_store = store\<rparr>"

subsection \<open>Timings\<close>

record HttpExecutionTimings =
  request_setup :: duration
  wasi_setup :: duration
  store_setup :: duration
  instance_setup :: duration
  guest_execution :: duration

definition default_timings :: HttpExecutionTimings where
  "default_timings = \<lparr>request_setup = 0, wasi_setup = 0, store_setup = 0, instance_setup = 0, guest_execution = 0\<rparr>"

text \<open>The readings of the clock, a start and an end for every stage.\<close>

record http_clock =
  at_request_setup :: "instant \<times> instant"
  at_wasi_setup :: "instant \<times> instant"
  at_store_setup :: "instant \<times> instant"
  at_instance_setup :: "instant \<times> instant"
  at_guest :: "instant \<times> instant"

definition elapsed_between :: "instant \<times> instant \<Rightarrow> duration" where
  "elapsed_between ab = (case ab of (a, b) \<Rightarrow> duration_since b a)"

definition timings_of :: "http_clock \<Rightarrow> HttpExecutionTimings" where
  "timings_of c =
     \<lparr>request_setup = elapsed_between (at_request_setup c), wasi_setup = elapsed_between (at_wasi_setup c),
      store_setup = elapsed_between (at_store_setup c), instance_setup = elapsed_between (at_instance_setup c),
      guest_execution = elapsed_between (at_guest c)\<rparr>"

definition execute_http_timed ::
  "instant \<Rightarrow> http_clock \<Rightarrow> http_guest \<Rightarrow> PreparedArtifact \<Rightarrow> ExecutionLimits
    \<Rightarrow> string + (HttpResponse \<times> HttpExecutionTimings)" where
  "execute_http_timed now c h p limits =
     (case execute_http now h p limits of Inl e \<Rightarrow> Inl e | Inr response \<Rightarrow> Inr (response, timings_of c))"

text \<open>\<^verbatim>\<open>execute_http_with_invoker\<close> drops the timings.\<close>

definition execute_http_untimed ::
  "instant \<Rightarrow> http_clock \<Rightarrow> http_guest \<Rightarrow> PreparedArtifact \<Rightarrow> ExecutionLimits \<Rightarrow> string + HttpResponse" where
  "execute_http_untimed now c h p limits = map_sum id fst (execute_http_timed now c h p limits)"

lemma execute_http_untimed [simp]: "execute_http_untimed now c h p limits = execute_http now h p limits"
  by (simp add: execute_http_untimed_def execute_http_timed_def split: sum.split)

text \<open>
  A guest program as its host sees it: given the host state and its request it behaves as some
  \<open>http_guest\<close>, and a request that cannot be built runs no guest at all.
\<close>

type_synonym ('b, 'w) http_program = "('b, 'w) HttpHostState \<Rightarrow> handler_request \<Rightarrow> http_guest"

definition refused_guest :: "string \<Rightarrow> http_guest" where
  "refused_guest e =
     \<lparr>h_request_error = Some e, h_resource_error = None, h_pre_error = None,
      h_guest = \<lparr>g_trap_text = [], g_inst_events = [], g_inst_final = Inr (), g_lookup_error = None,
        g_call_events = [], g_call_final = Inr (), g_started = 0, g_elapsed = 0\<rparr>, h_response = Inl e\<rparr>"

definition guest_of ::
  "http_lib \<Rightarrow> (string \<Rightarrow> string + string) \<Rightarrow> (string \<Rightarrow> string) \<Rightarrow> ('b, 'w) http_program
    \<Rightarrow> ('b, 'w, 'z) HttpCall_scheme \<Rightarrow> ExecutionLimits \<Rightarrow> ServiceInvoker option \<Rightarrow> string option \<Rightarrow> u16 \<Rightarrow> http_guest" where
  "guest_of lib parse_uri sha program rq limits invoker parent depth =
     (case handler_request_of lib parse_uri rq of
        Inl e \<Rightarrow> refused_guest e
      | Inr req \<Rightarrow> (program (http_host_state sha rq limits invoker parent depth) req)\<lparr>h_request_error := None\<rparr>)"

text \<open>A malformed request fails before anything of the guest runs, whatever the guest is.\<close>

lemma malformed_refused:
  assumes "handler_request_of lib parse_uri rq = Inl e" and "p_http_engine p" and "p_http_ticker p"
  shows "execute_http now (guest_of lib parse_uri sha program rq limits invoker parent depth) p limits
    = Inl ''invalid HTTP request''"
  using assms by (simp add: guest_of_def refused_guest_def execute_http_def)

end
