(* ===== verification/Rt_Prepare.thy ===== *)
theory Rt_Prepare
  imports Rt_Artifact
begin

section \<open>Preparing an artifact\<close>

text \<open>
  \<^verbatim>\<open>PitRuntime::prepare_with_world\<close> of \<^verbatim>\<open>crates/pit-runtime/src/lib.rs\<close> (lines 826
  to 1201) with its three callers: read the artifact, find its digest and its format, then build what
  its format needs, from the compiled cache when there is one. Compiling, linking and resolving imports
  are Wasmtime's; each such call answers with an error or goes through, and the code stops at the first
  error, under the context it gives it.
\<close>

subsection \<open>The calls into Wasmtime\<close>

text \<open>The error of each call, if it has one.\<close>

record wasmtime_calls =
  wt_module_from_binary :: "string option"
  wt_add_preview1 :: "string option"
  wt_add_preview2_sync :: "string option"
  wt_component_new :: "string option"
  wt_http_component_new :: "string option"
  wt_add_preview2_async :: "string option"
  wt_add_service :: "string option"
  wt_add_paddock :: "string option"
  wt_add_http :: "string option"
  wt_instantiate_pre :: "string option"
  wt_proxy_pre :: "string option"

text \<open>
  A chain of calls, each with its error and the context the code adds; what is displayed is the context
  when there is one.
\<close>

fun first_error :: "(string option \<times> string option) list \<Rightarrow> string option" where
  "first_error [] = None"
| "first_error ((None, ctx) # calls) = first_error calls"
| "first_error ((Some e, ctx) # calls) = Some (case ctx of Some c \<Rightarrow> c | None \<Rightarrow> e)"

text \<open>The four interfaces of the HTTP linker, in both branches of the code.\<close>

definition http_linker_calls :: "wasmtime_calls \<Rightarrow> (string option \<times> string option) list" where
  "http_linker_calls w =
     [(wt_add_preview2_async w, Some ''failed to link WASI Preview 2 HTTP base''),
      (wt_add_service w, Some ''failed to link PitFast service capability''),
      (wt_add_paddock w, Some ''failed to link generic Paddock capability''),
      (wt_add_http w, Some ''failed to link WASI HTTP'')]"

definition resolve_calls :: "wasmtime_calls \<Rightarrow> (string option \<times> string option) list" where
  "resolve_calls w = [(wt_instantiate_pre w, None), (wt_proxy_pre w, None)]"

definition core_linker :: "wasmtime_calls \<Rightarrow> (string option \<times> string option) list" where [simp]:
  "core_linker w = [(wt_add_preview1 w, Some ''failed to link WASI Preview 1 imports'')]"

text \<open>The branch of a core module.\<close>

definition module_calls :: "wasmtime_calls \<Rightarrow> (string option \<times> string option) list" where
  "module_calls w = (wt_module_from_binary w, Some ''WASM module preparation failed'') # core_linker w"

text \<open>The branch of a component without a cache.\<close>

definition component_calls :: "string option \<Rightarrow> wasmtime_calls \<Rightarrow> (string option \<times> string option) list" where
  "component_calls world w =
     [(wt_add_preview2_sync w, Some ''failed to link WASI Preview 2''),
      (wt_component_new w, Some ''WASM component preparation failed''),
      (wt_http_component_new w, Some ''WASM HTTP component preparation failed'')]
     @ http_linker_calls w @ (if world = Some ''wasi:http/proxy'' then resolve_calls w else [])"

subsection \<open>Preparation\<close>

text \<open>
  What one preparation meets: the artifact's file, the parser and SHA-256, the names of the formats,
  Wasmtime, the runtime's configuration and the fingerprint of its engine, the cache's environment with
  what its two attempts meet, and the durations measured.
\<close>

record preparation =
  prep_files :: "string \<Rightarrow> path_state"
  prep_parse :: "string \<Rightarrow> payload list"
  prep_sha :: "string \<Rightarrow> string"
  prep_format_name :: "ArtifactFormat \<Rightarrow> string"
  prep_wasmtime :: wasmtime_calls
  prep_config :: PitRuntimeConfig
  prep_fingerprint :: string
  prep_env :: cache_env
  prep_io :: cache_io
  prep_rebuild_io :: cache_io
  prep_elapsed :: duration
  prep_stages :: PreparationStages

definition cache_request_of :: "preparation \<Rightarrow> string option \<Rightarrow> string \<Rightarrow> string \<Rightarrow> ArtifactFormat \<Rightarrow> cache_request" where
  "cache_request_of pr world bytes digest format =
     \<lparr>cr_digest = digest, cr_fingerprint = prep_fingerprint pr, cr_source = bytes,
      cr_format = prep_format_name pr format, cr_world = (case world of Some w \<Rightarrow> w | None \<Rightarrow> ''component'')\<rparr>"

text \<open>The component branch with a compiled cache of \<open>max_bytes\<close>; the engine's fingerprint is never timed.\<close>

definition prepare_cached ::
  "preparation \<Rightarrow> string option \<Rightarrow> nat \<Rightarrow> string \<Rightarrow> string \<Rightarrow> string \<Rightarrow> cache_fs
    \<Rightarrow> (string + (PreparedArtifact \<times> PreparationReport)) \<times> cache_fs" where
  "prepare_cached pr world max_bytes artifact bytes digest fs =
     (case prepare_from_cache (rc_compiled_cache_restore (prep_config pr)) (prep_env pr) (prep_io pr)
         (prep_rebuild_io pr) max_bytes (prep_elapsed pr) (cache_request_of pr world bytes digest ComponentFormat) fs of
        (Inl e, fs') \<Rightarrow> (Inl e, fs')
      | (Inr rep, fs') \<Rightarrow>
          (case first_error (http_linker_calls (prep_wasmtime pr)
              @ (if rc_pre_resolved_imports (prep_config pr) then resolve_calls (prep_wasmtime pr) else [])) of
             Some e \<Rightarrow> (Inl e, fs')
           | None \<Rightarrow>
               (Inr (prepared_cached artifact (rc_pre_resolved_imports (prep_config pr)),
                  rep\<lparr>pr_stages := (prep_stages pr)\<lparr>stage_compile_fingerprint := 0\<rparr>\<rparr>), fs')))"

definition prepare_with_world ::
  "preparation \<Rightarrow> string option \<Rightarrow> nat option \<Rightarrow> WasmArtifact \<Rightarrow> cache_fs
    \<Rightarrow> (string + (PreparedArtifact \<times> PreparationReport)) \<times> cache_fs" where
  "prepare_with_world pr world cache artifact fs =
     (case fst (open_artifact (prep_files pr) (prep_parse pr) (prep_sha pr) artifact) of
        Inl e \<Rightarrow> (Inl e, fs)
      | Inr (bytes, digest, format) \<Rightarrow>
          (case (format, cache) of
             (ComponentFormat, Some max_bytes) \<Rightarrow> prepare_cached pr world max_bytes (art_id artifact) bytes digest fs
           | _ \<Rightarrow>
               (case first_error (case format of
                     CoreModule \<Rightarrow> module_calls (prep_wasmtime pr)
                   | ComponentFormat \<Rightarrow> component_calls world (prep_wasmtime pr)) of
                  Some e \<Rightarrow> (Inl e, fs)
                | None \<Rightarrow>
                    (Inr (prepared_with_world (art_id artifact) format world False
                        (rc_pre_resolved_imports (prep_config pr)), default_report), fs))))"

text \<open>The callers: \<^verbatim>\<open>prepare\<close> drops the report, \<^verbatim>\<open>prepare_http\<close> has no cache.\<close>

definition prepare_plain :: "preparation \<Rightarrow> WasmArtifact \<Rightarrow> string + PreparedArtifact" where
  "prepare_plain pr artifact = map_sum id fst (fst (prepare_with_world pr None None artifact []))"

definition prepare_http :: "preparation \<Rightarrow> WasmArtifact \<Rightarrow> string + PreparedArtifact" where
  "prepare_http pr artifact = map_sum id fst (fst (prepare_with_world pr (Some ''wasi:http/proxy'') None artifact []))"

definition prepare_http_cached ::
  "preparation \<Rightarrow> WasmArtifact \<Rightarrow> nat \<Rightarrow> cache_fs
    \<Rightarrow> (string + (PreparedArtifact \<times> PreparationReport)) \<times> cache_fs" where
  "prepare_http_cached pr artifact max_bytes fs =
     prepare_with_world pr (Some ''wasi:http/proxy'') (Some max_bytes) artifact fs"

subsection \<open>Lemmas\<close>

lemma first_error_None_iff: "first_error calls = None \<longleftrightarrow> (\<forall>(e, ctx)\<in>set calls. e = None)"
  by (induction calls rule: first_error.induct) auto

text \<open>Only the compiled cache writes files, and only for a component.\<close>

lemma prepare_without_cache: "snd (prepare_with_world pr world None artifact fs) = fs"
  by (simp add: prepare_with_world_def split: sum.splits prod.splits ArtifactFormat.splits option.splits)

text \<open>
  A success, from the file to the prepared object: the artifact was read and has a format, and the
  object has the parts that its format, the world and the cache call for.
\<close>

lemma prepare_success:
  assumes "prepare_with_world pr world cache artifact fs = (Inr (prepared, rep), fs')"
  obtains bytes digest format
  where "fst (open_artifact (prep_files pr) (prep_parse pr) (prep_sha pr) artifact) = Inr (bytes, digest, format)"
    and "prepared = prepared_with_world (art_id artifact) format world (cache \<noteq> None) (rc_pre_resolved_imports (prep_config pr))"
    and "format = CoreModule \<or> cache = None \<Longrightarrow> rep = default_report \<and> fs' = fs"
  using assms
  by (auto simp: prepare_with_world_def prepare_cached_def prepared_with_world_def
      split: sum.splits prod.splits ArtifactFormat.splits option.splits)

text \<open>Without a cache the object is that of \<^verbatim>\<open>prepared_with_world\<close>, whatever the configuration.\<close>

lemma prepare_plain_success:
  assumes "prepare_plain pr artifact = Inr prepared"
  shows "\<exists>format pre. prepared = prepared_with_world (art_id artifact) format None False pre"
proof -
  obtain rep fs' where "prepare_with_world pr None None artifact [] = (Inr (prepared, rep), fs')"
    using assms by (cases "prepare_with_world pr None None artifact []") (auto simp: prepare_plain_def map_sum_Inr_iff)
  then show ?thesis by (rule prepare_success) auto
qed

end
