(* ===== verification/Rt_Runtime.thy ===== *)
theory Rt_Runtime
  imports Rt_Artifact Transition_System
begin

section \<open>The runtime and its epoch tickers\<close>

text \<open>
  \<^verbatim>\<open>crates/pit-runtime/src/lib.rs\<close>: \<^verbatim>\<open>EpochTicker\<close> (lines 384 to 424), the thread
  that advances the epoch of an engine so that guests can be interrupted, and
  \<^verbatim>\<open>PitRuntime::with_config\<close> (801 to 824), which makes two engines with a ticker each. A ticker
  is shared through \<^verbatim>\<open>Arc\<close>s; when the last one goes, its destructor stores the stop flag, takes
  the thread's handle and joins it. The model interleaves the atomic steps of thread and destructor.
\<close>

subsection \<open>A ticker\<close>

datatype ticker_pc =
    TickLoad \<comment> \<open>about to load the stop flag\<close>
  | TickSleep
  | TickBump \<comment> \<open>about to call \<^verbatim>\<open>increment_epoch\<close>\<close>
  | TickExit

datatype drop_pc =
    Shared \<comment> \<open>not dropped: some \<^verbatim>\<open>Arc\<close> is left\<close>
  | DropStore
  | DropTake
  | DropJoin
  | Dropped

record EpochTicker =
  tk_stop :: bool
  tk_handle :: bool \<comment> \<open>the handle of the thread is still in its mutex\<close>
  tk_refs :: nat
  tk_thread :: ticker_pc
  tk_drop :: drop_pc
  tk_increments :: nat \<comment> \<open>how often the epoch was incremented\<close>

definition start_ticker :: EpochTicker where
  "start_ticker =
     \<lparr>tk_stop = False, tk_handle = True, tk_refs = 1, tk_thread = TickLoad, tk_drop = Shared, tk_increments = 0\<rparr>"

datatype ticker_act = CloneArc | DropArc | DropStep | ThreadStep

fun ticker_thread_step :: "EpochTicker \<Rightarrow> EpochTicker option" where
  "ticker_thread_step t =
     (case tk_thread t of
        TickLoad \<Rightarrow> Some (t\<lparr>tk_thread := if tk_stop t then TickExit else TickSleep\<rparr>)
      | TickSleep \<Rightarrow> Some (t\<lparr>tk_thread := TickBump\<rparr>)
      | TickBump \<Rightarrow> Some (t\<lparr>tk_thread := TickLoad, tk_increments := Suc (tk_increments t)\<rparr>)
      | TickExit \<Rightarrow> None)"

fun ticker_drop_step :: "EpochTicker \<Rightarrow> EpochTicker option" where
  "ticker_drop_step t =
     (case tk_drop t of
        DropStore \<Rightarrow> Some (t\<lparr>tk_drop := DropTake, tk_stop := True\<rparr>)
      | DropTake \<Rightarrow> Some (t\<lparr>tk_drop := if tk_handle t then DropJoin else Dropped, tk_handle := False\<rparr>)
      | DropJoin \<Rightarrow> if tk_thread t = TickExit then Some (t\<lparr>tk_drop := Dropped\<rparr>) else None
      | _ \<Rightarrow> None)"

fun ticker_step :: "ticker_act \<Rightarrow> EpochTicker \<Rightarrow> EpochTicker option" where
  "ticker_step ThreadStep t = ticker_thread_step t"
| "ticker_step DropStep t = ticker_drop_step t"
| "ticker_step CloneArc t = (if 0 < tk_refs t then Some (t\<lparr>tk_refs := Suc (tk_refs t)\<rparr>) else None)"
| "ticker_step DropArc t =
     (case tk_refs t of
        0 \<Rightarrow> None
      | Suc 0 \<Rightarrow> Some (t\<lparr>tk_refs := 0, tk_drop := DropStore\<rparr>)
      | Suc n \<Rightarrow> Some (t\<lparr>tk_refs := n\<rparr>))"

definition ticker_exec :: "EpochTicker \<Rightarrow> EpochTicker \<Rightarrow> bool" where
  "ticker_exec t u \<longleftrightarrow> (\<exists>act. ticker_step act t = Some u)"

fun ticker_run :: "ticker_act list \<Rightarrow> EpochTicker \<Rightarrow> EpochTicker option" where
  "ticker_run [] t = Some t"
| "ticker_run (act # acts) t = Option.bind (ticker_step act t) (ticker_run acts)"

lemma ticker_run_exec: "ticker_run acts t = Some u \<Longrightarrow> ticker_exec\<^sup>*\<^sup>* t u"
proof (induction acts t rule: ticker_run.induct)
  case (2 act acts t)
  then obtain v where v: "ticker_step act t = Some v" "ticker_run acts v = Some u" by (auto simp: bind_eq_Some_conv)
  then have "ticker_exec t v" unfolding ticker_exec_def by blast
  then show ?case using 2 v by (blast intro: converse_rtranclp_into_rtranclp)
qed simp

subsection \<open>Its invariant\<close>

text \<open>
  While an \<^verbatim>\<open>Arc\<close> is left the flag is clear and the thread runs; the flag is set between the
  first and the second step of the destructor, the handle is taken before the join, and the destructor is
  over only once the thread is.
\<close>

definition ticker_inv :: "EpochTicker \<Rightarrow> bool" where
  "ticker_inv t \<longleftrightarrow>
     (tk_drop t = Shared \<longleftrightarrow> 0 < tk_refs t) \<and> (tk_stop t \<longleftrightarrow> tk_drop t \<in> {DropTake, DropJoin, Dropped})
     \<and> (tk_handle t \<longleftrightarrow> tk_drop t \<in> {Shared, DropStore, DropTake})
     \<and> (tk_thread t = TickExit \<longrightarrow> tk_stop t) \<and> (tk_drop t = Dropped \<longrightarrow> tk_thread t = TickExit)"

lemma ticker_inv_thread: "ticker_inv t \<Longrightarrow> ticker_step ThreadStep t = Some u \<Longrightarrow> ticker_inv u"
  by (cases "tk_thread t") (simp_all add: ticker_inv_def, auto)

lemma ticker_inv_drop: "ticker_inv t \<Longrightarrow> ticker_step DropStep t = Some u \<Longrightarrow> ticker_inv u"
  by (cases "tk_drop t") (simp_all add: ticker_inv_def split: if_splits, auto)

lemma ticker_inv_arcs: "ticker_inv t \<Longrightarrow> act = CloneArc \<or> act = DropArc \<Longrightarrow> ticker_step act t = Some u \<Longrightarrow> ticker_inv u"
  by (cases "tk_drop t"; cases "tk_refs t") (auto simp: ticker_inv_def split: nat.splits)

lemma ticker_inv_step: "ticker_inv t \<Longrightarrow> ticker_step act t = Some u \<Longrightarrow> ticker_inv u"
  using ticker_inv_thread ticker_inv_drop ticker_inv_arcs by (cases act) blast+

text \<open>How many steps are left once the flag is set, and how many increments.\<close>

fun thread_left :: "ticker_pc \<Rightarrow> nat" where
  "thread_left TickSleep = 3"
| "thread_left TickBump = 2"
| "thread_left TickLoad = 1"
| "thread_left TickExit = 0"

fun drop_left :: "drop_pc \<Rightarrow> nat" where
  "drop_left DropTake = 2"
| "drop_left DropJoin = 1"
| "drop_left _ = 0"

definition ticker_rank :: "EpochTicker \<Rightarrow> nat" where
  "ticker_rank t = thread_left (tk_thread t) + drop_left (tk_drop t)"

definition ticker_gone :: "EpochTicker \<Rightarrow> bool" where
  "ticker_gone t \<longleftrightarrow> tk_drop t = Dropped \<and> tk_thread t = TickExit"

lemma stopping_step:
  assumes "ticker_inv t" and "tk_stop t" and "ticker_exec t u"
  shows "tk_stop u" and "ticker_rank u < ticker_rank t"
    and "tk_increments u + of_bool (thread_left (tk_thread u) \<ge> 2) \<le> tk_increments t + of_bool (thread_left (tk_thread t) \<ge> 2)"
proof -
  obtain act where act: "ticker_step act t = Some u" using assms(3) by (auto simp: ticker_exec_def)
  have "tk_refs t = 0" using assms(1,2) by (auto simp: ticker_inv_def)
  then have "act = ThreadStep \<or> act = DropStep" using act by (cases act) auto
  then show "tk_stop u" "ticker_rank u < ticker_rank t"
    "tk_increments u + of_bool (thread_left (tk_thread u) \<ge> 2) \<le> tk_increments t + of_bool (thread_left (tk_thread t) \<ge> 2)"
    using act assms(1,2)
    by (auto simp: ticker_rank_def ticker_inv_def split: ticker_pc.splits drop_pc.splits if_splits)
qed

lemma stopping_progress:
  assumes "ticker_inv t" and "tk_stop t" and "\<not> ticker_gone t"
  shows "\<exists>u. ticker_exec t u"
proof (cases "tk_thread t = TickExit")
  case True
  then have "ticker_step DropStep t \<noteq> None" using assms by (auto simp: ticker_inv_def ticker_gone_def)
  then show ?thesis unfolding ticker_exec_def by blast
next
  case False
  then have "ticker_step ThreadStep t \<noteq> None" by (auto split: ticker_pc.splits)
  then show ?thesis unfolding ticker_exec_def by blast
qed

interpretation ticker_sys: invariant_system "\<lambda>t. t = start_ticker" ticker_exec ticker_inv
  by unfold_locales (auto simp: ticker_exec_def intro: ticker_inv_step, simp add: start_ticker_def ticker_inv_def)

interpretation stopping_sys: ranked_system "\<lambda>t. ticker_inv t \<and> tk_stop t" ticker_exec
  "\<lambda>t. ticker_inv t \<and> tk_stop t" ticker_rank ticker_gone
proof unfold_locales
  fix t u
  assume t: "ticker_inv t \<and> tk_stop t"
  show "ticker_inv u \<and> tk_stop u" if "ticker_exec t u"
    using t that ticker_sys.inv_step stopping_step(1) by blast
  show "ticker_rank u < ticker_rank t" if "ticker_exec t u" using t that stopping_step(2) by blast
  show "\<exists>u. ticker_exec t u" if "\<not> ticker_gone t" using t that stopping_progress by blast
qed

text \<open>What a ticker does after its flag is set.\<close>

lemma stopping_increments:
  "(ticker_exec ^^ n) t u \<Longrightarrow> ticker_inv t \<Longrightarrow> tk_stop t \<Longrightarrow>
    tk_increments u + of_bool (thread_left (tk_thread u) \<ge> 2) \<le> tk_increments t + of_bool (thread_left (tk_thread t) \<ge> 2)"
proof (induction n arbitrary: u)
  case (Suc n)
  then obtain v where v: "(ticker_exec ^^ n) t v" "ticker_exec v u" by auto
  then have "ticker_inv v \<and> tk_stop v" using Suc.prems stopping_sys.inv_relpow by blast
  then show ?case using Suc.IH [OF v(1)] Suc.prems stopping_step(3) [of v u] v(2) by linarith
qed simp

subsection \<open>Making a runtime\<close>

record wasmtime_config = engine_config +
  cfg_epoch_interruption :: bool
  cfg_async_support :: bool

text \<open>What Wasmtime and the threads answer, for the plain engine and for the one of HTTP.\<close>

record runtime_world =
  rw_engine_fails :: "wasmtime_config \<Rightarrow> bool"
  rw_spawn_fails :: "bool \<Rightarrow> bool" \<comment> \<open>of the HTTP ticker, or of the plain one\<close>
  rw_fingerprint :: "wasmtime_config \<Rightarrow> string"

record PitRuntime =
  rt_engine :: wasmtime_config
  rt_http_engine :: wasmtime_config
  rt_http_component_fingerprint :: string
  rt_ticker :: EpochTicker
  rt_http_ticker :: EpochTicker
  rt_config :: PitRuntimeConfig

definition base_config :: "bool \<Rightarrow> wasmtime_config" where
  "base_config async =
     \<lparr>ec_memory_init_cow = None, ec_pooling = None, cfg_epoch_interruption = True, cfg_async_support = async\<rparr>"

definition make_engine :: "runtime_world \<Rightarrow> PitRuntimeConfig \<Rightarrow> bool \<Rightarrow> string + wasmtime_config" where
  "make_engine w rc async =
     (case configure_engine rc (base_config async) of
        Inl e \<Rightarrow> Inl e
      | Inr cfg \<Rightarrow>
          if rw_engine_fails w cfg
          then Inl (if async then ''failed to create async HTTP engine'' else ''failed to create Wasmtime engine'')
          else Inr cfg)"

definition make_ticker :: "runtime_world \<Rightarrow> bool \<Rightarrow> string + EpochTicker" where
  "make_ticker w http =
     (if rw_spawn_fails w http then Inl ''failed to start Wasmtime epoch ticker'' else Inr start_ticker)"

text \<open>An early return drops the ticker that is already there; it is the second part of the result.\<close>

definition with_config :: "runtime_world \<Rightarrow> PitRuntimeConfig \<Rightarrow> (string + PitRuntime) \<times> EpochTicker option" where
  "with_config w rc =
     (case make_engine w rc False of Inl e \<Rightarrow> (Inl e, None) | Inr engine \<Rightarrow>
     (case make_ticker w False of Inl e \<Rightarrow> (Inl e, None) | Inr tick \<Rightarrow>
     (case make_engine w rc True of Inl e \<Rightarrow> (Inl e, ticker_step DropArc tick) | Inr http_engine \<Rightarrow>
     (case make_ticker w True of Inl e \<Rightarrow> (Inl e, ticker_step DropArc tick) | Inr http_tick \<Rightarrow>
        (Inr \<lparr>rt_engine = engine, rt_http_engine = http_engine,
              rt_http_component_fingerprint = rw_fingerprint w http_engine, rt_ticker = tick,
              rt_http_ticker = http_tick, rt_config = rc\<rparr>, None)))))"

text \<open>The two engines are configured alike, so the second configuration fails only if the first did.\<close>

lemma configure_engine_both:
  "configure_engine rc (base_config True) = map_sum id (\<lambda>cfg. cfg\<lparr>cfg_async_support := True\<rparr>)
    (configure_engine rc (base_config False))"
  by (simp add: configure_engine_def base_config_def Let_def
      split: RuntimeAllocationMode.split option.split)

subsection \<open>The properties\<close>

text \<open>C30: a ticker lives exactly as long as it is shared. In every state it can reach: while an
  \<^verbatim>\<open>Arc\<close> of it is left its thread runs; when its destructor has returned the thread is over;
  and from the moment the stop flag is set at most five steps follow in any order, with at most one more
  increment of the epoch, until destructor and thread are both over, so that the join cannot hang.\<close>

theorem ticker_stops:
  assumes "ticker_exec\<^sup>*\<^sup>* start_ticker t"
  shows "(0 < tk_refs t \<longrightarrow> \<not> tk_stop t \<and> tk_thread t \<noteq> TickExit)
    \<and> (tk_drop t = Dropped \<longrightarrow> tk_thread t = TickExit)
    \<and> (\<forall>n u. tk_stop t \<and> (ticker_exec ^^ n) t u \<longrightarrow>
        n \<le> 5 \<and> tk_increments u \<le> Suc (tk_increments t) \<and> ((\<forall>v. \<not> ticker_exec u v) \<longrightarrow> ticker_gone u))"
proof -
  have inv: "ticker_inv t" using ticker_sys.inv_reachable assms by blast
  have "n \<le> 5 \<and> tk_increments u \<le> Suc (tk_increments t) \<and> ((\<forall>v. \<not> ticker_exec u v) \<longrightarrow> ticker_gone u)"
    if "tk_stop t" "(ticker_exec ^^ n) t u" for n u
  proof -
    have "ticker_rank t \<le> 5" by (cases "tk_thread t"; cases "tk_drop t") (auto simp: ticker_rank_def)
    then have "n \<le> 5" using stopping_sys.run_length [of t n u] inv that by linarith
    moreover have "tk_increments u \<le> Suc (tk_increments t)"
      using stopping_increments [OF that(2) inv that(1)] by (auto simp: of_bool_def split: if_splits)
    moreover have "ticker_inv u \<and> tk_stop u" using stopping_sys.inv_relpow [of t n u] inv that by blast
    ultimately show ?thesis using stopping_sys.stuck_final [of u] by blast
  qed
  then show ?thesis using inv by (auto simp: ticker_inv_def)
qed

definition one_tick_and_drop :: "ticker_act list" where
  "one_tick_and_drop = [ThreadStep, CloneArc, DropArc, ThreadStep, DropArc, DropStep]"

theorem ticker_stops_witness:
  "\<exists>t u. ticker_run one_tick_and_drop start_ticker = Some t \<and> tk_stop t \<and> tk_thread t = TickBump
    \<and> ticker_run [ThreadStep, ThreadStep, DropStep, DropStep] t = Some u \<and> tk_increments u \<le> Suc (tk_increments t)"
proof -
  obtain t u where t: "ticker_run one_tick_and_drop start_ticker = Some t" "tk_stop t" "tk_thread t = TickBump"
      "ticker_run [ThreadStep, ThreadStep, DropStep, DropStep] t = Some u"
    by (simp add: one_tick_and_drop_def start_ticker_def)
  then obtain n where "(ticker_exec ^^ n) t u" using ticker_run_exec rtranclp_imp_relpowp by metis
  then show ?thesis using ticker_stops [OF ticker_run_exec [OF t(1)]] t by blast
qed

text \<open>Making a runtime. A runtime is made exactly when its configuration is accepted, both engines
  are created and both threads spawn; its engines are then the configured ones, interruptible, alike but for
  the asynchronous support of the second, and its tickers are fresh, one for each engine. When it is not
  made, the ticker that was already started, if any, has lost its only owner, and its destructor can bring
  it to its end.\<close>

theorem runtime_construction:
  "case with_config w rc of
     (Inr rt, left) \<Rightarrow> left = None \<and> rt_config rt = rc \<and> rt_ticker rt = start_ticker \<and> rt_http_ticker rt = start_ticker
       \<and> configure_engine rc (base_config False) = Inr (rt_engine rt)
       \<and> rt_http_engine rt = (rt_engine rt)\<lparr>cfg_async_support := True\<rparr>
       \<and> cfg_epoch_interruption (rt_engine rt) \<and> \<not> cfg_async_support (rt_engine rt)
       \<and> \<not> rw_engine_fails w (rt_engine rt) \<and> \<not> rw_engine_fails w (rt_http_engine rt)
       \<and> \<not> rw_spawn_fails w False \<and> \<not> rw_spawn_fails w True
   | (Inl e, left) \<Rightarrow>
       (configure_engine rc (base_config False) = Inl e \<or> rw_spawn_fails w False \<or> rw_spawn_fails w True
        \<or> (\<exists>cfg. configure_engine rc (base_config False) = Inr cfg
            \<and> (rw_engine_fails w cfg \<or> rw_engine_fails w (cfg\<lparr>cfg_async_support := True\<rparr>))))
       \<and> (\<forall>t. left = Some t \<longrightarrow> tk_refs t = 0 \<and> (\<exists>u. ticker_exec\<^sup>*\<^sup>* t u \<and> ticker_gone u))"
proof -
  have gone: "tk_refs t = 0 \<and> (\<exists>u. ticker_exec\<^sup>*\<^sup>* t u \<and> ticker_gone u)"
    if "ticker_step DropArc start_ticker = Some t" for t
  proof -
    have t: "t = start_ticker\<lparr>tk_refs := 0, tk_drop := DropStore\<rparr>" using that by (simp add: start_ticker_def)
    obtain u where "ticker_run [DropStep, ThreadStep, DropStep, DropStep] t = Some u" "ticker_gone u"
      by (simp add: t start_ticker_def ticker_gone_def)
    then show ?thesis using ticker_run_exec by (auto simp: t simp del: ticker_run.simps)
  qed
  have cfg: "cfg_epoch_interruption c \<and> \<not> cfg_async_support c" if "configure_engine rc (base_config False) = Inr c" for c
    using that by (auto simp: configure_engine_def base_config_def Let_def split: RuntimeAllocationMode.splits option.splits)
  show ?thesis
  proof (cases "configure_engine rc (base_config False)")
    case (Inl e)
    then show ?thesis by (simp add: with_config_def make_engine_def)
  next
    case (Inr c)
    then show ?thesis using gone cfg [OF Inr]
      by (simp add: with_config_def make_engine_def make_ticker_def configure_engine_both del: ticker_step.simps)
  qed
qed

definition no_async_world :: runtime_world where
  "no_async_world = \<lparr>rw_engine_fails = cfg_async_support, rw_spawn_fails = (\<lambda>_. False), rw_fingerprint = (\<lambda>_. [])\<rparr>"

theorem runtime_construction_witness:
  "\<exists>t. with_config no_async_world default_config = (Inl ''failed to create async HTTP engine'', Some t)
    \<and> tk_refs t = 0 \<and> (\<exists>u. ticker_exec\<^sup>*\<^sup>* t u \<and> ticker_gone u)"
proof -
  obtain t where "with_config no_async_world default_config = (Inl ''failed to create async HTTP engine'', Some t)"
    by (simp add: with_config_def make_engine_def make_ticker_def configure_engine_def default_config_def
        no_async_world_def base_config_def start_ticker_def Let_def)
  with runtime_construction [of default_config no_async_world] show ?thesis by (simp del: ticker_step.simps)
qed

text \<open>The runtime that a world without failures makes of the default configuration.\<close>

definition plain_runtime :: PitRuntime where
  "plain_runtime =
     \<lparr>rt_engine = base_config False, rt_http_engine = base_config True, rt_http_component_fingerprint = ''v2-0'',
      rt_ticker = start_ticker, rt_http_ticker = start_ticker, rt_config = default_config\<rparr>"

end
