(* ===== verification/Pit_Dispatch.thy ===== *)
theory Pit_Dispatch
  imports Rt_Http Rt_Prepare Rt_Runtime Sched_Shared
begin

section \<open>The HTTP dispatcher\<close>

text \<open>
  \<^verbatim>\<open>PitHttpDispatcher\<close> of \<^verbatim>\<open>apps/pit-node/src/lib.rs\<close>: prepared artifacts by key behind a
  read-write lock, one scheduler for all of them, an optional compiled cache; requests run as tasks of
  \<^verbatim>\<open>run_one_observed\<close>, nested calls inline on the caller's lane. The lock protects single
  map operations, so the registry is a map that each operation reads or updates in one step.
\<close>

record PitHttpDispatcher =
  disp_runtime :: PitRuntime
  disp_scheduler :: PitScheduler
  disp_artifacts :: "(string \<times> PreparedArtifact) list"
  disp_cache :: "nat option" \<comment> \<open>the byte bound of the compiled cache, if there is one\<close>

record HttpDispatchResult =
  hd_execution_id :: ExecutionId
  hd_lane_id :: LaneId
  hd_response :: "HttpResponse option"
  hd_error :: "string option"
  hd_queued_for :: duration
  hd_scheduling_gap :: duration
  hd_duration :: duration
  hd_guest_started_after_request :: duration
  hd_prepared_lookup :: duration
  hd_runtime_timings :: HttpExecutionTimings

definition with_scheduler_and_runtime ::
  "runtime_world \<Rightarrow> PitRuntimeConfig \<Rightarrow> PitScheduler \<Rightarrow> string + PitHttpDispatcher" where
  "with_scheduler_and_runtime w rc p =
     (case fst (with_config w rc) of
        Inl e \<Rightarrow> Inl e
      | Inr rt \<Rightarrow> Inr \<lparr>disp_runtime = rt, disp_scheduler = p, disp_artifacts = [], disp_cache = None\<rparr>)"

text \<open>The default bound of \<^verbatim>\<open>CompiledCacheConfig::new\<close>, four GiB.\<close>

definition default_max_bytes :: nat where
  "default_max_bytes = 4 * 1024 * 1024 * 1024"

definition with_scheduler :: "runtime_world \<Rightarrow> PitScheduler \<Rightarrow> string + PitHttpDispatcher" where
  "with_scheduler w p = with_scheduler_and_runtime w default_config p"

definition with_options ::
  "runtime_world \<Rightarrow> nat \<Rightarrow> instant \<Rightarrow> PitRuntimeConfig \<Rightarrow> string + PitHttpDispatcher" where
  "with_options w lanes now rc =
     (case new_scheduler lanes now of Inl e \<Rightarrow> Inl e | Inr p \<Rightarrow> with_scheduler_and_runtime w rc p)"

definition with_lanes :: "runtime_world \<Rightarrow> nat \<Rightarrow> instant \<Rightarrow> string + PitHttpDispatcher" where
  "with_lanes w lanes now =
     (case new_scheduler lanes now of Inl e \<Rightarrow> Inl e | Inr p \<Rightarrow> with_scheduler w p)"

text \<open>\<^verbatim>\<open>new\<close>: a lane for every processor the host reports.\<close>

definition new_dispatcher :: "runtime_world \<Rightarrow> nat option \<Rightarrow> instant \<Rightarrow> string + PitHttpDispatcher" where
  "new_dispatcher w parallelism now = with_scheduler w (local_scheduler parallelism now)"

definition set_cache :: "string + PitHttpDispatcher \<Rightarrow> string + PitHttpDispatcher" where
  "set_cache r = (case r of Inl e \<Rightarrow> Inl e | Inr d \<Rightarrow> Inr (d\<lparr>disp_cache := Some default_max_bytes\<rparr>))"

definition with_compiled_cache :: "runtime_world \<Rightarrow> nat \<Rightarrow> instant \<Rightarrow> string + PitHttpDispatcher" where
  "with_compiled_cache w lanes now = set_cache (with_lanes w lanes now)"

definition with_compiled_cache_options ::
  "runtime_world \<Rightarrow> nat \<Rightarrow> instant \<Rightarrow> PitRuntimeConfig \<Rightarrow> string + PitHttpDispatcher" where
  "with_compiled_cache_options w lanes now rc = set_cache (with_options w lanes now rc)"

definition execution_lanes :: "PitHttpDispatcher \<Rightarrow> nat" where
  "execution_lanes d = lane_count (disp_scheduler d)"

definition shared_peak_active :: "PitHttpDispatcher \<Rightarrow> usize" where
  "shared_peak_active d = shared_peak (disp_scheduler d)"

definition scheduler_snapshot :: "PitHttpDispatcher \<Rightarrow> SchedulerSnapshot" where
  "scheduler_snapshot d = shared_snapshot (disp_scheduler d)"

definition dispatcher_utilization :: "'f floats \<Rightarrow> instant \<Rightarrow> PitHttpDispatcher \<Rightarrow> 'f" where
  "dispatcher_utilization fl now d = grid_utilization fl now (disp_scheduler d)"

definition prepared_keys :: "PitHttpDispatcher \<Rightarrow> string list" where
  "prepared_keys d = sort (map fst (disp_artifacts d))"

definition warm_keys :: "cache_env \<Rightarrow> cache_fs \<Rightarrow> PitHttpDispatcher \<Rightarrow> string list" where
  "warm_keys env fs d = (case disp_cache d of Some _ \<Rightarrow> warm_digests env fs | None \<Rightarrow> [])"

definition has_prepared :: "string \<Rightarrow> PitHttpDispatcher \<Rightarrow> bool" where
  "has_prepared key d \<longleftrightarrow> map_of (disp_artifacts d) key \<noteq> None"

subsection \<open>Registration\<close>

text \<open>
  The dispatcher's runtime prepares with its own configuration and the fingerprint of its HTTP engine;
  what else the preparation meets is in \<open>pr\<close>.
\<close>

definition prepared_by :: "PitHttpDispatcher \<Rightarrow> preparation \<Rightarrow> preparation" where
  "prepared_by d pr =
     pr\<lparr>prep_config := rt_config (disp_runtime d), prep_fingerprint := rt_http_component_fingerprint (disp_runtime d)\<rparr>"

definition prepare_for ::
  "PitHttpDispatcher \<Rightarrow> preparation \<Rightarrow> WasmArtifact \<Rightarrow> cache_fs
    \<Rightarrow> (string + (PreparedArtifact \<times> PreparationReport)) \<times> cache_fs" where
  "prepare_for d pr artifact fs =
     (case disp_cache d of
        Some max_bytes \<Rightarrow> prepare_http_cached (prepared_by d pr) artifact max_bytes fs
      | None \<Rightarrow> (map_sum id (\<lambda>prepared. (prepared, default_report)) (prepare_http (prepared_by d pr) artifact), fs))"

definition register_with_report ::
  "string \<Rightarrow> preparation \<Rightarrow> WasmArtifact \<Rightarrow> PitHttpDispatcher \<Rightarrow> cache_fs
    \<Rightarrow> (string + PreparationReport) \<times> PitHttpDispatcher \<times> cache_fs" where
  "register_with_report key pr artifact d fs =
     (case prepare_for d pr artifact fs of
        (Inl e, fs') \<Rightarrow> (Inl e, d, fs')
      | (Inr (prepared, rep), fs') \<Rightarrow>
          (Inr rep, d\<lparr>disp_artifacts := AList.update key prepared (disp_artifacts d)\<rparr>, fs'))"

definition register ::
  "string \<Rightarrow> preparation \<Rightarrow> WasmArtifact \<Rightarrow> PitHttpDispatcher \<Rightarrow> cache_fs
    \<Rightarrow> (string + unit) \<times> PitHttpDispatcher \<times> cache_fs" where
  "register key pr artifact d fs =
     (case register_with_report key pr artifact d fs of (r, d', fs') \<Rightarrow> (map_sum id (\<lambda>_. ()) r, d', fs'))"

subsection \<open>Requests\<close>

definition find_prepared :: "string \<Rightarrow> PitHttpDispatcher \<Rightarrow> string + PreparedArtifact" where
  "find_prepared key d =
     (case map_of (disp_artifacts d) key of
        Some prepared \<Rightarrow> Inr prepared
      | None \<Rightarrow> Inl (''unknown prepared HTTP artifact '' @ [CHR 0x27] @ key @ [CHR 0x27]))"

text \<open>
  The task of a request on the pool: one HTTP execution in the environment \<open>world\<close> of its
  identifier and lane. The guest is told the displayed identifier as its parent.
\<close>

type_synonym http_world = "ExecutionId \<Rightarrow> LaneId \<Rightarrow> instant \<times> http_clock \<times> http_guest"

type_synonym http_value = "HttpResponse \<times> HttpExecutionTimings"

definition http_task :: "http_world \<Rightarrow> PreparedArtifact \<Rightarrow> ExecutionLimits \<Rightarrow> ExecutionId \<Rightarrow> LaneId \<Rightarrow> http_value outcome" where
  "http_task world prepared limits e l =
     (case world e l of (now, clock, h) \<Rightarrow>
        (case execute_http_timed now clock h prepared limits of
           Inl err \<Rightarrow> TaskErr err
         | Inr v \<Rightarrow> TaskOk v))"

text \<open>\<^verbatim>\<open>scheduled.value.map_or_else\<close> and the result made of it.\<close>

definition value_parts :: "http_value option \<Rightarrow> HttpResponse option \<times> HttpExecutionTimings" where
  "value_parts v = (case v of None \<Rightarrow> (None, default_timings) | Some (response, timings) \<Rightarrow> (Some response, timings))"

definition dispatch_result ::
  "duration \<Rightarrow> duration \<Rightarrow> http_value ExecutionResult \<Rightarrow> HttpDispatchResult" where
  "dispatch_result guest_started lookup scheduled =
     (let rep = report scheduled; (response, timings) = value_parts (result_value scheduled) in
      \<lparr>hd_execution_id = execution_id rep, hd_lane_id = lane_id rep, hd_response = response,
       hd_error = rep_error rep, hd_queued_for = queued_for rep, hd_scheduling_gap = scheduling_gap rep,
       hd_duration = rep_duration rep, hd_guest_started_after_request = guest_started,
       hd_prepared_lookup = lookup, hd_runtime_timings = timings\<rparr>)"

text \<open>
  Callers of one dispatcher as callers of the pool: each brings its prepared artifact, its limits and
  its environment. The task itself does not panic; what an observer does is open.
\<close>

record http_caller =
  hc_prepared :: PreparedArtifact
  hc_limits :: ExecutionLimits
  hc_world :: http_world

definition dispatch_env ::
  "http_caller list \<Rightarrow> (nat \<Rightarrow> ExecutionId \<Rightarrow> LaneId \<Rightarrow> bool) \<Rightarrow> (instant \<Rightarrow> nat) \<Rightarrow> http_value pool_env" where
  "dispatch_env requests observer wall =
     \<lparr>may_return = (\<lambda>i e l out. i < length requests
        \<and> out = http_task (hc_world (requests ! i)) (hc_prepared (requests ! i)) (hc_limits (requests ! i)) e l),
      observer_panics = observer, wall_clock = wall\<rparr>"

text \<open>
  \<^verbatim>\<open>execute_http_with_invoker\<close> observes nothing. What a caller brings is made of its request: the
  guest runs in the host state of the request, with the invoker, the depth and, as its parent, the displayed
  identifier of its own execution. \<^verbatim>\<open>execute_http\<close> has no invoker and depth zero.
\<close>

definition execute_http_with_invoker :: "http_caller list \<Rightarrow> (instant \<Rightarrow> nat) \<Rightarrow> http_value pool_env" where
  "execute_http_with_invoker requests wall = dispatch_env requests (\<lambda>_ _ _. False) wall"

definition invoker_caller ::
  "http_lib \<Rightarrow> (string \<Rightarrow> string + string) \<Rightarrow> (string \<Rightarrow> string) \<Rightarrow> ('b, 'w) http_program
    \<Rightarrow> (ExecutionId \<Rightarrow> LaneId \<Rightarrow> instant \<times> http_clock) \<Rightarrow> PreparedArtifact \<Rightarrow> ('b, 'w, 'z) HttpCall_scheme
    \<Rightarrow> ExecutionLimits \<Rightarrow> ServiceInvoker option \<Rightarrow> u16 \<Rightarrow> http_caller" where
  "invoker_caller lib parse_uri sha program clock prepared rq limits invoker depth =
     \<lparr>hc_prepared = prepared, hc_limits = limits,
      hc_world = (\<lambda>e l. case clock e l of (now, c) \<Rightarrow>
        (now, c, guest_of lib parse_uri sha program rq limits invoker (display_execution_id False e) depth))\<rparr>"

definition plain_caller ::
  "http_lib \<Rightarrow> (string \<Rightarrow> string + string) \<Rightarrow> (string \<Rightarrow> string) \<Rightarrow> ('b, 'w) http_program
    \<Rightarrow> (ExecutionId \<Rightarrow> LaneId \<Rightarrow> instant \<times> http_clock) \<Rightarrow> PreparedArtifact \<Rightarrow> ('b, 'w, 'z) HttpCall_scheme
    \<Rightarrow> ExecutionLimits \<Rightarrow> http_caller" where
  "plain_caller lib parse_uri sha program clock prepared rq limits =
     invoker_caller lib parse_uri sha program clock prepared rq limits None 0"

definition execute_http_inline ::
  "string \<Rightarrow> PitHttpDispatcher \<Rightarrow> instant \<Rightarrow> http_clock \<Rightarrow> http_guest \<Rightarrow> ExecutionLimits \<Rightarrow> string + HttpResponse" where
  "execute_http_inline key d now clock h limits =
     (case find_prepared key d of
        Inl e \<Rightarrow> Inl e
      | Inr prepared \<Rightarrow> execute_http_untimed now clock h prepared limits)"

end
