(* ===== verification/Pit_Dispatch_Claims.thy ===== *)
theory Pit_Dispatch_Claims
  imports Pit_Dispatch Sched_Shared_Props Rt_Exec_Claims Rt_Cache_Claims
begin

section \<open>What the dispatcher promises\<close>

text \<open>
  The registry as a map, and the composition of the shared pool with HTTP executions: what a request
  dispatched among others comes back with.
\<close>

lemma find_registered [simp]:
  "map_of (AList.update key prepared xs) key' = (if key = key' then Some prepared else map_of xs key')"
  by (simp add: update_conv')

text \<open>What a successful registration adds: an artifact that is ready for HTTP whenever it is a component.\<close>

definition format_of :: "preparation \<Rightarrow> WasmArtifact \<Rightarrow> string + ArtifactFormat" where
  "format_of pr artifact =
     map_sum id (\<lambda>(bytes, digest, format). format) (fst (open_artifact (prep_files pr) (prep_parse pr) (prep_sha pr) artifact))"

lemma prepare_world_prepared:
  assumes "prepare_with_world pr (Some ''wasi:http/proxy'') cache artifact fs = (Inr (prepared, rep), fs')"
  shows "p_id prepared = art_id artifact \<and> (\<exists>format. format_of pr artifact = Inr format
      \<and> (format = ComponentFormat \<longrightarrow> p_http_engine prepared \<and> p_http_ticker prepared
          \<and> (p_http_pre prepared \<or> p_http_component prepared \<and> p_http_linker prepared))
      \<and> (format = CoreModule \<longrightarrow> \<not> p_http_engine prepared))"
  using assms
  by (rule prepare_success)
    (auto simp: format_of_def prepared_with_world_def prepared_cached_def split: ArtifactFormat.splits)

lemma format_of_prepared_by [simp]: "format_of (prepared_by d pr) artifact = format_of pr artifact"
  by (simp add: format_of_def prepared_by_def)

lemma prepare_for_world:
  assumes "prepare_for d pr artifact fs = (Inr (prepared, rep), fs')"
  obtains fs1 fs2 rep' where "prepare_with_world (prepared_by d pr) (Some ''wasi:http/proxy'') (disp_cache d) artifact fs1
    = (Inr (prepared, rep'), fs2)"
  using assms
  by (cases "prepare_with_world (prepared_by d pr) (Some ''wasi:http/proxy'') None artifact []")
    (auto simp: prepare_for_def prepare_http_def prepare_http_cached_def map_sum_Inr_iff split: option.splits)

lemma prepare_for_prepared:
  assumes "prepare_for d pr artifact fs = (Inr (prepared, rep), fs')"
  shows "p_id prepared = art_id artifact \<and> (\<exists>format. format_of pr artifact = Inr format
      \<and> (format = ComponentFormat \<longrightarrow> p_http_engine prepared \<and> p_http_ticker prepared
          \<and> (p_http_pre prepared \<or> p_http_component prepared \<and> p_http_linker prepared))
      \<and> (format = CoreModule \<longrightarrow> \<not> p_http_engine prepared))"
  using assms by (rule prepare_for_world) (drule prepare_world_prepared, simp)

lemma dispatched_report:
  assumes "pool_reachable (dispatch_env requests observer wall) lanes (length requests) s"
    and "i < length requests" and "c_pc (callers s ! i) = AtDone"
  shows "\<exists>scheduled. c_result (callers s ! i) = Some scheduled
    \<and> (let d = dispatch_result gs lk scheduled; q = requests ! i;
           (now, clock, h) = hc_world q (hd_execution_id d) (hd_lane_id d) in
       hd_execution_id d = c_eid (callers s ! i) \<and> hd_lane_id d = LaneId (c_lane (callers s ! i))
       \<and> (case execute_http now h (hc_prepared q) (hc_limits q) of
            Inr response \<Rightarrow> hd_response d = Some response \<and> hd_error d = None
              \<and> hd_runtime_timings d = timings_of clock
          | Inl e \<Rightarrow> hd_response d = None \<and> hd_error d = Some e \<and> hd_runtime_timings d = default_timings))"
proof -
  obtain r out where r: "c_result (callers s ! i) = Some r"
    "execution_id (report r) = c_eid (callers s ! i)" "lane_id (report r) = LaneId (c_lane (callers s ! i))"
    "may_return (dispatch_env requests observer wall) i (execution_id (report r)) (lane_id (report r)) out"
    "(success (report r), rep_error (report r), result_value r) = outcome_fields out"
    using shared_caller_report [OF assms] by blast
  obtain now clock h where w: "hc_world (requests ! i) (execution_id (report r)) (lane_id (report r)) = (now, clock, h)"
    by (metis prod_cases3)
  have "out = http_task (hc_world (requests ! i)) (hc_prepared (requests ! i)) (hc_limits (requests ! i))
      (execution_id (report r)) (lane_id (report r))"
    using r(4) by (simp add: dispatch_env_def)
  then have out: "out = (case execute_http now h (hc_prepared (requests ! i)) (hc_limits (requests ! i)) of
      Inl err \<Rightarrow> TaskErr err | Inr response \<Rightarrow> TaskOk (response, timings_of clock))"
    by (simp add: http_task_def w execute_http_timed_def split: sum.split)
  show ?thesis
    using r(1-3,5) w unfolding out
    by (intro exI [of _ r]) (auto simp: dispatch_result_def value_parts_def Let_def split: sum.splits)
qed

definition ok_response :: HttpResponse where
  "ok_response = \<lparr>http_status = 200, http_headers = [], http_body = ''ok''\<rparr>"

definition calm_http :: http_guest where
  "calm_http = \<lparr>h_request_error = None, h_resource_error = None, h_pre_error = None,
     h_guest = \<lparr>g_trap_text = [], g_inst_events = [], g_inst_final = Inr (), g_lookup_error = None,
       g_call_events = [Tick False 3], g_call_final = Inr (), g_started = 0, g_elapsed = 1\<rparr>,
     h_response = Inr ok_response\<rparr>"

definition calm_clock :: http_clock where
  "calm_clock = \<lparr>at_request_setup = (0, 1), at_wasi_setup = (1, 3), at_store_setup = (3, 6), at_instance_setup = (6, 10),
     at_guest = (10, 15)\<rparr>"

definition calm_request :: http_caller where
  "calm_request = \<lparr>hc_prepared = prepared_cached ''a'' True,
     hc_limits = \<lparr>lim_timeout = None, lim_memory_bytes = None\<rparr>, hc_world = (\<lambda>_ _. (0, calm_clock, calm_http))\<rparr>"

lemma calm_task: "http_task (hc_world calm_request) (hc_prepared calm_request) (hc_limits calm_request) e l
    = TaskOk (ok_response, timings_of calm_clock)"
proof -
  have "http_ready (hc_prepared calm_request) calm_http" "instantiates 0 calm_http (hc_limits calm_request)"
    "find (limit_stops 0 (hc_limits calm_request)) (g_call_events (h_guest calm_http)) = None"
    by (simp_all add: http_ready_def calm_request_def prepared_cached_def calm_http_def instantiates_def)
  from http_call_free [OF this] show ?thesis by (simp add: http_task_def calm_request_def calm_http_def execute_http_timed_def)
qed

definition calm_env :: "http_value pool_env" where
  "calm_env = dispatch_env [calm_request] (\<lambda>_ _ _. False) (\<lambda>t. t)"

lemma calm_env_simps [simp]:
  "may_return calm_env 0 e l out \<longleftrightarrow> out = TaskOk (ok_response, timings_of calm_clock)"
  "observer_panics calm_env i e l = False"
  "wall_clock calm_env t = t"
  using calm_task by (simp_all add: calm_env_def dispatch_env_def)

definition calm_acts :: "(instant \<times> http_value pool_act) list" where
  "calm_acts = map (\<lambda>d. (d, Advance 0 (Some (TaskOk (ok_response, timings_of calm_clock))))) [0..<18]
     @ [(19, NotifyOne 0 None), (20, Advance 0 None)]"

definition calm_start :: "http_value pool" where
  "calm_start = init_pool (scheduler_with_lanes 1 0) 1"

lemma calm_run: "map_option (\<lambda>s. map c_pc (callers s)) (pool_run calm_env calm_acts calm_start) = Some [AtDone]"
  by (simp add: calm_acts_def calm_start_def upt_0_numeral replicate_numeral init_pool_def scheduler_with_lanes_def
      new_caller_def caller_step_def wake_allowed_def wake_chosen_def vacate_lane_def duration_since_def
      caller_result_def nanos_u64_def)

subsection \<open>The properties\<close>

text \<open>C13: a dispatched request comes back with its own outcome. However many requests share the pool and
  however they interleave, a request that has returned reports the identifier and the lane it ran on, and
  exactly the outcome of its own HTTP execution in the environment it met there: the response and no
  error, or the error and no response.\<close>

theorem dispatch_faithful:
  assumes "pool_reachable (dispatch_env requests observer wall) lanes (length requests) s"
    and "i < length requests" and "c_pc (callers s ! i) = AtDone"
  shows "\<exists>scheduled. c_result (callers s ! i) = Some scheduled
    \<and> (let d = dispatch_result gs lk scheduled; q = requests ! i;
           (now, clock, h) = hc_world q (hd_execution_id d) (hd_lane_id d) in
       hd_execution_id d = c_eid (callers s ! i) \<and> hd_lane_id d = LaneId (c_lane (callers s ! i))
       \<and> (case execute_http now h (hc_prepared q) (hc_limits q) of
            Inr response \<Rightarrow> hd_response d = Some response \<and> hd_error d = None
              \<and> hd_runtime_timings d = timings_of clock
          | Inl e \<Rightarrow> hd_response d = None \<and> hd_error d = Some e \<and> hd_runtime_timings d = default_timings))"
  by (rule dispatched_report [OF assms])

theorem dispatch_faithful_witness:
  "\<exists>s scheduled. pool_run calm_env calm_acts calm_start = Some s \<and> c_result (callers s ! 0) = Some scheduled
    \<and> hd_response (dispatch_result 0 0 scheduled) = Some ok_response"
proof -
  obtain s where s: "pool_run calm_env calm_acts calm_start = Some s" "map c_pc (callers s) = [AtDone]"
    using calm_run by auto
  have "shared_start 1 1 calm_start" by (auto simp: shared_start_def calm_start_def new_scheduler_def)
  then have r: "pool_reachable (dispatch_env [calm_request] (\<lambda>_ _ _. False) (\<lambda>t. t)) 1 (length [calm_request]) s"
    using pool_reachable_run [OF _ s(1)] by (simp add: calm_env_def)
  have "c_pc (callers s ! 0) = AtDone" using s(2) by auto
  moreover have "execute_http 0 calm_http (hc_prepared calm_request) (hc_limits calm_request) = Inr ok_response"
    using calm_task by (auto simp: http_task_def calm_request_def execute_http_timed_def split: sum.splits)
  ultimately show ?thesis
    using dispatch_faithful [OF r, of 0 0 0] s(1) by (auto simp: Let_def calm_request_def)
qed

text \<open>Registration. A successful registration makes exactly its key answer with the new artifact,
  which carries the artifact's identifier and, when it is a component, everything an HTTP execution asks
  for; a failed one leaves the registry as it was; every other key answers as before; and a request for
  an unknown key fails before any lane is involved.\<close>

theorem registration_exact:
  assumes "register_with_report key pr artifact d fs = (result, d', fs')"
  shows "(case result of
        Inl e \<Rightarrow> d' = d
      | Inr rep \<Rightarrow> \<exists>prepared. find_prepared key d' = Inr prepared \<and> p_id prepared = art_id artifact
          \<and> (format_of pr artifact = Inr ComponentFormat \<longrightarrow> p_http_engine prepared \<and> p_http_ticker prepared
              \<and> (p_http_pre prepared \<or> p_http_component prepared \<and> p_http_linker prepared)))
    \<and> (key' \<noteq> key \<longrightarrow> find_prepared key' d' = find_prepared key' d)
    \<and> disp_scheduler d' = disp_scheduler d
    \<and> (\<not> has_prepared key' d' \<longrightarrow> (\<exists>e. execute_http_inline key' d' now clock h limits = Inl e))"
proof (cases "prepare_for d pr artifact fs")
  case (Pair outcome fs1)
  show ?thesis
  proof (cases outcome)
    case (Inl e)
    then show ?thesis using assms Pair
      by (auto simp: register_with_report_def has_prepared_def execute_http_inline_def find_prepared_def)
  next
    case (Inr ok)
    then obtain prepared rep where ok: "outcome = Inr (prepared, rep)" by (cases ok) simp
    then show ?thesis using assms Pair prepare_for_prepared [of d pr artifact fs prepared rep fs1]
      by (auto simp: register_with_report_def has_prepared_def execute_http_inline_def find_prepared_def)
  qed
qed

definition no_errors :: wasmtime_calls where
  "no_errors = \<lparr>wt_module_from_binary = None, wt_add_preview1 = None, wt_add_preview2_sync = None, wt_component_new = None,
     wt_http_component_new = None, wt_add_preview2_async = None, wt_add_service = None, wt_add_paddock = None,
     wt_add_http = None, wt_instantiate_pre = None, wt_proxy_pre = None\<rparr>"

definition demo_preparation :: preparation where
  "demo_preparation = \<lparr>prep_files = (\<lambda>_. FileBytes ''wasm''), prep_parse = (\<lambda>_. [Version ComponentFormat]), prep_sha = id,
     prep_format_name = (\<lambda>_. ''component''), prep_wasmtime = no_errors, prep_config = default_config,
     prep_fingerprint = ''v2-0'', prep_env = cache_demo_env, prep_io = cache_demo_io, prep_rebuild_io = cache_demo_io,
     prep_elapsed = 9, prep_stages = default_stages\<rparr>"

definition demo_dispatcher :: PitHttpDispatcher where
  "demo_dispatcher = \<lparr>disp_runtime = plain_runtime, disp_scheduler = scheduler_with_lanes 1 0, disp_artifacts = [],
     disp_cache = Some 100\<rparr>"

definition demo_artifact :: WasmArtifact where
  "demo_artifact = from_path_with_digest ''/a.wasm'' ''sha256:abcd''"

lemma demo_registers:
  "\<exists>rep d' fs'. register_with_report key demo_preparation demo_artifact demo_dispatcher [] = (Inr rep, d', fs')"
  by (auto simp: register_with_report_def prepare_for_def prepare_http_cached_def prepare_with_world_def prepare_cached_def
      demo_preparation_def demo_dispatcher_def demo_artifact_def prepared_by_def plain_runtime_def default_config_def
      no_errors_def http_linker_calls_def resolve_calls_def open_artifact_def from_path_with_digest_def read_artifact_def
      digest_once_def cache_request_of_def cache_eval)

theorem registration_exact_witness:
  "\<exists>rep d' fs'. register_with_report ''k'' demo_preparation demo_artifact demo_dispatcher [] = (Inr rep, d', fs')
    \<and> (\<exists>prepared. find_prepared ''k'' d' = Inr prepared \<and> p_id prepared = ''sha256:abcd'')"
proof -
  obtain rep d' fs' where r: "register_with_report ''k'' demo_preparation demo_artifact demo_dispatcher [] = (Inr rep, d', fs')"
    using demo_registers by blast
  from registration_exact [OF r, of "''z''" 0 calm_clock calm_http "hc_limits calm_request"] r show ?thesis
    by (auto simp: demo_artifact_def from_path_with_digest_def)
qed

end
