(* ===== verification/Garage_Warmup.thy ===== *)
theory Garage_Warmup
  imports Rt_Cache Transition_System
begin

section \<open>Warming up an artifact on a Garage\<close>

text \<open>
  \<^verbatim>\<open>GarageAgent::warmup\<close> and \<^verbatim>\<open>warmup_once\<close> of
  \<^verbatim>\<open>apps/pit-garage/src/main.rs\<close>: concurrent requests for one artifact share a
  \<^verbatim>\<open>OnceCell\<close> from a table, one of them prepares the artifact under a permit of the
  preparation budget, and a failure removes the cell from the table. Each call is a program counter
  that stops where the code takes a lock, awaits, or runs on a thread of its own; the step of a call is
  a function of an input that says what the world answered. A request whose connection ends is dropped
  at an await: it gives back what it holds, but a registration on its blocking thread goes on.
\<close>

subsection \<open>State\<close>

record WarmupReport =
  wr_preparation :: PreparationReport
  wr_duration :: duration

type_synonym warm_result = "string + WarmupReport"

text \<open>The cell of tokio: empty, held by the call that initialises it, or set.\<close>

datatype once_cell = CellEmpty | CellHeld | CellSet warm_result

datatype warm_pc =
    AtMap \<comment> \<open>before the lock on the table\<close>
  | AtCell nat \<comment> \<open>\<^verbatim>\<open>get_or_init\<close> on a cell\<close>
  | AtCheck nat \<comment> \<open>initialising: the check for a prepared artifact\<close>
  | AtPermit nat \<comment> \<open>awaiting the preparation budget\<close>
  | AtOpen nat \<comment> \<open>opening the local artifact\<close>
  | AtRemote nat \<comment> \<open>awaiting the acquisition from a Paddock\<close>
  | AtRegister nat \<comment> \<open>awaiting the registration on a blocking thread\<close>
  | AtJoin nat "string + PreparationReport" \<comment> \<open>the registration is over\<close>
  | AtRemove string \<comment> \<open>about to remove the cell of a failed warm-up\<close>
  | Returned warm_result
  | Detached \<comment> \<open>dropped, its registration still running\<close>
  | Abandoned

record warmups =
  wt_keys :: "string list" \<comment> \<open>the digest each call asks for\<close>
  wt_pcs :: "warm_pc list"
  wt_map :: "(string \<times> nat) list"
  wt_cells :: "once_cell list"
  wt_permits :: nat
  wt_prepared :: "string list" \<comment> \<open>keys in the registry of the dispatcher\<close>
  wt_has_paddock :: bool
  remote_acquisitions :: nat
  preparations :: nat
  compilations :: nat
  warm_restores :: nat
  cache_publications :: nat

text \<open>What the world answers: a local artifact, the end of an acquisition or a registration, the clock.\<close>

datatype warm_input =
    Proceed
  | LocalArtifact bool
  | Acquisition "string + unit"
  | Registration "string + PreparationReport"
  | Elapsed duration
  | DropRequest

definition new_warmups :: "nat \<Rightarrow> bool \<Rightarrow> string list \<Rightarrow> string list \<Rightarrow> warmups" where
  "new_warmups max_preparations paddock prepared keys =
     \<lparr>wt_keys = keys, wt_pcs = replicate (length keys) AtMap, wt_map = [], wt_cells = [],
      wt_permits = max max_preparations 1, wt_prepared = prepared, wt_has_paddock = paddock,
      remote_acquisitions = 0, preparations = 0, compilations = 0, warm_restores = 0, cache_publications = 0\<rparr>"

subsection \<open>Steps\<close>

definition goto :: "nat \<Rightarrow> warm_pc \<Rightarrow> warmups \<Rightarrow> warmups" where
  "goto i pc s = s\<lparr>wt_pcs := (wt_pcs s)[i := pc]\<rparr>"

text \<open>The match on the value of the cell.\<close>

definition after_cell :: "warm_result \<Rightarrow> warm_pc" where
  "after_cell r = (case r of Inr rep \<Rightarrow> Returned (Inr rep) | Inl e \<Rightarrow> AtRemove e)"

text \<open>The initialiser sets the cell with its result, and goes on as every other caller of the cell.\<close>

definition set_cell :: "nat \<Rightarrow> nat \<Rightarrow> warm_result \<Rightarrow> warmups \<Rightarrow> warmups" where
  "set_cell i c r s = goto i (after_cell r) (s\<lparr>wt_cells := (wt_cells s)[c := CellSet r]\<rparr>)"

definition free_cell :: "nat \<Rightarrow> warmups \<Rightarrow> warmups" where
  "free_cell c s = s\<lparr>wt_cells := (wt_cells s)[c := CellEmpty]\<rparr>"

definition put_permit :: "warmups \<Rightarrow> warmups" where
  "put_permit s = s\<lparr>wt_permits := Suc (wt_permits s)\<rparr>"

definition hot_report :: "duration \<Rightarrow> WarmupReport" where
  "hot_report elapsed =
     \<lparr>wr_preparation = default_report\<lparr>pr_readiness := Hot, pr_source := WarmRestored\<rparr>, wr_duration = elapsed\<rparr>"

definition count_report :: "PreparationReport \<Rightarrow> warmups \<Rightarrow> warmups" where
  "count_report rep s =
     (let s' = (case pr_source rep of
          ColdCompiled \<Rightarrow> s\<lparr>compilations := Suc (compilations s)\<rparr>
        | WarmRestored \<Rightarrow> s\<lparr>warm_restores := Suc (warm_restores s)\<rparr>)
      in if 0 < pr_publication_duration rep then s'\<lparr>cache_publications := Suc (cache_publications s')\<rparr> else s')"

definition no_paddock_error :: "string \<Rightarrow> string" where
  "no_paddock_error key = ''artifact '' @ key @ '' is not local and no Paddock is configured''"

text \<open>The lock on the table: \<^verbatim>\<open>entry(key).or_insert_with(new cell)\<close>.\<close>

definition take_entry :: "nat \<Rightarrow> warmups \<Rightarrow> warmups" where
  "take_entry i s =
     (case map_of (wt_map s) (wt_keys s ! i) of
        Some c \<Rightarrow> goto i (AtCell c) s
      | None \<Rightarrow>
          goto i (AtCell (length (wt_cells s)))
            (s\<lparr>wt_map := AList.update (wt_keys s ! i) (length (wt_cells s)) (wt_map s),
               wt_cells := wt_cells s @ [CellEmpty]\<rparr>))"

definition enter_cell :: "nat \<Rightarrow> nat \<Rightarrow> warmups \<Rightarrow> warmups option" where
  "enter_cell i c s =
     (case wt_cells s ! c of
        CellEmpty \<Rightarrow> Some (goto i (AtCheck c) (s\<lparr>wt_cells := (wt_cells s)[c := CellHeld]\<rparr>))
      | CellHeld \<Rightarrow> None
      | CellSet r \<Rightarrow> Some (goto i (after_cell r) s))"

definition count_preparation :: "nat \<Rightarrow> nat \<Rightarrow> warmups \<Rightarrow> warmups" where
  "count_preparation i c s = goto i (AtRegister c) (s\<lparr>preparations := Suc (preparations s)\<rparr>)"

definition local_missing :: "nat \<Rightarrow> nat \<Rightarrow> warmups \<Rightarrow> warmups" where
  "local_missing i c s =
     (let s' = s\<lparr>remote_acquisitions := Suc (remote_acquisitions s)\<rparr>
      in if wt_has_paddock s then goto i (AtRemote c) s'
         else set_cell i c (Inl (no_paddock_error (wt_keys s ! i))) (put_permit s'))"

definition registered :: "nat \<Rightarrow> string + PreparationReport \<Rightarrow> warmups \<Rightarrow> warmups" where
  "registered i res s =
     (case res of Inl _ \<Rightarrow> s | Inr _ \<Rightarrow> s\<lparr>wt_prepared := List.insert (wt_keys s ! i) (wt_prepared s)\<rparr>)"

text \<open>The step of call \<open>i\<close>; \<open>None\<close> where it blocks or the input is not the one it waits for.\<close>

definition warm_step :: "nat \<Rightarrow> warm_input \<Rightarrow> warmups \<Rightarrow> warmups option" where
  "warm_step i x s =
     (if length (wt_pcs s) \<le> i then None else
      (case (wt_pcs s ! i, x) of
         (AtMap, Proceed) \<Rightarrow> Some (take_entry i s)
       | (AtCell c, Proceed) \<Rightarrow> enter_cell i c s
       | (AtCell c, DropRequest) \<Rightarrow> Some (goto i Abandoned s)
       | (AtCheck c, Elapsed d) \<Rightarrow>
           (if wt_keys s ! i \<in> set (wt_prepared s) then Some (set_cell i c (Inr (hot_report d)) s)
            else Some (goto i (AtPermit c) s))
       | (AtPermit c, Proceed) \<Rightarrow>
           (case wt_permits s of 0 \<Rightarrow> None | Suc n \<Rightarrow> Some (goto i (AtOpen c) (s\<lparr>wt_permits := n\<rparr>)))
       | (AtPermit c, DropRequest) \<Rightarrow> Some (goto i Abandoned (free_cell c s))
       | (AtOpen c, LocalArtifact True) \<Rightarrow> Some (count_preparation i c s)
       | (AtOpen c, LocalArtifact False) \<Rightarrow> Some (local_missing i c s)
       | (AtRemote c, Acquisition (Inr _)) \<Rightarrow> Some (count_preparation i c s)
       | (AtRemote c, Acquisition (Inl e)) \<Rightarrow> Some (set_cell i c (Inl e) (put_permit s))
       | (AtRemote c, DropRequest) \<Rightarrow> Some (goto i Abandoned (free_cell c (put_permit s)))
       | (AtRegister c, Registration res) \<Rightarrow> Some (goto i (AtJoin c res) (registered i res s))
       | (AtRegister c, DropRequest) \<Rightarrow> Some (goto i Detached (free_cell c (put_permit s)))
       | (AtJoin c (Inl e), Elapsed _) \<Rightarrow> Some (set_cell i c (Inl e) (put_permit s))
       | (AtJoin c (Inr rep), Elapsed d) \<Rightarrow>
           Some (set_cell i c (Inr \<lparr>wr_preparation = rep, wr_duration = d\<rparr>) (put_permit (count_report rep s)))
       | (AtJoin c _, DropRequest) \<Rightarrow> Some (goto i Abandoned (free_cell c (put_permit s)))
       | (Detached, Registration res) \<Rightarrow> Some (goto i Abandoned (registered i res s))
       | (AtRemove e, Proceed) \<Rightarrow>
           Some (goto i (Returned (Inl e)) (s\<lparr>wt_map := AList.delete (wt_keys s ! i) (wt_map s)\<rparr>))
       | _ \<Rightarrow> None))"

text \<open>Runs: which inputs the world gives is restricted by \<open>allowed\<close>.\<close>

definition warm_exec :: "(nat \<Rightarrow> warm_input \<Rightarrow> bool) \<Rightarrow> warmups \<Rightarrow> warmups \<Rightarrow> bool" where
  "warm_exec allowed s t \<longleftrightarrow> (\<exists>i x. allowed i x \<and> warm_step i x s = Some t)"

fun warm_run :: "(nat \<times> warm_input) list \<Rightarrow> warmups \<Rightarrow> warmups option" where
  "warm_run [] s = Some s"
| "warm_run ((i, x) # script) s =
     (case warm_step i x s of None \<Rightarrow> None | Some t \<Rightarrow> warm_run script t)"

end
