(* ===== verification/Garage_Warmup_Inv.thy ===== *)
theory Garage_Warmup_Inv
  imports Garage_Warmup
begin

section \<open>The invariant of the warm-up table\<close>

text \<open>
  What holds in every state that concurrent warm-ups reach: a cell is held by one call and calls of one
  cell ask for one key, permits are neither lost nor made, a successful answer means a registered
  artifact, and a failed cell that is still in the table has a call on its way to remove it.
\<close>

subsection \<open>What a program counter holds\<close>

fun holds :: "warm_pc \<Rightarrow> nat option" where
  "holds (AtCheck c) = Some c"
| "holds (AtPermit c) = Some c"
| "holds (AtOpen c) = Some c"
| "holds (AtRemote c) = Some c"
| "holds (AtRegister c) = Some c"
| "holds (AtJoin c _) = Some c"
| "holds _ = None"

fun at_cell :: "warm_pc \<Rightarrow> nat option" where
  "at_cell (AtCell c) = Some c"
| "at_cell pc = holds pc"

fun has_permit :: "warm_pc \<Rightarrow> bool" where
  "has_permit (AtOpen _) \<longleftrightarrow> True"
| "has_permit (AtRemote _) \<longleftrightarrow> True"
| "has_permit (AtRegister _) \<longleftrightarrow> True"
| "has_permit (AtJoin _ _) \<longleftrightarrow> True"
| "has_permit _ \<longleftrightarrow> False"

text \<open>How far a call is from its end.\<close>

fun pc_rank :: "warm_pc \<Rightarrow> nat" where
  "pc_rank AtMap = 10"
| "pc_rank (AtCell _) = 9"
| "pc_rank (AtCheck _) = 8"
| "pc_rank (AtPermit _) = 7"
| "pc_rank (AtOpen _) = 6"
| "pc_rank (AtRemote _) = 5"
| "pc_rank (AtRegister _) = 4"
| "pc_rank (AtJoin _ _) = 3"
| "pc_rank Detached = 2"
| "pc_rank (AtRemove _) = 1"
| "pc_rank _ = 0"

fun is_removing :: "warm_pc \<Rightarrow> bool" where
  "is_removing (AtRemove _) \<longleftrightarrow> True"
| "is_removing _ \<longleftrightarrow> False"

lemma holds_at_cell: "holds pc = Some c \<Longrightarrow> at_cell pc = Some c"
  by (cases pc) auto

lemma holds_not_removing: "holds pc = Some c \<Longrightarrow> \<not> is_removing pc"
  by (cases pc) auto

lemma after_cell_simps [simp]:
  "holds (after_cell r) = None" "at_cell (after_cell r) = None" "has_permit (after_cell r) = False"
  by (cases r; simp add: after_cell_def)+

subsection \<open>Steps by cases\<close>

lemma goto_simps [simp]:
  "wt_keys (goto i pc s) = wt_keys s" "wt_pcs (goto i pc s) = (wt_pcs s)[i := pc]" "wt_map (goto i pc s) = wt_map s"
  "wt_cells (goto i pc s) = wt_cells s" "wt_permits (goto i pc s) = wt_permits s" "wt_prepared (goto i pc s) = wt_prepared s"
  by (simp_all add: goto_def)

text \<open>
  The steps fall into ten kinds, by what they do to the cell of the call: the cases every invariant is
  proved by.
\<close>

lemma count_report_simps [simp]:
  "wt_keys (count_report rep s) = wt_keys s" "wt_pcs (count_report rep s) = wt_pcs s" "wt_map (count_report rep s) = wt_map s"
  "wt_cells (count_report rep s) = wt_cells s" "wt_permits (count_report rep s) = wt_permits s"
  "wt_prepared (count_report rep s) = wt_prepared s"
  by (simp_all add: count_report_def Let_def split: CompiledCacheSource.split)

definition same_table :: "warmups \<Rightarrow> warmups \<Rightarrow> bool" where
  "same_table s t \<longleftrightarrow> wt_keys t = wt_keys s \<and> wt_map t = wt_map s \<and> wt_cells t = wt_cells s
    \<and> wt_has_paddock t = wt_has_paddock s"

inductive warm_move :: "nat \<Rightarrow> warmups \<Rightarrow> warmups \<Rightarrow> bool" for i :: nat and s :: warmups where
  join_entry: "wt_pcs s ! i = AtMap \<Longrightarrow> map_of (wt_map s) (wt_keys s ! i) = Some c \<Longrightarrow> warm_move i s (goto i (AtCell c) s)"
| new_entry: "wt_pcs s ! i = AtMap \<Longrightarrow> map_of (wt_map s) (wt_keys s ! i) = None \<Longrightarrow> warm_move i s (take_entry i s)"
| take_cell: "wt_pcs s ! i = AtCell c \<Longrightarrow> wt_cells s ! c = CellEmpty \<Longrightarrow>
    warm_move i s (goto i (AtCheck c) (s\<lparr>wt_cells := (wt_cells s)[c := CellHeld]\<rparr>))"
| read_cell: "wt_pcs s ! i = AtCell c \<Longrightarrow> wt_cells s ! c = CellSet r \<Longrightarrow> warm_move i s (goto i (after_cell r) s)"
| leave_cell: "wt_pcs s ! i = AtCell c \<Longrightarrow> warm_move i s (goto i Abandoned s)"
| to_permit: "wt_pcs s ! i = AtCheck c \<Longrightarrow> wt_keys s ! i \<notin> set (wt_prepared s) \<Longrightarrow> warm_move i s (goto i (AtPermit c) s)"
| get_permit: "wt_pcs s ! i = AtPermit c \<Longrightarrow> wt_permits s = Suc n \<Longrightarrow>
    warm_move i s (goto i (AtOpen c) (s\<lparr>wt_permits := n\<rparr>))"
| with_permit: "holds (wt_pcs s ! i) = Some c \<Longrightarrow> has_permit (wt_pcs s ! i) \<Longrightarrow> (\<And>d e. pc \<noteq> AtJoin d e) \<Longrightarrow>
    holds pc = Some c \<Longrightarrow> has_permit pc \<Longrightarrow> pc_rank pc < pc_rank (wt_pcs s ! i) \<Longrightarrow> same_table s u \<Longrightarrow> wt_pcs u = wt_pcs s \<Longrightarrow> wt_permits u = wt_permits s \<Longrightarrow>
    wt_prepared u = wt_prepared s \<Longrightarrow> warm_move i s (goto i pc u)"
| finish_register: "wt_pcs s ! i = AtRegister c \<Longrightarrow> warm_move i s (goto i (AtJoin c res) (registered i res s))"
| finish_cell: "holds (wt_pcs s ! i) = Some c \<Longrightarrow> same_table s u \<Longrightarrow> wt_pcs u = wt_pcs s \<Longrightarrow>
    wt_permits u = wt_permits s + of_bool (has_permit (wt_pcs s ! i)) \<Longrightarrow> wt_prepared u = wt_prepared s \<Longrightarrow>
    (case r of Inl _ \<Rightarrow> has_permit (wt_pcs s ! i) | Inr _ \<Rightarrow> wt_keys s ! i \<in> set (wt_prepared s)
       \<or> (\<exists>rep. wt_pcs s ! i = AtJoin c (Inr rep))) \<Longrightarrow> warm_move i s (set_cell i c r u)"
| drop_cell: "holds (wt_pcs s ! i) = Some c \<Longrightarrow> same_table s u \<Longrightarrow> wt_pcs u = wt_pcs s \<Longrightarrow>
    wt_permits u = wt_permits s + of_bool (has_permit (wt_pcs s ! i)) \<Longrightarrow> wt_prepared u = wt_prepared s \<Longrightarrow>
    pc = Abandoned \<or> pc = Detached \<Longrightarrow> warm_move i s (goto i pc (free_cell c u))"
| finish_detached: "wt_pcs s ! i = Detached \<Longrightarrow> warm_move i s (goto i Abandoned (registered i res s))"
| remove_entry: "wt_pcs s ! i = AtRemove e \<Longrightarrow>
    warm_move i s (goto i (Returned (Inl e)) (s\<lparr>wt_map := AList.delete (wt_keys s ! i) (wt_map s)\<rparr>))"

lemma same_table_simps [simp]:
  "same_table s (put_permit s)" "same_table s (count_report rep s)" "same_table s s"
  "same_table s (put_permit (count_report rep s))"
  "same_table s (s\<lparr>remote_acquisitions := n\<rparr>)" "same_table s (s\<lparr>preparations := n\<rparr>)"
  "same_table s (put_permit (s\<lparr>remote_acquisitions := n\<rparr>))"
  by (simp_all add: same_table_def put_permit_def count_report_def Let_def split: CompiledCacheSource.split)

lemma put_permit_simps [simp]:
  "wt_pcs (put_permit s) = wt_pcs s" "wt_permits (put_permit s) = Suc (wt_permits s)"
  "wt_prepared (put_permit s) = wt_prepared s" "wt_keys (put_permit s) = wt_keys s"
  by (simp_all add: put_permit_def)

lemma warm_step_in_range: "warm_step i x s = Some t \<Longrightarrow> i < length (wt_pcs s)"
  by (simp add: warm_step_def split: if_splits)

lemma entry_move: "wt_pcs s ! i = AtMap \<Longrightarrow> warm_move i s (take_entry i s)"
  using new_entry [of s i] join_entry [of s i]
  by (cases "map_of (wt_map s) (wt_keys s ! i)") (simp_all add: take_entry_def)

lemma warm_step_move:
  assumes "warm_step i x s = Some t"
  shows "warm_move i s t"
proof (cases "wt_pcs s ! i")
  case AtMap
  then show ?thesis
    using assms by (cases x) (auto simp: warm_step_def split: if_splits intro: entry_move)
next
  case (AtCell c)
  then show ?thesis
    using assms by (cases x) (auto simp: warm_step_def enter_cell_def split: if_splits once_cell.splits
        intro: take_cell read_cell leave_cell)
next
  case (AtCheck c)
  then show ?thesis
    using assms by (cases x) (auto simp: warm_step_def split: if_splits intro: to_permit finish_cell)
next
  case (AtPermit c)
  then show ?thesis
    using assms by (cases x) (auto simp: warm_step_def split: if_splits nat.splits intro: get_permit drop_cell)
next
  case (AtOpen c)
  then show ?thesis
    using assms by (cases x) (auto simp: warm_step_def count_preparation_def local_missing_def Let_def
        split: if_splits bool.splits intro!: with_permit finish_cell)
next
  case (AtRemote c)
  then show ?thesis
    using assms by (cases x) (auto simp: warm_step_def count_preparation_def split: if_splits sum.splits
        intro!: with_permit finish_cell drop_cell)
next
  case (AtRegister c)
  then show ?thesis
    using assms by (cases x) (auto simp: warm_step_def split: if_splits intro!: finish_register drop_cell)
next
  case (AtJoin c res)
  then show ?thesis
    using assms by (cases x; cases res) (auto simp: warm_step_def split: if_splits intro!: finish_cell drop_cell)
next
  case (AtRemove e)
  then show ?thesis
    using assms by (cases x) (auto simp: warm_step_def split: if_splits intro: remove_entry)
next
  case Detached
  then show ?thesis
    using assms by (cases x) (auto simp: warm_step_def split: if_splits intro: finish_detached)
qed (use assms in \<open>auto simp: warm_step_def split: if_splits\<close>)

subsection \<open>The invariant\<close>

text \<open>\<open>own\<close> gives each cell the digest it was made for; the code has it only in the table.\<close>

definition owner_ok :: "(nat \<Rightarrow> string) \<Rightarrow> warmups \<Rightarrow> bool" where
  "owner_ok own s \<longleftrightarrow> length (wt_keys s) = length (wt_pcs s)
     \<and> (\<forall>i<length (wt_pcs s). \<forall>c. at_cell (wt_pcs s ! i) = Some c \<longrightarrow> c < length (wt_cells s) \<and> own c = wt_keys s ! i)
     \<and> (\<forall>k c. map_of (wt_map s) k = Some c \<longrightarrow> c < length (wt_cells s) \<and> own c = k)"

definition holder_ok :: "warmups \<Rightarrow> bool" where
  "holder_ok s \<longleftrightarrow>
     (\<forall>i<length (wt_pcs s). \<forall>c. holds (wt_pcs s ! i) = Some c \<longrightarrow> wt_cells s ! c = CellHeld)
     \<and> (\<forall>i<length (wt_pcs s). \<forall>j<length (wt_pcs s). holds (wt_pcs s ! i) \<noteq> None \<longrightarrow>
          holds (wt_pcs s ! i) = holds (wt_pcs s ! j) \<longrightarrow> i = j)
     \<and> (\<forall>c<length (wt_cells s). wt_cells s ! c = CellHeld \<longrightarrow> (\<exists>i<length (wt_pcs s). holds (wt_pcs s ! i) = Some c))"

definition permits_ok :: "nat \<Rightarrow> warmups \<Rightarrow> bool" where
  "permits_ok budget s \<longleftrightarrow> wt_permits s + cnt has_permit (wt_pcs s) = budget"

definition answers_ok :: "(nat \<Rightarrow> string) \<Rightarrow> warmups \<Rightarrow> bool" where
  "answers_ok own s \<longleftrightarrow>
     (\<forall>i<length (wt_pcs s). \<forall>r. wt_pcs s ! i = Returned (Inr r) \<longrightarrow> wt_keys s ! i \<in> set (wt_prepared s))
     \<and> (\<forall>i<length (wt_pcs s). \<forall>c r. wt_pcs s ! i = AtJoin c (Inr r) \<longrightarrow> wt_keys s ! i \<in> set (wt_prepared s))
     \<and> (\<forall>c<length (wt_cells s). \<forall>r. wt_cells s ! c = CellSet (Inr r) \<longrightarrow> own c \<in> set (wt_prepared s))"

definition failures_ok :: "(nat \<Rightarrow> string) \<Rightarrow> warmups \<Rightarrow> bool" where
  "failures_ok own s \<longleftrightarrow>
     (\<forall>k c e. map_of (wt_map s) k = Some c \<longrightarrow> wt_cells s ! c = CellSet (Inl e) \<longrightarrow>
        (\<exists>i<length (wt_pcs s). is_removing (wt_pcs s ! i) \<and> wt_keys s ! i = k))"

definition warm_inv :: "nat \<Rightarrow> warmups \<Rightarrow> bool" where
  "warm_inv budget s \<longleftrightarrow> permits_ok budget s
     \<and> (\<exists>own. owner_ok own s \<and> holder_ok s \<and> answers_ok own s \<and> failures_ok own s)"

text \<open>The owner of a new cell.\<close>

definition own_step :: "nat \<Rightarrow> warmups \<Rightarrow> (nat \<Rightarrow> string) \<Rightarrow> nat \<Rightarrow> string" where
  "own_step i s own =
     (if wt_pcs s ! i = AtMap \<and> map_of (wt_map s) (wt_keys s ! i) = None
      then own(length (wt_cells s) := wt_keys s ! i) else own)"

lemmas table_simps = same_table_def take_entry_def set_cell_def free_cell_def registered_def

lemma own_step_same: "wt_pcs s ! i \<noteq> AtMap \<Longrightarrow> own_step i s own = own"
  by (simp add: own_step_def)

lemma owner_step:
  assumes "warm_move i s t" and "i < length (wt_pcs s)" and "owner_ok own s"
  shows "owner_ok (own_step i s own) t"
  using assms
proof (cases rule: warm_move.cases)
  case new_entry
  then show ?thesis
    using assms by (auto simp: owner_ok_def own_step_def table_simps update_conv' nth_list_update less_Suc_eq split: if_splits)
next
  case (join_entry c)
  then show ?thesis using assms by (auto simp: owner_ok_def own_step_def nth_list_update)
next
  case (take_cell c)
  then show ?thesis using assms by (auto simp: owner_ok_def own_step_same nth_list_update)
next
  case (finish_cell c u r)
  then have "wt_pcs s ! i \<noteq> AtMap" by auto
  then show ?thesis using assms finish_cell
    by (auto simp: owner_ok_def own_step_same table_simps nth_list_update)
next
  case (drop_cell c u pc)
  then have "wt_pcs s ! i \<noteq> AtMap" by auto
  then show ?thesis using assms drop_cell
    by (auto simp: owner_ok_def own_step_same table_simps nth_list_update)
next
  case (with_permit c pc u)
  then have "wt_pcs s ! i \<noteq> AtMap" by auto
  moreover have "at_cell pc = Some c" "at_cell (wt_pcs s ! i) = Some c" using with_permit holds_at_cell by auto
  ultimately show ?thesis using assms with_permit
    by (auto simp: owner_ok_def own_step_same table_simps nth_list_update)
next
  case (remove_entry e)
  then show ?thesis using assms by (auto simp: owner_ok_def own_step_same delete_conv' nth_list_update split: if_splits)
qed (use assms in \<open>auto simp: owner_ok_def own_step_same table_simps nth_list_update split: sum.splits\<close>)

text \<open>
  A call alone with its cell: what a step does to the holders when it changes the cell of the call to
  \<open>x\<close> and its program counter to \<open>pc\<close>.
\<close>

lemma holder_ok_change:
  assumes "holder_ok s" and "i < length (wt_pcs s)" and "c < length (wt_cells s)"
    and alone: "holds (wt_pcs s ! i) = Some c \<or> holds (wt_pcs s ! i) = None \<and> wt_cells s ! c = CellEmpty"
    and "wt_pcs t = (wt_pcs s)[i := pc]" and "wt_cells t = (wt_cells s)[c := x]"
    and "holds pc = (if x = CellHeld then Some c else None)"
  shows "holder_ok t"
proof -
  have others: "holds (wt_pcs s ! j) \<noteq> Some c" if "j < length (wt_pcs s)" "j \<noteq> i" for j
    using alone assms(1-2) that unfolding holder_ok_def by (metis option.discI once_cell.distinct(1))
  have "\<forall>d<length (wt_cells t). wt_cells t ! d = CellHeld \<longrightarrow> (\<exists>j<length (wt_pcs t). holds (wt_pcs t ! j) = Some d)"
  proof (intro allI impI)
    fix d assume d: "d < length (wt_cells t)" "wt_cells t ! d = CellHeld"
    show "\<exists>j<length (wt_pcs t). holds (wt_pcs t ! j) = Some d"
    proof (cases "d = c")
      case True
      then show ?thesis using assms(2,3,5-7) d by (auto intro: exI [of _ i])
    next
      case False
      then obtain j where j: "j < length (wt_pcs s)" "holds (wt_pcs s ! j) = Some d"
        using assms(1,6) d unfolding holder_ok_def by auto
      then have "j \<noteq> i" using alone False by auto
      then show ?thesis using j assms(5) by (auto intro: exI [of _ j])
    qed
  qed
  moreover have "\<forall>j<length (wt_pcs t). \<forall>d. holds (wt_pcs t ! j) = Some d \<longrightarrow> wt_cells t ! d = CellHeld"
    using assms(1-3,5-7) others unfolding holder_ok_def by (auto simp: nth_list_update split: if_splits)
  moreover have "\<forall>j<length (wt_pcs t). \<forall>k<length (wt_pcs t). holds (wt_pcs t ! j) \<noteq> None \<longrightarrow>
      holds (wt_pcs t ! j) = holds (wt_pcs t ! k) \<longrightarrow> j = k"
    using assms(1,2,5,7) others unfolding holder_ok_def
    by (auto simp: nth_list_update split: if_splits) (metis option.discI)+
  ultimately show ?thesis unfolding holder_ok_def by blast
qed

text \<open>A step that leaves the cells alone, except for new empty ones, and keeps what the call holds.\<close>

lemma holder_ok_keep:
  assumes "holder_ok s" and "i < length (wt_pcs s)" and "wt_pcs t = (wt_pcs s)[i := pc]"
    and "wt_cells t = wt_cells s @ replicate n CellEmpty" and "holds pc = holds (wt_pcs s ! i)"
    and "\<forall>j<length (wt_pcs s). \<forall>c. holds (wt_pcs s ! j) = Some c \<longrightarrow> c < length (wt_cells s)"
  shows "holder_ok t"
proof -
  have held: "holds (wt_pcs t ! j) = holds (wt_pcs s ! j)" if "j < length (wt_pcs s)" for j
    using assms(2,3,5) by (auto simp: nth_list_update)
  then show ?thesis
    using assms(1,4,6) length_list_update [of "wt_pcs s" i pc, folded assms(3)] unfolding holder_ok_def
    by (simp add: nth_append) metis
qed

lemma holder_step:
  assumes "warm_move i s t" and "i < length (wt_pcs s)" and "owner_ok own s" and "holder_ok s"
  shows "holder_ok t"
proof -
  have bound: "\<forall>j<length (wt_pcs s). \<forall>c. holds (wt_pcs s ! j) = Some c \<longrightarrow> c < length (wt_cells s)"
    and cell: "\<And>c. at_cell (wt_pcs s ! i) = Some c \<Longrightarrow> c < length (wt_cells s)"
    using assms(2,3) holds_at_cell unfolding owner_ok_def by blast+
  show ?thesis
    using assms(1)
  proof (cases rule: warm_move.cases)
    case new_entry
    then show ?thesis
      using holder_ok_keep [OF assms(4,2), of t "AtCell (length (wt_cells s))" 1] bound
      by (simp add: take_entry_def)
  next
    case (take_cell c)
    then show ?thesis using holder_ok_change [OF assms(4,2), of c t] cell by simp
  next
    case (finish_cell c u r)
    then show ?thesis using holder_ok_change [OF assms(4,2), of c t] cell holds_at_cell by (simp add: table_simps)
  next
    case (drop_cell c u pc)
    then show ?thesis using holder_ok_change [OF assms(4,2), of c t pc CellEmpty] cell holds_at_cell
      by (auto simp: table_simps)
  qed (use holder_ok_keep [OF assms(4,2), of t _ 0] bound in \<open>auto simp: table_simps split: sum.splits\<close>)
qed

lemma permits_step:
  assumes "warm_move i s t" and "i < length (wt_pcs s)" and "permits_ok budget s"
  shows "permits_ok budget t"
  using assms(1)
proof (cases rule: warm_move.cases)
  case (finish_detached res)
  then show ?thesis using assms(2,3) cnt_update [OF assms(2), of has_permit]
    by (auto simp: permits_ok_def table_simps split: sum.splits)
next
  case (with_permit c pc u)
  then show ?thesis using assms(3) cnt_update_same [OF assms(2), of has_permit pc] by (simp add: permits_ok_def)
next
  case (finish_register c res)
  then show ?thesis using assms(2,3) cnt_update [OF assms(2), of has_permit "AtJoin c res"]
    by (auto simp: permits_ok_def table_simps split: sum.splits)
qed (use assms(2,3) cnt_update [OF assms(2), of has_permit] in \<open>auto simp: permits_ok_def table_simps\<close>)

lemma prepared_grows: "warm_move i s t \<Longrightarrow> set (wt_prepared s) \<subseteq> set (wt_prepared t)"
  by (cases rule: warm_move.cases, assumption) (auto simp: table_simps split: sum.splits option.splits)

lemma update_other: "xs[c := x] ! d = y \<Longrightarrow> x \<noteq> y \<Longrightarrow> xs ! d = y"
  by (cases "c < length xs") (auto simp: nth_list_update list_update_beyond split: if_splits)

lemma answers_step:
  assumes "warm_move i s t" and "i < length (wt_pcs s)" and "owner_ok own s" and "answers_ok own s"
  shows "answers_ok (own_step i s own) t"
  using assms(1)
proof (cases rule: warm_move.cases)
  case new_entry
  then show ?thesis using assms(2-4)
    by (auto simp: answers_ok_def own_step_def table_simps nth_list_update nth_append less_Suc_eq)
next
  case (read_cell c r)
  then have "c < length (wt_cells s)" "own c = wt_keys s ! i" using assms(2,3) by (auto simp: owner_ok_def)
  then show ?thesis using assms(2,4) read_cell
    by (auto simp: answers_ok_def own_step_same after_cell_def nth_list_update split: sum.splits if_splits)
next
  case (finish_cell c u r)
  then have "c < length (wt_cells s)" "own c = wt_keys s ! i" "wt_pcs s ! i \<noteq> AtMap"
    using assms(2,3) holds_at_cell by (auto simp: owner_ok_def)
  moreover have "r = Inr rep \<Longrightarrow> wt_keys s ! i \<in> set (wt_prepared s)" for rep
    using finish_cell assms(2,4) by (auto simp: answers_ok_def)
  ultimately show ?thesis using assms(2,4) finish_cell
    by (auto simp: answers_ok_def own_step_same table_simps after_cell_def nth_list_update split: sum.splits if_splits)
next
  case (drop_cell c u pc)
  then have "wt_pcs s ! i \<noteq> AtMap" "c < length (wt_cells s)" using assms(2,3) holds_at_cell by (auto simp: owner_ok_def)
  then show ?thesis using assms(2,4) drop_cell
    by (auto simp: answers_ok_def own_step_same table_simps nth_list_update split: if_splits)
next
  case (with_permit c pc u)
  then have "wt_pcs s ! i \<noteq> AtMap" "\<And>r. pc \<noteq> Returned r" by auto
  then show ?thesis using assms(2,4) with_permit
    by (auto simp: answers_ok_def own_step_same table_simps nth_list_update split: if_splits)
next
  case (take_cell c)
  then show ?thesis using assms(2,4)
    by (auto simp: answers_ok_def own_step_same nth_list_update split: if_splits dest: update_other)
qed (use assms(2-4) in \<open>auto simp: answers_ok_def own_step_def table_simps nth_list_update split: sum.splits if_splits\<close>)

lemma failures_step:
  assumes "warm_move i s t" and "i < length (wt_pcs s)" and "owner_ok own s" and "failures_ok own s"
  shows "failures_ok (own_step i s own) t"
proof -
  have removing: "\<exists>j<length (wt_pcs s). is_removing (wt_pcs s ! j) \<and> wt_keys s ! j = k \<and> j \<noteq> i"
    if "map_of (wt_map s) k = Some c" "wt_cells s ! c = CellSet (Inl e)" "\<not> is_removing (wt_pcs s ! i)" for k c e
    using assms(4) that unfolding failures_ok_def by metis
  have kept: "\<exists>j<length ((wt_pcs s)[i := pc]). is_removing ((wt_pcs s)[i := pc] ! j) \<and> wt_keys s ! j = k"
    if "map_of (wt_map s) k = Some c" "wt_cells s ! c = CellSet (Inl e)" "\<not> is_removing (wt_pcs s ! i)" for k c e pc
    using removing [OF that] by (metis length_list_update nth_list_update_neq)
  have own: "own c = k" if "map_of (wt_map s) k = Some c" for k c using assms(3) that by (auto simp: owner_ok_def)
  show ?thesis
    using assms(1)
  proof (cases rule: warm_move.cases)
    case new_entry
    then show ?thesis using kept assms(3)
      by (auto simp: failures_ok_def take_entry_def update_conv' owner_ok_def nth_append split: if_splits)
  next
    case (finish_cell c u r)
    then have "\<not> is_removing (wt_pcs s ! i)" using holds_not_removing by auto
    moreover have "own c = wt_keys s ! i" "c < length (wt_cells s)"
      using finish_cell(2) assms(2,3) holds_at_cell by (auto simp: owner_ok_def)
    moreover have "wt_keys t = wt_keys s" "wt_map t = wt_map s" "wt_cells t = (wt_cells s)[c := CellSet r]"
      "wt_pcs t = (wt_pcs s)[i := after_cell r]"
      using finish_cell by (simp_all add: table_simps)
    moreover have "\<exists>j<length (wt_pcs t). is_removing (wt_pcs t ! j) \<and> wt_keys s ! j = k"
      if "map_of (wt_map s) k = Some d" "(wt_cells s)[c := CellSet r] ! d = CellSet (Inl e)" for k d e
    proof (cases "d = c")
      case True
      then have "r = Inl e" "wt_keys s ! i = k" using that own calculation by auto
      then show ?thesis using assms(2) calculation by (auto simp: after_cell_def intro!: exI [of _ i])
    next
      case False
      then show ?thesis using kept [of k d e "after_cell r"] that calculation by simp
    qed
    ultimately show ?thesis by (auto simp: failures_ok_def)
  next
    case (remove_entry e)
    then show ?thesis using assms(2,4)
      by (auto simp: failures_ok_def delete_conv' nth_list_update split: if_splits) (metis nth_list_update)
  next
    case (drop_cell c u pc)
    moreover from this have "\<not> is_removing (wt_pcs s ! i)" using holds_not_removing by auto
    ultimately show ?thesis using kept
      by (auto simp: failures_ok_def table_simps dest!: update_other)
  qed (use kept in \<open>auto simp: failures_ok_def table_simps split: if_splits sum.splits
      dest: holds_not_removing update_other\<close>)
qed

lemma warm_inv_new: "warm_inv (max n 1) (new_warmups n paddock prepared keys)"
  by (auto simp: warm_inv_def permits_ok_def owner_ok_def holder_ok_def answers_ok_def failures_ok_def new_warmups_def)

lemma warm_inv_step:
  assumes "warm_inv budget s" and "warm_exec allowed s t"
  shows "warm_inv budget t"
proof -
  obtain i x where "warm_step i x s = Some t" using assms(2) by (auto simp: warm_exec_def)
  then have step: "warm_move i s t" "i < length (wt_pcs s)" using warm_step_move warm_step_in_range by blast+
  then show ?thesis
    using assms(1) owner_step [OF step] holder_step [OF step] permits_step [OF step] answers_step [OF step]
      failures_step [OF step] unfolding warm_inv_def by blast
qed

subsection \<open>Ranks\<close>

definition warm_rank :: "warmups \<Rightarrow> nat" where
  "warm_rank s = sum_list (map pc_rank (wt_pcs s))"

fun pc_final :: "warm_pc \<Rightarrow> bool" where
  "pc_final (Returned _) \<longleftrightarrow> True"
| "pc_final Abandoned \<longleftrightarrow> True"
| "pc_final _ \<longleftrightarrow> False"

definition warm_final :: "warmups \<Rightarrow> bool" where
  "warm_final s \<longleftrightarrow> (\<forall>pc\<in>set (wt_pcs s). pc_final pc)"

text \<open>The world answers: it lets a call proceed, and every question has some answer.\<close>

definition world_answers :: "(nat \<Rightarrow> warm_input \<Rightarrow> bool) \<Rightarrow> bool" where
  "world_answers allowed \<longleftrightarrow> (\<forall>i. allowed i Proceed \<and> (\<exists>b. allowed i (LocalArtifact b)) \<and> (\<exists>r. allowed i (Acquisition r))
     \<and> (\<exists>r. allowed i (Registration r)) \<and> (\<exists>d. allowed i (Elapsed d)))"

lemma rank_goto:
  assumes "i < length (wt_pcs s)" and "wt_pcs t = (wt_pcs s)[i := pc]" and "pc_rank pc < pc_rank (wt_pcs s ! i)"
  shows "warm_rank t < warm_rank s"
  using assms sum_list_update_weight [OF assms(1), of pc_rank pc] by (simp add: warm_rank_def)

lemma pc_rank_after_cell: "pc_rank (after_cell r) \<le> 1"
  by (cases r) (simp_all add: after_cell_def)

lemma holds_rank: "holds pc = Some c \<Longrightarrow> 3 \<le> pc_rank pc"
  by (cases pc) auto

lemma warm_rank_step:
  assumes "warm_move i s t" and "i < length (wt_pcs s)"
  shows "warm_rank t < warm_rank s"
proof -
  have lt: "warm_rank u < warm_rank s" if "wt_pcs u = (wt_pcs s)[i := pc]" "pc_rank pc < pc_rank (wt_pcs s ! i)" for u pc
    using rank_goto [OF assms(2) that] .
  have after: "pc_rank (after_cell r) < n" if "2 \<le> n" for r n using pc_rank_after_cell [of r] that by simp
  have cell: "pc_rank (after_cell r) < pc_rank (wt_pcs s ! i)" "2 < pc_rank (wt_pcs s ! i)"
    if "holds (wt_pcs s ! i) = Some c" for r c using after holds_rank [OF that] by auto
  show ?thesis
    using assms(1)
  proof (cases rule: warm_move.cases)
    case (finish_detached res)
    then show ?thesis using lt [of t Abandoned] by (simp add: registered_def split: sum.splits)
  next
    case (finish_register c res)
    then show ?thesis using lt [of t "AtJoin c res"] by (simp add: registered_def split: sum.splits)
  next
    case (drop_cell c u pc)
    then show ?thesis using lt [of t pc] cell(2) by (auto simp: free_cell_def)
  qed (auto simp: set_cell_def take_entry_def after cell intro!: lt)
qed

text \<open>A call with a permit can go on; one that holds a cell can, or waits for the call with the permit.\<close>

lemma warm_step_answers:
  assumes "i < length (wt_pcs s)"
  shows "wt_pcs s ! i = AtOpen c \<Longrightarrow> warm_step i (LocalArtifact b) s \<noteq> None"
    and "wt_pcs s ! i = AtRemote c \<Longrightarrow> warm_step i (Acquisition acq) s \<noteq> None"
    and "wt_pcs s ! i = AtRegister c \<Longrightarrow> warm_step i (Registration res) s \<noteq> None"
    and "wt_pcs s ! i = AtJoin c res \<Longrightarrow> warm_step i (Elapsed d) s \<noteq> None"
    and "wt_pcs s ! i = Detached \<Longrightarrow> warm_step i (Registration res) s \<noteq> None"
  using assms by (simp_all add: warm_step_def split: bool.split sum.split)

lemma warm_exec_answer: "allowed i x \<Longrightarrow> warm_step i x s \<noteq> None \<Longrightarrow> \<exists>t. warm_exec allowed s t"
  unfolding warm_exec_def by blast

lemma permit_progress:
  assumes "world_answers allowed" and "i < length (wt_pcs s)" and "has_permit (wt_pcs s ! i)"
  shows "\<exists>t. warm_exec allowed s t"
proof -
  obtain b acq res d where "allowed i (LocalArtifact b)" "allowed i (Acquisition acq)" "allowed i (Registration res)"
    "allowed i (Elapsed d)"
    using assms(1) unfolding world_answers_def by blast
  note given = this [THEN warm_exec_answer [of allowed i]]
  show ?thesis
  proof (cases "wt_pcs s ! i")
    case (AtOpen c)
    then show ?thesis using given(1) warm_step_answers(1) [OF assms(2)] by blast
  next
    case (AtRemote c)
    then show ?thesis using given(2) warm_step_answers(2) [OF assms(2)] by blast
  next
    case (AtRegister c)
    then show ?thesis using given(3) warm_step_answers(3) [OF assms(2)] by blast
  next
    case (AtJoin c res)
    then show ?thesis using given(4) warm_step_answers(4) [OF assms(2)] by blast
  qed (use assms(3) in simp_all)
qed

lemma holder_progress:
  assumes "world_answers allowed" and "i < length (wt_pcs s)" and "holds (wt_pcs s ! i) = Some c"
    and "permits_ok budget s" and "0 < budget"
  shows "\<exists>t. warm_exec allowed s t"
proof (cases "has_permit (wt_pcs s ! i)")
  case True
  then show ?thesis using permit_progress [OF assms(1,2)] by blast
next
  case False
  obtain d where given: "allowed i (Elapsed d)" "allowed i Proceed" using assms(1) unfolding world_answers_def by blast
  show ?thesis
  proof (cases "wt_pcs s ! i = AtPermit c \<and> wt_permits s = 0")
    case True
    then obtain j where "j < length (wt_pcs s)" "has_permit (wt_pcs s ! j)"
      using assms(4,5) cnt_pos_iff [of has_permit "wt_pcs s"] by (auto simp: permits_ok_def)
    then show ?thesis using permit_progress [OF assms(1)] by blast
  next
    case False
    then have "\<exists>x t. x \<in> {Elapsed d, Proceed} \<and> warm_step i x s = Some t"
      using assms(2,3) \<open>\<not> has_permit (wt_pcs s ! i)\<close>
      by (cases "wt_pcs s ! i") (auto simp: warm_step_def split: nat.split)
    then show ?thesis using given unfolding warm_exec_def by auto
  qed
qed

lemma warm_progress:
  assumes "world_answers allowed" and "warm_inv budget s" and "0 < budget" and "\<not> warm_final s"
  shows "\<exists>t. warm_exec allowed s t"
proof -
  obtain own where ok: "permits_ok budget s" "owner_ok own s" "holder_ok s" using assms(2) by (auto simp: warm_inv_def)
  obtain i where i: "i < length (wt_pcs s)" "\<not> pc_final (wt_pcs s ! i)"
    using assms(4) by (auto simp: warm_final_def in_set_conv_nth)
  obtain res where given: "allowed i Proceed" "allowed i (Registration res)" using assms(1) unfolding world_answers_def by blast
  show ?thesis
  proof (cases "\<exists>j<length (wt_pcs s). holds (wt_pcs s ! j) \<noteq> None")
    case True
    then show ?thesis using holder_progress [OF assms(1)] ok(1) assms(3) by blast
  next
    case False
    have "\<exists>x t. x \<in> {Proceed, Registration res} \<and> warm_step i x s = Some t"
    proof (cases "wt_pcs s ! i")
      case (AtCell c)
      then have "c < length (wt_cells s)" using i(1) ok(2) by (auto simp: owner_ok_def)
      then have "wt_cells s ! c \<noteq> CellHeld" using False ok(3) by (auto simp: holder_ok_def)
      then show ?thesis using AtCell i(1) by (auto simp: warm_step_def enter_cell_def split: once_cell.split)
    qed (use False i in \<open>auto simp: warm_step_def\<close>)
    then show ?thesis using given unfolding warm_exec_def by auto
  qed
qed

subsection \<open>The interpretations\<close>

definition warm_start :: "nat \<Rightarrow> warmups \<Rightarrow> bool" where
  "warm_start n s \<longleftrightarrow> (\<exists>paddock prepared keys. s = new_warmups n paddock prepared keys)"

interpretation warm_sys: invariant_system "warm_start n" "warm_exec allowed" "warm_inv (max n 1)"
  for n allowed
  by unfold_locales (auto simp: warm_start_def warm_inv_new [simplified] intro: warm_inv_step)

interpretation warm_live: ranked_system
  "\<lambda>s. warm_start n s \<and> world_answers allowed" "warm_exec allowed"
  "\<lambda>s. warm_inv (max n 1) s \<and> world_answers allowed" warm_rank warm_final
  for n allowed
proof unfold_locales
  fix s t
  show "warm_inv (max n 1) s \<and> world_answers allowed" if "warm_start n s \<and> world_answers allowed"
    using that warm_sys.inv_init by blast
  show "warm_inv (max n 1) t \<and> world_answers allowed"
    if "warm_inv (max n 1) s \<and> world_answers allowed" "warm_exec allowed s t"
    using that warm_inv_step by blast
  show "warm_rank t < warm_rank s" if "warm_exec allowed s t"
    using that warm_rank_step warm_step_move warm_step_in_range unfolding warm_exec_def by blast
  show "\<exists>t. warm_exec allowed s t" if "warm_inv (max n 1) s \<and> world_answers allowed" "\<not> warm_final s"
    using that warm_progress [of allowed "max n 1" s] by auto
qed

end
