(* ===== verification/Garage_Warmup_Claims.thy ===== *)
theory Garage_Warmup_Claims
  imports Garage_Warmup_Inv
begin

section \<open>What warming up promises\<close>

text \<open>
  What concurrent warm-ups of any digests guarantee in every order of their steps: a successful answer
  means a prepared artifact, the budget bounds the preparations, a failure is not kept, one preparation
  serves all calls while nothing fails, and the calls end. With failures two preparations of one digest
  can run at once.
\<close>

definition warm_reached :: "nat \<Rightarrow> bool \<Rightarrow> string list \<Rightarrow> string list \<Rightarrow> (nat \<Rightarrow> warm_input \<Rightarrow> bool) \<Rightarrow> warmups \<Rightarrow> bool" where
  "warm_reached n paddock prepared keys allowed s \<longleftrightarrow>
     (warm_exec allowed)\<^sup>*\<^sup>* (new_warmups n paddock prepared keys) s"

lemma warm_reached_inv: "warm_reached n paddock prepared keys allowed s \<Longrightarrow> warm_inv (max n 1) s"
  using warm_sys.inv_reachable [of n "new_warmups n paddock prepared keys" allowed s]
  unfolding warm_reached_def warm_start_def by blast

lemma warm_run_exec: "warm_run script s = Some t \<Longrightarrow> (\<forall>(i, x)\<in>set script. allowed i x) \<Longrightarrow> (warm_exec allowed)\<^sup>*\<^sup>* s t"
proof (induction script s rule: warm_run.induct)
  case (2 i x script s)
  then obtain u where "warm_step i x s = Some u" "warm_run script u = Some t" by (auto split: option.splits)
  with 2 have "warm_exec allowed s u" "(warm_exec allowed)\<^sup>*\<^sup>* u t" unfolding warm_exec_def by auto
  then show ?case by (rule converse_rtranclp_into_rtranclp)
qed simp

lemma warm_exec_keys: "warm_exec allowed s t \<Longrightarrow> wt_keys t = wt_keys s \<and> length (wt_pcs t) = length (wt_pcs s)"
  unfolding warm_exec_def
  by (auto dest!: warm_step_move elim!: warm_move.cases simp: table_simps split: sum.splits option.splits)

lemma warm_reached_keys:
  assumes "warm_reached n paddock prepared keys allowed s"
  shows "wt_keys s = keys" and "length (wt_pcs s) = length keys"
proof -
  have "(warm_exec allowed)\<^sup>*\<^sup>* (new_warmups n paddock prepared keys) s \<Longrightarrow> wt_keys s = keys \<and> length (wt_pcs s) = length keys"
    by (induction rule: rtranclp_induct) (auto simp: new_warmups_def dest: warm_exec_keys)
  then show "wt_keys s = keys" and "length (wt_pcs s) = length keys" using assms unfolding warm_reached_def by auto
qed

subsection \<open>Runs without failures\<close>

definition world_succeeds :: "bool \<Rightarrow> (nat \<Rightarrow> warm_input \<Rightarrow> bool) \<Rightarrow> bool" where
  "world_succeeds paddock allowed \<longleftrightarrow>
     (\<forall>i e. \<not> allowed i (Acquisition (Inl e)) \<and> \<not> allowed i (Registration (Inl e)))
     \<and> (paddock \<or> (\<forall>i. \<not> allowed i (LocalArtifact False)))"

text \<open>No trace of a failure.\<close>

fun clean_pc :: "warm_pc \<Rightarrow> bool" where
  "clean_pc (AtRemove _) \<longleftrightarrow> False"
| "clean_pc (Returned (Inl _)) \<longleftrightarrow> False"
| "clean_pc (AtJoin _ (Inl _)) \<longleftrightarrow> False"
| "clean_pc _ \<longleftrightarrow> True"

definition warm_clean :: "warmups \<Rightarrow> bool" where
  "warm_clean s \<longleftrightarrow> (\<forall>pc\<in>set (wt_pcs s). clean_pc pc) \<and> (\<forall>e. CellSet (Inl e) \<notin> set (wt_cells s))"

lemma warm_clean_update:
  assumes "warm_clean s" and "wt_pcs t = (wt_pcs s)[i := pc]" and "clean_pc pc"
    and "set (wt_cells t) \<subseteq> insert x (set (wt_cells s))" and "\<forall>e. x \<noteq> CellSet (Inl e)"
  shows "warm_clean t"
  using assms set_update_subset_insert [of "wt_pcs s" i pc] unfolding warm_clean_def by fastforce

lemma warm_clean_goto:
  "warm_clean s \<Longrightarrow> clean_pc pc \<Longrightarrow> warm_clean (goto i pc s)"
  by (rule warm_clean_update [of s _ i pc CellEmpty]) auto

lemma warm_clean_permits: "warm_clean (s\<lparr>wt_permits := n\<rparr>) = warm_clean s"
  and warm_clean_registered: "warm_clean (registered i res s) = warm_clean s"
  by (simp_all add: warm_clean_def registered_def split: sum.split)

lemma clean_finish:
  assumes "world_succeeds (wt_has_paddock s) allowed" and "allowed i x" and "warm_step i x s = Some t"
    and "i < length (wt_pcs s)" and "clean_pc (wt_pcs s ! i)"
    and "r = Inl e \<Longrightarrow> has_permit (wt_pcs s ! i)" and "wt_pcs t ! i = after_cell r"
  shows "r \<noteq> Inl e"
proof
  assume "r = Inl e"
  then have "wt_pcs t ! i = AtRemove e" "has_permit (wt_pcs s ! i)" using assms(6,7) by (simp_all add: after_cell_def)
  then show False
    using assms(1-5)
    by (cases "wt_pcs s ! i") (auto simp: warm_step_def world_succeeds_def set_cell_def after_cell_def local_missing_def
        count_preparation_def Let_def free_cell_def registered_def split: warm_input.splits sum.splits bool.splits if_splits)
qed

lemma warm_clean_step:
  assumes "world_succeeds (wt_has_paddock s) allowed" and "allowed i x" and "warm_step i x s = Some t"
    and "warm_clean s" and "owner_ok own s"
  shows "warm_clean t"
proof -
  have i: "i < length (wt_pcs s)" using assms(3) by (rule warm_step_in_range)
  then have cell: "c < length (wt_cells s)" if "at_cell (wt_pcs s ! i) = Some c" for c using assms(5) that by (auto simp: owner_ok_def)
  have clean_i: "clean_pc (wt_pcs s ! i)" using assms(4) i by (auto simp: warm_clean_def)
  note upd = warm_clean_update [OF assms(4), of t i] set_update_subset_insert [of "wt_cells s"]
  show ?thesis
    using warm_step_move [OF assms(3)]
  proof (cases rule: warm_move.cases)
    case new_entry
    then show ?thesis by (intro upd(1) [of _ CellEmpty]) (auto simp: take_entry_def)
  next
    case (read_cell c r)
    then have "r \<noteq> Inl e" for e using assms(4) cell [of c] nth_mem [of c "wt_cells s"] by (auto simp: warm_clean_def)
    then obtain rep where "r = Inr rep" by (cases r) auto
    then show ?thesis using read_cell by (intro upd(1) [of "Returned (Inr rep)" CellEmpty]) (auto simp: after_cell_def)
  next
    case (take_cell c)
    then show ?thesis using upd by (intro upd(1) [of _ CellHeld]) auto
  next
    case (finish_cell c u r)
    have "wt_pcs t ! i = after_cell r" using finish_cell i by (simp add: set_cell_def)
    then have "r \<noteq> Inl e" for e
      using finish_cell by (intro clean_finish [OF assms(1-3) i clean_i]) auto
    then obtain rep where "r = Inr rep" by (cases r) auto
    then show ?thesis using finish_cell upd(2)
      by (intro upd(1) [of "after_cell r" "CellSet r"]) (auto simp: table_simps after_cell_def)
  next
    case (drop_cell c u pc)
    then show ?thesis using upd(2) by (intro upd(1) [of pc CellEmpty]) (auto simp: table_simps)
  next
    case (with_permit c pc u)
    then have "clean_pc pc" by (cases pc) auto
    then show ?thesis using with_permit by (intro upd(1) [of pc CellEmpty]) (auto simp: table_simps)
  next
    case (finish_register c res)
    then have "wt_pcs t ! i = AtJoin c res" using i by (simp add: registered_def split: sum.split)
    then have "clean_pc (AtJoin c res)"
      using assms(1-3) i finish_register(2)
      by (cases x; cases res) (auto simp: warm_step_def world_succeeds_def free_cell_def registered_def split: sum.splits)
    then show ?thesis using finish_register by (intro upd(1) [of "AtJoin c res" CellEmpty]) (auto simp: table_simps split: sum.splits)
  next
    case (remove_entry e)
    then show ?thesis using clean_i by simp
  qed (use assms(4) in \<open>auto intro!: warm_clean_goto simp: warm_clean_permits warm_clean_registered\<close>)
qed

text \<open>Without failures a cell stays in the table, so all calls of a digest meet at one cell.\<close>

definition one_cell :: "warmups \<Rightarrow> bool" where
  "one_cell s \<longleftrightarrow>
     (\<forall>i<length (wt_pcs s). \<forall>c. at_cell (wt_pcs s ! i) = Some c \<longrightarrow> map_of (wt_map s) (wt_keys s ! i) = Some c)
     \<and> (\<forall>i<length (wt_pcs s). \<forall>rep. wt_pcs s ! i = Returned (Inr rep) \<longrightarrow>
          (\<exists>c. map_of (wt_map s) (wt_keys s ! i) = Some c \<and> wt_cells s ! c = CellSet (Inr rep)))"

lemma one_cell_change:
  assumes "one_cell s" and "i < length (wt_pcs s)" and "map_of (wt_map s) (wt_keys s ! i) = Some c"
    and "wt_pcs t = (wt_pcs s)[i := pc]" and "wt_cells t = (wt_cells s)[c := x]" and "wt_map t = wt_map s"
    and "wt_keys t = wt_keys s" and "c < length (wt_cells s)"
    and "at_cell pc = Some c \<or> at_cell pc = None" and "\<forall>rep. pc = Returned (Inr rep) \<longrightarrow> x = CellSet (Inr rep)"
    and "\<forall>rep. wt_cells s ! c = CellSet (Inr rep) \<longrightarrow> x = CellSet (Inr rep)"
  shows "one_cell t"
proof -
  have cell: "map_of (wt_map t) (wt_keys t ! j) = Some d"
    if "j < length (wt_pcs t)" "at_cell (wt_pcs t ! j) = Some d" for j d
    using assms(1-4,6,7,9) that unfolding one_cell_def by (cases "j = i") auto
  have answer: "\<exists>d. map_of (wt_map t) (wt_keys t ! j) = Some d \<and> wt_cells t ! d = CellSet (Inr rep)"
    if "j < length (wt_pcs t)" "wt_pcs t ! j = Returned (Inr rep)" for j rep
  proof (cases "j = i")
    case True
    then show ?thesis using assms(2-8,10) that by auto
  next
    case False
    then have "j < length (wt_pcs s)" "wt_pcs s ! j = Returned (Inr rep)" using assms(4) that by auto
    then obtain d where "map_of (wt_map s) (wt_keys s ! j) = Some d" "wt_cells s ! d = CellSet (Inr rep)"
      using assms(1) unfolding one_cell_def by blast
    then show ?thesis using assms(5-8,11) by (cases "d = c") auto
  qed
  show ?thesis using cell answer unfolding one_cell_def by blast
qed

lemma one_cell_new_entry:
  assumes "one_cell s" and "i < length (wt_pcs s)" and "owner_ok own s"
    and "wt_pcs s ! i = AtMap" and "map_of (wt_map s) (wt_keys s ! i) = None"
  shows "one_cell (take_entry i s)"
proof -
  have "map_of (wt_map s) (wt_keys s ! j) \<noteq> None"
    if "j < length (wt_pcs s)" "at_cell (wt_pcs s ! j) \<noteq> None \<or> (\<exists>rep. wt_pcs s ! j = Returned (Inr rep))" for j
    using assms(1) that unfolding one_cell_def by (metis option.distinct(1) option.exhaust)
  then show ?thesis using assms
    by (auto simp: one_cell_def owner_ok_def take_entry_def update_conv' nth_list_update nth_append split: if_splits)
      (metis option.distinct(1))+
qed

lemma one_cell_step:
  assumes "warm_move i s t" and "i < length (wt_pcs s)" and "owner_ok own s" and "holder_ok s"
    and "warm_clean s" and "warm_clean t" and "one_cell s"
  shows "one_cell t"
proof -
  have cell: "c < length (wt_cells s)" "map_of (wt_map s) (wt_keys s ! i) = Some c" if "at_cell (wt_pcs s ! i) = Some c" for c
    using assms(2,3,7) that by (auto simp: owner_ok_def one_cell_def)
  have held: "wt_cells s ! c = CellHeld" if "holds (wt_pcs s ! i) = Some c" for c
    using assms(2,4) that by (auto simp: holder_ok_def)
  note change = one_cell_change [OF assms(7,2)]
  show ?thesis
    using assms(1)
  proof (cases rule: warm_move.cases)
    case (join_entry c)
    then have "c < length (wt_cells s)" using assms(3) by (auto simp: owner_ok_def)
    then show ?thesis using join_entry by (intro change [of c t "AtCell c" "wt_cells s ! c"]) auto
  next
    case new_entry
    then show ?thesis using one_cell_new_entry [OF assms(7,2,3)] by blast
  next
    case (take_cell c)
    then show ?thesis using cell [of c] by (intro change [of c t "AtCheck c" CellHeld]) auto
  next
    case (read_cell c r)
    then show ?thesis using cell [of c] by (intro change [of c t "after_cell r" "wt_cells s ! c"])
        (auto simp: after_cell_def list_update_same_conv [THEN iffD2, symmetric] split: sum.splits)
  next
    case (leave_cell c)
    then show ?thesis using cell [of c] by (intro change [of c t Abandoned "wt_cells s ! c"]) auto
  next
    case (to_permit c)
    then show ?thesis using cell [of c] by (intro change [of c t "AtPermit c" "wt_cells s ! c"]) auto
  next
    case (get_permit c n)
    then show ?thesis using cell [of c] by (intro change [of c t "AtOpen c" "wt_cells s ! c"]) auto
  next
    case (with_permit c pc u)
    then show ?thesis using cell [of c] holds_at_cell
      by (intro change [of c t pc "wt_cells s ! c"]) (auto simp: table_simps)
  next
    case (finish_register c res)
    then show ?thesis using cell [of c]
      by (intro change [of c t "AtJoin c res" "wt_cells s ! c"]) (auto simp: table_simps split: sum.splits)
  next
    case (finish_cell c u r)
    then show ?thesis using cell [of c] holds_at_cell held
      by (intro change [of c t "after_cell r" "CellSet r"]) (auto simp: table_simps after_cell_def split: sum.splits)
  next
    case (drop_cell c u pc)
    then show ?thesis using cell [of c] holds_at_cell held
      by (intro change [of c t pc CellEmpty]) (auto simp: table_simps)
  next
    case (finish_detached res)
    then show ?thesis using assms(2,7)
      by (auto simp: one_cell_def table_simps nth_list_update split: sum.splits)
  next
    case (remove_entry e)
    then show ?thesis using assms(2,5) nth_mem [of i "wt_pcs s"] by (auto simp: warm_clean_def)
  qed
qed

lemma warm_exec_paddock: "warm_exec allowed s t \<Longrightarrow> wt_has_paddock t = wt_has_paddock s"
  unfolding warm_exec_def
  by (auto dest!: warm_step_move elim!: warm_move.cases simp: table_simps goto_def split: sum.splits option.splits)

interpretation flight_sys: invariant_system
  "\<lambda>s. warm_start n s \<and> world_succeeds (wt_has_paddock s) allowed" "warm_exec allowed"
  "\<lambda>s. warm_inv (max n 1) s \<and> world_succeeds (wt_has_paddock s) allowed \<and> warm_clean s \<and> one_cell s"
  for n allowed
proof unfold_locales
  fix s t
  show "warm_inv (max n 1) s \<and> world_succeeds (wt_has_paddock s) allowed \<and> warm_clean s \<and> one_cell s"
    if "warm_start n s \<and> world_succeeds (wt_has_paddock s) allowed"
    using that warm_sys.inv_init
    by (auto simp: warm_start_def warm_clean_def one_cell_def new_warmups_def)
  show "warm_inv (max n 1) t \<and> world_succeeds (wt_has_paddock t) allowed \<and> warm_clean t \<and> one_cell t"
    if s: "warm_inv (max n 1) s \<and> world_succeeds (wt_has_paddock s) allowed \<and> warm_clean s \<and> one_cell s"
      and step: "warm_exec allowed s t"
  proof -
    obtain i x where x: "allowed i x" "warm_step i x s = Some t" using step by (auto simp: warm_exec_def)
    obtain own where own: "owner_ok own s" "holder_ok s" using s by (auto simp: warm_inv_def)
    have "warm_clean t" using warm_clean_step [of s allowed i x t own] x s own(1) by blast
    moreover have "one_cell t"
      using one_cell_step [OF warm_step_move [OF x(2)] warm_step_in_range [OF x(2)] own] s \<open>warm_clean t\<close> by blast
    ultimately show ?thesis using s warm_inv_step [OF _ step] warm_exec_paddock [OF step] by simp
  qed
qed

lemma warm_reached_flight:
  assumes "warm_reached n paddock prepared keys allowed s" and "world_succeeds paddock allowed"
  shows "holder_ok s" and "warm_clean s" and "one_cell s"
  using flight_sys.inv_reachable [of n "new_warmups n paddock prepared keys" allowed s] assms
  unfolding warm_reached_def warm_start_def warm_inv_def by (auto simp: new_warmups_def)

lemma prepared_stays: "(warm_exec allowed)\<^sup>*\<^sup>* s t \<Longrightarrow> set (wt_prepared s) \<subseteq> set (wt_prepared t)"
proof (induction rule: rtranclp_induct)
  case (step t u)
  then show ?case unfolding warm_exec_def using prepared_grows warm_step_move by blast
qed simp

subsection \<open>The properties\<close>

text \<open>A successful warm-up means a prepared artifact. In every order of the steps of any number of
  calls, with any answers of the world and any requests dropped, a call that has returned a report finds
  its digest in the registry of the dispatcher, then and in every later state.\<close>

theorem warmup_sound:
  assumes "warm_reached n paddock prepared keys allowed s" and "(warm_exec allowed)\<^sup>*\<^sup>* s t"
    and "i < length keys" and "wt_pcs s ! i = Returned (Inr rep)"
  shows "keys ! i \<in> set (wt_prepared t)"
proof -
  have "keys ! i \<in> set (wt_prepared s)"
    using warm_reached_inv [OF assms(1)] warm_reached_keys [OF assms(1)] assms(3,4)
    by (auto simp: warm_inv_def answers_ok_def)
  then show ?thesis using prepared_stays [OF assms(2)] by blast
qed

text \<open>Two calls for one digest: the first prepares it, the second reads the cell.\<close>

definition two_calls :: "(nat \<times> warm_input) list" where
  "two_calls = [(0, Proceed), (1, Proceed), (0, Proceed), (0, Elapsed 1), (0, Proceed), (0, LocalArtifact True),
     (0, Registration (Inr default_report)), (0, Elapsed 7), (1, Proceed)]"

lemmas warm_run_simps = new_warmups_def warm_step_def take_entry_def enter_cell_def count_preparation_def local_missing_def
  set_cell_def registered_def put_permit_def count_report_def after_cell_def goto_def free_cell_def Let_def hot_report_def
  eval_nat_numeral

lemma two_calls_run:
  "\<exists>s. warm_run two_calls (new_warmups 2 False [] [''a'', ''a'']) = Some s
    \<and> wt_pcs s = [Returned (Inr \<lparr>wr_preparation = default_report, wr_duration = 7\<rparr>),
                  Returned (Inr \<lparr>wr_preparation = default_report, wr_duration = 7\<rparr>)]"
  by (simp add: two_calls_def warm_run_simps default_report_def)

abbreviation calm :: "nat \<Rightarrow> warm_input \<Rightarrow> bool" where
  "calm \<equiv> (\<lambda>i x. (\<forall>e. x \<noteq> Acquisition (Inl e) \<and> x \<noteq> Registration (Inl e)) \<and> x \<noteq> LocalArtifact False)"

lemma two_calls_reached:
  "\<exists>s. warm_reached 2 False [] [''a'', ''a''] calm s
    \<and> wt_pcs s = [Returned (Inr \<lparr>wr_preparation = default_report, wr_duration = 7\<rparr>),
                  Returned (Inr \<lparr>wr_preparation = default_report, wr_duration = 7\<rparr>)]"
  using two_calls_run warm_run_exec [of two_calls _ _ calm] unfolding warm_reached_def
  by (fastforce simp: two_calls_def)

theorem warmup_sound_witness:
  "\<exists>s. warm_reached 2 False [] [''a'', ''a''] calm s \<and> ''a'' \<in> set (wt_prepared s)"
proof -
  obtain s where s: "warm_reached 2 False [] [''a'', ''a''] calm s"
    "wt_pcs s ! 0 = Returned (Inr \<lparr>wr_preparation = default_report, wr_duration = 7\<rparr>)"
    using two_calls_reached by auto
  from warmup_sound [OF s(1) rtranclp.rtrancl_refl, of 0] s show ?thesis by auto
qed





text \<open>C24: a failure is not kept. Once all calls have returned or been dropped, the cell the table has for a
  digest is free, or it has the report of a warm-up whose artifact is in the registry; so the next call
  for a digest that failed tries again.\<close>

theorem warmup_failure_retried:
  assumes "warm_reached n paddock prepared keys allowed s" and "warm_final s" and "map_of (wt_map s) k = Some c"
  shows "wt_cells s ! c = CellEmpty \<or> (\<exists>rep. wt_cells s ! c = CellSet (Inr rep)) \<and> k \<in> set (wt_prepared s)"
proof -
  obtain own where ok: "owner_ok own s" "holder_ok s" "answers_ok own s" "failures_ok own s"
    using warm_reached_inv [OF assms(1)] by (auto simp: warm_inv_def)
  have idle: "holds pc = None \<and> \<not> is_removing pc" if "pc \<in> set (wt_pcs s)" for pc
    using assms(2) that by (cases pc) (auto simp: warm_final_def)
  have c: "c < length (wt_cells s)" "own c = k" using ok(1) assms(3) by (auto simp: owner_ok_def)
  then have "wt_cells s ! c \<noteq> CellHeld" using ok(2) idle unfolding holder_ok_def by (metis nth_mem option.distinct(1))
  moreover have "wt_cells s ! c \<noteq> CellSet (Inl e)" for e
    using ok(4) idle assms(3) unfolding failures_ok_def by (metis nth_mem)
  ultimately show ?thesis using ok(3) c unfolding answers_ok_def
    by (cases "wt_cells s ! c"; metis sum.exhaust)
qed

definition one_failure :: "(nat \<times> warm_input) list" where
  "one_failure = [(0, Proceed), (0, Proceed), (0, Elapsed 1), (0, Proceed), (0, LocalArtifact False), (0, Proceed),
     (1, Proceed), (1, Proceed), (1, Elapsed 2), (1, Proceed), (1, LocalArtifact True), (1, DropRequest),
     (1, Registration (Inl ''x''))]"

theorem warmup_failure_retried_witness:
  "\<exists>s. warm_reached 1 False [] [''a'', ''a''] (\<lambda>_ _. True) s \<and> warm_final s \<and> map_of (wt_map s) ''a'' = Some 1
    \<and> (wt_cells s ! 1 = CellEmpty \<or> (\<exists>rep. wt_cells s ! 1 = CellSet (Inr rep)) \<and> ''a'' \<in> set (wt_prepared s))"
proof -
  obtain s where run: "warm_run one_failure (new_warmups 1 False [] [''a'', ''a'']) = Some s"
    and s: "warm_final s" "map_of (wt_map s) ''a'' = Some 1"
    by (simp add: one_failure_def warm_run_simps warm_final_def)
  then have "warm_reached 1 False [] [''a'', ''a''] (\<lambda>_ _. True) s"
    unfolding warm_reached_def by (intro warm_run_exec) auto
  with warmup_failure_retried [OF this s] s show ?thesis by blast
qed

text \<open>Warm-ups end. If the world answers every question, a run of any number of calls takes at most ten
  steps for each, and from every state it reaches it can go on until every call has returned or was
  dropped; a run that cannot go on is over.\<close>

theorem warmup_terminates:
  assumes "world_answers allowed" and "(warm_exec allowed ^^ m) (new_warmups n paddock prepared keys) s"
  shows "m \<le> 10 * length keys \<and> (\<exists>t. (warm_exec allowed)\<^sup>*\<^sup>* s t \<and> warm_final t)
    \<and> ((\<forall>t. \<not> warm_exec allowed s t) \<longrightarrow> warm_final s)"
proof -
  have start: "warm_inv (max n 1) (new_warmups n paddock prepared keys) \<and> world_answers allowed"
    using warm_inv_new assms(1) by simp
  then have s: "warm_inv (max n 1) s \<and> world_answers allowed" using warm_live.inv_relpow assms(2) by blast
  have "warm_rank (new_warmups n paddock prepared keys) = 10 * length keys"
    by (simp add: warm_rank_def new_warmups_def sum_list_replicate)
  then have "m \<le> 10 * length keys" using warm_live.run_length [OF start assms(2)] by simp
  then show ?thesis using warm_live.reaches_final [OF s] warm_live.stuck_final [OF s] by blast
qed

theorem warmup_terminates_witness:
  "world_answers (\<lambda>_ _. True) \<and> (\<exists>t. (warm_exec (\<lambda>_ _. True))\<^sup>*\<^sup>* (new_warmups 1 True [] [''a'', ''b'']) t \<and> warm_final t)"
proof -
  have "world_answers (\<lambda>_ _. True)" by (simp add: world_answers_def)
  with warmup_terminates [OF this, of 0 1 True "[]" "[''a'', ''b'']"] show ?thesis by simp
qed

definition late_removal :: "(nat \<times> warm_input) list" where
  "late_removal =
     [(0, Proceed), (1, Proceed), (0, Proceed), (0, Elapsed 1), (0, Proceed), (0, LocalArtifact False), (1, Proceed),
      (0, Proceed), (2, Proceed), (2, Proceed), (2, Elapsed 2), (2, Proceed), (2, LocalArtifact True),
      (1, Proceed), (3, Proceed), (3, Proceed), (3, Elapsed 3), (3, Proceed), (3, LocalArtifact True)]"

text \<open>After a failure two preparations of one digest can run at once. A call that reads a failed cell
  late removes whatever cell the table has by then, also the new one of a retry under way, and the next
  call starts a second preparation beside it.\<close>

theorem late_removal_duplicates:
  "\<exists>s. warm_reached 2 False [] [''a'', ''a'', ''a'', ''a''] (\<lambda>_ _. True) s
    \<and> wt_pcs s ! 2 = AtRegister 1 \<and> wt_pcs s ! 3 = AtRegister 2"
proof -
  obtain s where run: "warm_run late_removal (new_warmups 2 False [] [''a'', ''a'', ''a'', ''a'']) = Some s"
    and s: "wt_pcs s ! 2 = AtRegister 1 \<and> wt_pcs s ! 3 = AtRegister 2"
    by (simp add: late_removal_def warm_run_simps)
  have "warm_reached 2 False [] [''a'', ''a'', ''a'', ''a''] (\<lambda>_ _. True) s"
    unfolding warm_reached_def using run by (intro warm_run_exec) auto
  then show ?thesis using s by blast
qed

text \<open>A request dropped while its artifact is registered gives its permit back, but the registration goes
  on: with a budget of one, two registrations run at once.\<close>

definition dropped_registration :: "(nat \<times> warm_input) list" where
  "dropped_registration =
     [(0, Proceed), (0, Proceed), (0, Elapsed 1), (0, Proceed), (0, LocalArtifact True), (0, DropRequest),
      (1, Proceed), (1, Proceed), (1, Elapsed 1), (1, Proceed), (1, LocalArtifact True)]"

lemma dropped_registration_over_budget:
  "\<exists>s. warm_reached 1 False [] [''a'', ''b''] (\<lambda>_ _. True) s \<and> wt_pcs s = [Detached, AtRegister 1]"
proof -
  obtain s where run: "warm_run dropped_registration (new_warmups 1 False [] [''a'', ''b'']) = Some s"
    and s: "wt_pcs s = [Detached, AtRegister 1]"
    by (simp add: dropped_registration_def warm_run_simps)
  have "warm_reached 1 False [] [''a'', ''b''] (\<lambda>_ _. True) s"
    unfolding warm_reached_def using run by (intro warm_run_exec) auto
  then show ?thesis using s by blast
qed

end
