(* ===== verification/Garage_Agent.thy ===== *)
theory Garage_Agent
  imports Garage_Warmup Rt_Service Rt_Paddock Pit_Dispatch
begin

section \<open>The Garage agent\<close>

text \<open>
  \<^verbatim>\<open>apps/pit-garage/src/main.rs\<close> around the warm-up: the construction of the agent, its
  session with the Circuit, the execution of a remote request, the HTTP routes, and the invoker that
  passes nested calls of a guest on to the PitLane. The types of the wire protocol are those of
  \<^verbatim>\<open>pit-circuit-core\<close> as far as the code uses them; the other end of a connection, the file
  system, serde and the parsers of identifiers are parameters.
\<close>

subsection \<open>The agent\<close>

type_synonym GarageId = string

record GarageAgent =
  ag_id :: GarageId
  ag_endpoint :: string
  ag_circuit_endpoint :: string
  ag_pitlane_endpoint :: string
  ag_paddock_name :: string
  ag_paddock_grants :: "PaddockGrant list"
  ag_pending :: nat \<comment> \<open>permits of the admission semaphore\<close>
  ag_session :: "string option"
  ag_max_invocation_depth :: u16
  ag_executions :: nat
  ag_preparation_budget :: nat

record Args =
  arg_id :: GarageId
  arg_listen :: string
  arg_loopback :: bool \<comment> \<open>whether the address is a loopback address\<close>
  arg_circuit :: string
  arg_pitlane :: string
  arg_paddock :: string
  arg_max_pending :: nat
  arg_max_invocation_depth :: u16
  arg_max_preparations :: nat
  arg_paddock_namespace :: "string option"

text \<open>
  What else construction does: roots, Paddock configuration, clients and dispatcher, each of which can
  fail, come first (\<open>setup\<close>) or after (\<open>runtime\<close>) the grants.
\<close>

record agent_world =
  setup_error :: "string option"
  runtime_error :: "string option"
  parse_namespace :: "string \<Rightarrow> string + string"
  full_grant :: "string \<Rightarrow> PaddockGrant"

definition trim_end_slash :: "string \<Rightarrow> string" where
  "trim_end_slash s = rev (dropWhile (\<lambda>c. c = CHR ''/'') (rev s))"

definition new_agent :: "agent_world \<Rightarrow> Args \<Rightarrow> string + GarageAgent" where
  "new_agent w args =
     (case setup_error w of Some e \<Rightarrow> Inl e | None \<Rightarrow>
     (case (case arg_paddock_namespace args of
              None \<Rightarrow> Inr []
            | Some ns \<Rightarrow> map_sum id (\<lambda>n. [full_grant w n]) (parse_namespace w ns)) of
        Inl e \<Rightarrow> Inl e
      | Inr grants \<Rightarrow>
     (case runtime_error w of Some e \<Rightarrow> Inl e | None \<Rightarrow>
        Inr \<lparr>ag_id = arg_id args, ag_endpoint = arg_listen args,
             ag_circuit_endpoint = trim_end_slash (arg_circuit args),
             ag_pitlane_endpoint = trim_end_slash (arg_pitlane args),
             ag_paddock_name = arg_paddock args, ag_paddock_grants = grants,
             ag_pending = arg_max_pending args, ag_session = None,
             ag_max_invocation_depth = arg_max_invocation_depth args, ag_executions = 0,
             ag_preparation_budget = max (arg_max_preparations args) 1\<rparr>)))"

definition check_listen :: "Args \<Rightarrow> string + unit" where
  "check_listen args =
     (if arg_loopback args then Inr () else Inl ''Garage listener must be loopback-only in v0.9'')"

subsection \<open>Artifacts a Garage reports\<close>

text \<open>The part of a file name behind its last dot, if there is something before the dot.\<close>

definition split_last_dot :: "string \<Rightarrow> (string \<times> string) option" where
  "split_last_dot name =
     (let ext = rev (takeWhile (\<lambda>c. c \<noteq> CHR ''.'') (rev name));
          stem = rev (drop 1 (dropWhile (\<lambda>c. c \<noteq> CHR ''.'') (rev name)))
      in if stem = [] \<or> name = ''..'' then None else Some (stem, ext))"

text \<open>
  The artifact store on disk: \<open>None\<close> for a directory that cannot be read, and the names of the entries
  otherwise. A digest that does not parse is passed over.
\<close>

definition wasm_digest :: "(string \<Rightarrow> 'd option) \<Rightarrow> string \<Rightarrow> 'd option" where
  "wasm_digest parse name =
     (case split_last_dot name of
        Some (stem, ext) \<Rightarrow> if ext = ''wasm'' then parse (''sha256:'' @ stem) else None
      | None \<Rightarrow> None)"

definition local_digests :: "(string \<Rightarrow> 'd::linorder option) \<Rightarrow> string list option list option \<Rightarrow> 'd list" where
  "local_digests parse root =
     (case root of
        None \<Rightarrow> []
      | Some prefixes \<Rightarrow>
          remdups_adj (sort (List.map_filter (wasm_digest parse)
            (concat (map (\<lambda>files. case files of Some names \<Rightarrow> names | None \<Rightarrow> []) prefixes)))))"

definition prepared_digests :: "(string \<Rightarrow> 'd option) \<Rightarrow> PitHttpDispatcher \<Rightarrow> 'd list" where
  "prepared_digests parse d = List.map_filter parse (prepared_keys d)"

definition garage_warm_digests ::
  "(string \<Rightarrow> 'd option) \<Rightarrow> cache_env \<Rightarrow> cache_fs \<Rightarrow> PitHttpDispatcher \<Rightarrow> 'd list" where
  "garage_warm_digests parse env fs d = List.map_filter parse (warm_keys env fs d)"

subsection \<open>The session with the Circuit\<close>

datatype RuntimeContract = WasiHttpProxy | OtherContract string

record GarageCapabilities =
  cap_architecture :: string
  cap_runtime_contracts :: "RuntimeContract list"
  cap_lane_capacity :: nat

record RegisterGarageRequest =
  reg_garage_id :: GarageId
  reg_endpoint :: string
  reg_capabilities :: GarageCapabilities

text \<open>
  What sending a request ends in: an error, a status that is no success with the text the code reports (the
  body for a registration, the status displayed otherwise), a body that does not parse, or the body.
\<close>

datatype 'a http_reply = SendFailed string | Refused nat string | BodyInvalid string | Replied 'a

definition capabilities :: "string \<Rightarrow> PitHttpDispatcher \<Rightarrow> GarageCapabilities" where
  "capabilities arch d =
     \<lparr>cap_architecture = arch, cap_runtime_contracts = [WasiHttpProxy], cap_lane_capacity = execution_lanes d\<rparr>"

definition registration_request :: "string \<Rightarrow> PitHttpDispatcher \<Rightarrow> GarageAgent \<Rightarrow> RegisterGarageRequest" where
  "registration_request arch d a =
     \<lparr>reg_garage_id = ag_id a, reg_endpoint = ag_endpoint a, reg_capabilities = capabilities arch d\<rparr>"

definition register_garage ::
  "(RegisterGarageRequest \<Rightarrow> string http_reply) \<Rightarrow> string \<Rightarrow> PitHttpDispatcher \<Rightarrow> GarageAgent
    \<Rightarrow> (string + unit) \<times> GarageAgent" where
  "register_garage circuit arch d a =
     (case circuit (registration_request arch d a) of
        SendFailed _ \<Rightarrow> (Inl ''Circuit registration request failed'', a)
      | Refused _ reason \<Rightarrow> (Inl (''Circuit registration rejected: '' @ reason), a)
      | BodyInvalid e \<Rightarrow> (Inl e, a)
      | Replied session \<Rightarrow> (Inr (), a\<lparr>ag_session := Some session\<rparr>))"

record 'd HeartbeatRequest =
  hb_session_id :: string
  hb_total_lanes :: usize
  hb_active_lanes :: usize
  hb_free_lanes :: nat
  hb_queue_depth :: usize
  hb_accepting :: bool
  hb_local_artifacts :: "'d list"
  hb_prepared_artifacts :: "'d list"
  hb_warm_artifacts :: "'d list"
  hb_hot_artifacts :: "'d list"
  hb_capabilities :: GarageCapabilities

text \<open>\<^verbatim>\<open>live.lane_count.saturating_sub(live.running)\<close>\<close>

definition free_lanes :: "SchedulerSnapshot \<Rightarrow> nat" where
  "free_lanes live = unat (snap_lane_count live) - unat (snap_running live)"

definition heartbeat_request ::
  "string \<Rightarrow> string \<Rightarrow> 'd list \<Rightarrow> 'd list \<Rightarrow> 'd list \<Rightarrow> PitHttpDispatcher \<Rightarrow> GarageAgent \<Rightarrow> 'd HeartbeatRequest" where
  "heartbeat_request arch session local_ds prepared_ds warm_ds d a =
     (let live = scheduler_snapshot d in
      \<lparr>hb_session_id = session, hb_total_lanes = snap_lane_count live, hb_active_lanes = snap_running live,
       hb_free_lanes = free_lanes live, hb_queue_depth = snap_queued live, hb_accepting = 0 < ag_pending a,
       hb_local_artifacts = local_ds, hb_prepared_artifacts = prepared_ds, hb_warm_artifacts = warm_ds,
       hb_hot_artifacts = prepared_ds, hb_capabilities = capabilities arch d\<rparr>)"

definition heartbeat ::
  "('d HeartbeatRequest \<Rightarrow> unit http_reply) \<Rightarrow> string \<Rightarrow> 'd list \<Rightarrow> 'd list \<Rightarrow> 'd list \<Rightarrow> PitHttpDispatcher \<Rightarrow> GarageAgent
    \<Rightarrow> string + unit" where
  "heartbeat circuit arch local_ds prepared_ds warm_ds d a =
     (case ag_session a of
        None \<Rightarrow> Inl ''Garage is not registered''
      | Some session \<Rightarrow>
          (case circuit (heartbeat_request arch session local_ds prepared_ds warm_ds d a) of
             SendFailed e \<Rightarrow> Inl e
           | Refused status reason \<Rightarrow> Inl (''Circuit heartbeat rejected with '' @ reason)
           | _ \<Rightarrow> Inr ()))"

text \<open>One turn of the heartbeat task; its only effect on the agent is a new session.\<close>

definition heartbeat_turn ::
  "('d HeartbeatRequest \<Rightarrow> unit http_reply) \<Rightarrow> (RegisterGarageRequest \<Rightarrow> string http_reply) \<Rightarrow> string
    \<Rightarrow> 'd list \<Rightarrow> 'd list \<Rightarrow> 'd list \<Rightarrow> PitHttpDispatcher \<Rightarrow> GarageAgent \<Rightarrow> GarageAgent" where
  "heartbeat_turn hb reg arch local_ds prepared_ds warm_ds d a =
     (case heartbeat hb arch local_ds prepared_ds warm_ds d a of
        Inr _ \<Rightarrow> a
      | Inl _ \<Rightarrow> snd (register_garage reg arch d a))"

text \<open>The report of \<^verbatim>\<open>GET /v1/runtime\<close>; the counters of the warm-up are those of its table.\<close>

record ('d, 'f) RuntimeReport =
  ru_garage_id :: GarageId
  ru_total_lanes :: usize
  ru_active_lanes :: usize
  ru_free_lanes :: nat
  ru_queue_depth :: usize
  ru_grid_utilization :: 'f
  ru_local_artifacts :: "'d list"
  ru_warm_artifacts :: "'d list"
  ru_prepared_artifacts :: "'d list"
  ru_hot_artifacts :: "'d list"
  ru_remote_acquisitions :: nat
  ru_preparations :: nat
  ru_compilations :: nat
  ru_warm_restores :: nat
  ru_cache_publications :: nat
  ru_executions :: nat

definition runtime_report ::
  "'f floats \<Rightarrow> instant \<Rightarrow> 'd list \<Rightarrow> 'd list \<Rightarrow> 'd list \<Rightarrow> PitHttpDispatcher \<Rightarrow> warmups \<Rightarrow> GarageAgent
    \<Rightarrow> ('d, 'f) RuntimeReport" where
  "runtime_report fl now local_ds prepared_ds warm_ds d w a =
     (let live = scheduler_snapshot d in
      \<lparr>ru_garage_id = ag_id a, ru_total_lanes = snap_lane_count live, ru_active_lanes = snap_running live,
       ru_free_lanes = free_lanes live, ru_queue_depth = snap_queued live,
       ru_grid_utilization = dispatcher_utilization fl now d, ru_local_artifacts = local_ds,
       ru_warm_artifacts = warm_ds, ru_prepared_artifacts = prepared_ds, ru_hot_artifacts = prepared_ds,
       ru_remote_acquisitions = remote_acquisitions w, ru_preparations = preparations w,
       ru_compilations = compilations w, ru_warm_restores = warm_restores w,
       ru_cache_publications = cache_publications w, ru_executions = ag_executions a\<rparr>)"

end
