(* ===== verification/Garage_Execute.thy ===== *)
theory Garage_Execute
  imports Garage_Agent
begin

section \<open>Remote executions on a Garage\<close>

text \<open>
  \<^verbatim>\<open>GarageAgent::execute\<close>, \<^verbatim>\<open>handle\<close> and \<^verbatim>\<open>GarageServiceInvoker::invoke\<close> of
  \<^verbatim>\<open>apps/pit-garage/src/main.rs\<close>. A request passes its checks, takes an admission permit, waits
  for the warm-up and runs on the dispatcher; every outcome is a response.
\<close>

subsection \<open>The wire types\<close>

record RemotePayload =
  pl_method :: string
  pl_path_and_query :: string
  pl_headers :: "(string \<times> string) list"
  pl_body :: string

record RemoteExecutionRequest =
  rq_protocol_version :: nat
  rq_execution_id :: string
  rq_runtime_contract :: RuntimeContract
  rq_artifact_digest :: string
  rq_source_paddock :: "string option"
  rq_payload :: RemotePayload
  rq_visited_garages :: "GarageId list"
  rq_invocation_depth :: u16
  rq_application_id :: "string option"
  rq_release_id :: "string option"

datatype RemoteExecutionError =
    UnsupportedProtocol
  | UnsupportedRuntime
  | InvocationCycle
  | Overloaded
  | ArtifactUnavailable
  | GuestFailure
  | Timeout
  | Internal

text \<open>Microseconds.\<close>

record RemoteExecutionTiming =
  preparation_us :: nat
  compile_us :: nat
  restore_us :: nat
  prepared_lookup_us :: nat
  scheduler_queue_us :: nat
  guest_started_us :: nat
  guest_execution_us :: nat
  total_us :: nat

record RemoteExecutionResponse =
  rp_protocol_version :: nat
  rp_accepted :: bool
  rp_started :: bool
  rp_execution_id :: string
  rp_garage_id :: GarageId
  rp_lane_id :: "nat option"
  rp_guest_status :: "nat option"
  rp_headers :: "(string \<times> string) list"
  rp_body :: string
  rp_timing :: "RemoteExecutionTiming option"
  rp_error :: "RemoteExecutionError option"
  rp_error_message :: "string option"

subsection \<open>Execution\<close>

definition failure :: "RemoteExecutionResponse \<Rightarrow> RemoteExecutionError \<Rightarrow> string \<Rightarrow> RemoteExecutionResponse" where
  "failure response e msg = response\<lparr>rp_error := Some e, rp_error_message := Some msg\<rparr>"

definition failure_started :: "RemoteExecutionResponse \<Rightarrow> RemoteExecutionError \<Rightarrow> string \<Rightarrow> RemoteExecutionResponse" where
  "failure_started response e msg = failure (response\<lparr>rp_accepted := True, rp_started := True\<rparr>) e msg"

definition base_response :: "nat \<Rightarrow> GarageAgent \<Rightarrow> RemoteExecutionRequest \<Rightarrow> RemoteExecutionResponse" where
  "base_response version a rq =
     \<lparr>rp_protocol_version = version, rp_accepted = False, rp_started = False, rp_execution_id = rq_execution_id rq,
      rp_garage_id = ag_id a, rp_lane_id = None, rp_guest_status = None, rp_headers = [], rp_body = [],
      rp_timing = None, rp_error = None, rp_error_message = None\<rparr>"

text \<open>The checks, in their order, and the permit: a rejection, or the agent with a permit less.\<close>

definition admit ::
  "nat \<Rightarrow> RemoteExecutionRequest \<Rightarrow> GarageAgent \<Rightarrow> RemoteExecutionResponse + GarageAgent" where
  "admit version rq a =
     (let base = base_response version a rq in
      if rq_protocol_version rq \<noteq> version
      then Inl (failure base UnsupportedProtocol ''unsupported remote protocol'')
      else if rq_runtime_contract rq \<noteq> WasiHttpProxy
      then Inl (failure base UnsupportedRuntime ''Garage currently executes wasi:http/proxy remotely'')
      else if list_ex (\<lambda>g. g = ag_id a) (rq_visited_garages rq)
      then Inl (failure base InvocationCycle ''Garage already appears in invocation path'')
      else if 16 < rq_invocation_depth rq
      then Inl (failure base InvocationCycle ''maximum invocation depth exceeded'')
      else (case ag_pending a of
              0 \<Rightarrow> Inl (failure base Overloaded ''Garage admission limit exceeded'')
            | Suc n \<Rightarrow> Inr (a\<lparr>ag_pending := n\<rparr>)))"

definition release_permit :: "GarageAgent \<Rightarrow> GarageAgent" where
  "release_permit a = a\<lparr>ag_pending := Suc (ag_pending a)\<rparr>"

definition guest_request :: "GarageAgent \<Rightarrow> RemoteExecutionRequest \<Rightarrow> HttpRequest" where
  "guest_request a rq =
     \<lparr>hq_method = pl_method (rq_payload rq), hq_path_and_query = pl_path_and_query (rq_payload rq),
      hq_headers = pl_headers (rq_payload rq), hq_body = pl_body (rq_payload rq), hq_env = [], hq_allowed_tcp = [],
      hq_source_garage_id = Some (ag_id a), hq_visited_garages = rq_visited_garages rq @ [ag_id a],
      hq_application_id = rq_application_id rq, hq_release_id = rq_release_id rq,
      hq_paddock_grants = ag_paddock_grants a\<rparr>"

text \<open>
  With the capability of the agent, a backend that does not change; credentials of a gateway are for the
  PitLane and absent here.
\<close>

definition garage_call ::
  "('b, 'w) paddock_backend option \<Rightarrow> GarageAgent \<Rightarrow> RemoteExecutionRequest \<Rightarrow> ('b, 'w) HttpCall" where
  "garage_call object_paddock a rq =
     HttpRequest.extend (guest_request a rq) (HttpCall.fields object_paddock None)"

definition timing_of :: "WarmupReport \<Rightarrow> HttpDispatchResult \<Rightarrow> duration \<Rightarrow> RemoteExecutionTiming" where
  "timing_of warm result elapsed =
     \<lparr>preparation_us = micros (wr_duration warm), compile_us = micros (pr_compile_duration (wr_preparation warm)),
      restore_us = micros (pr_restore_duration (wr_preparation warm)),
      prepared_lookup_us = micros (hd_prepared_lookup result), scheduler_queue_us = micros (hd_queued_for result),
      guest_started_us = micros (hd_guest_started_after_request result),
      guest_execution_us = micros (hd_duration result), total_us = micros elapsed\<rparr>"

text \<open>The identifier as the release build shows it, where the increment wraps.\<close>

definition shown_id :: "ExecutionId \<Rightarrow> string" where
  "shown_id e = (case display_execution_id False e of Some s \<Rightarrow> s | None \<Rightarrow> [])"

text \<open>The response to a finished dispatch.\<close>

definition finished_response ::
  "RemoteExecutionResponse \<Rightarrow> WarmupReport \<Rightarrow> HttpDispatchResult \<Rightarrow> duration \<Rightarrow> RemoteExecutionResponse" where
  "finished_response base warm result elapsed =
     (let response = base\<lparr>rp_accepted := True, rp_started := True,
            rp_execution_id := shown_id (hd_execution_id result),
            rp_lane_id := Some (lane_num (hd_lane_id result))\<rparr>;
          response = (case hd_response result of
              Some value \<Rightarrow> response\<lparr>rp_guest_status := Some (http_status value), rp_headers := http_headers value,
                rp_body := http_body value\<rparr>
            | None \<Rightarrow> response\<lparr>rp_error := Some (case hd_error result of
                  Some e \<Rightarrow> if contains ''timeout'' e then Timeout else GuestFailure
                | None \<Rightarrow> GuestFailure), rp_error_message := hd_error result\<rparr>)
      in response\<lparr>rp_timing := Some (timing_of warm result elapsed)\<rparr>)"

text \<open>
  What the rest of the machine answers to one execution: the warm-up, the dispatcher on its blocking
  thread given the key, the request and the depth, and the clock.
\<close>

datatype dispatched = DispatchOk HttpDispatchResult | DispatchErr string | DispatchPanicked string

record exec_world =
  ew_warmup :: "string \<Rightarrow> string option \<Rightarrow> warm_result"
  ew_dispatch :: "string \<Rightarrow> HttpRequest \<Rightarrow> u16 \<Rightarrow> dispatched"
  ew_elapsed :: duration

definition run_admitted ::
  "nat \<Rightarrow> exec_world \<Rightarrow> RemoteExecutionRequest \<Rightarrow> GarageAgent \<Rightarrow> RemoteExecutionResponse \<times> GarageAgent" where
  "run_admitted version w rq a =
     (let base = base_response version a rq in
      case ew_warmup w (rq_artifact_digest rq) (rq_source_paddock rq) of
        Inl e \<Rightarrow> (failure base ArtifactUnavailable e, a)
      | Inr warm \<Rightarrow>
          (case ew_dispatch w (rq_artifact_digest rq) (guest_request a rq) (rq_invocation_depth rq) of
             DispatchErr e \<Rightarrow> failure_started base GuestFailure e
           | DispatchPanicked e \<Rightarrow> failure_started base Internal e
           | DispatchOk result \<Rightarrow> finished_response base warm result (ew_elapsed w),
           a\<lparr>ag_executions := Suc (ag_executions a)\<rparr>))"

definition garage_execute ::
  "nat \<Rightarrow> exec_world \<Rightarrow> RemoteExecutionRequest \<Rightarrow> GarageAgent \<Rightarrow> RemoteExecutionResponse \<times> GarageAgent" where
  "garage_execute version w rq a =
     (case admit version rq a of
        Inl response \<Rightarrow> (response, a)
      | Inr a1 \<Rightarrow> (case run_admitted version w rq a1 of (response, a2) \<Rightarrow> (response, release_permit a2)))"

subsection \<open>The HTTP routes\<close>

record garage_http_response =
  gr_status :: nat
  gr_content_type :: string
  gr_body :: string

definition json_response :: "nat \<Rightarrow> string + string \<Rightarrow> string + garage_http_response" where
  "json_response status serialised =
     (case serialised of
        Inl e \<Rightarrow> Inl e
      | Inr bytes \<Rightarrow> Inr \<lparr>gr_status = status, gr_content_type = ''application/json'', gr_body = bytes\<rparr>)"

definition error_response :: "nat \<Rightarrow> string \<Rightarrow> garage_http_response" where
  "error_response status msg = \<lparr>gr_status = status, gr_content_type = ''text/plain'', gr_body = msg\<rparr>"

text \<open>serde: the request read from a body, the response written, the live report written.\<close>

record 'l wire =
  read_request :: "string \<Rightarrow> string + RemoteExecutionRequest"
  write_response :: "RemoteExecutionResponse \<Rightarrow> string + string"
  write_runtime :: "'l \<Rightarrow> string"

definition handle ::
  "nat \<Rightarrow> exec_world \<Rightarrow> 'l wire \<Rightarrow> string \<Rightarrow> string \<Rightarrow> string + string \<Rightarrow> 'l \<Rightarrow> GarageAgent
    \<Rightarrow> garage_http_response \<times> GarageAgent" where
  "handle version w wire meth path bytes live a =
     (case bytes of
        Inl e \<Rightarrow> (error_response 400 e, a)
      | Inr content \<Rightarrow>
          if meth = ''POST'' \<and> path = ''/v1/execute'' then
            (case read_request wire content of
               Inr rq \<Rightarrow>
                 (case garage_execute version w rq a of
                    (response, a') \<Rightarrow>
                      (case json_response 200 (write_response wire response) of
                         Inr r \<Rightarrow> (r, a')
                       | Inl e \<Rightarrow> (error_response 500 e, a')))
             | Inl e \<Rightarrow> (error_response 400 e, a))
          else if meth = ''GET'' \<and> path = ''/v1/runtime'' then
            (\<lparr>gr_status = 200, gr_content_type = ''application/json'', gr_body = write_runtime wire live\<rparr>, a)
          else (error_response 404 ''unknown Garage operation'', a))"

subsection \<open>Nested calls\<close>

record GarageServiceInvoker =
  gi_endpoint :: string
  gi_garage_id :: GarageId
  gi_max_depth :: u16

record LogicalInvocationRequest =
  lq_protocol_version :: nat
  lq_request_id :: string
  lq_parent_execution_id :: "string option"
  lq_target_service :: string
  lq_method :: string
  lq_path_and_query :: string
  lq_headers :: "(string \<times> string) list"
  lq_body :: string
  lq_invocation_depth :: u16
  lq_source_garage_id :: "GarageId option"
  lq_visited_garages :: "GarageId list"
  lq_application_id :: "string option"
  lq_release_id :: "string option"

record LogicalInvocationResponse =
  lp_accepted :: bool
  lp_started :: bool
  lp_guest_status :: "nat option"
  lp_headers :: "(string \<times> string) list"
  lp_body :: string
  lp_error_message :: "string option"
  lp_child_execution_id :: "string option"

definition garage_invoker :: "GarageAgent \<Rightarrow> GarageServiceInvoker" where
  "garage_invoker a =
     \<lparr>gi_endpoint = ag_pitlane_endpoint a, gi_garage_id = ag_id a, gi_max_depth = ag_max_invocation_depth a\<rparr>"

text \<open>The headers as text, with a host header if there is none.\<close>

definition forwarded_headers :: "http_lib \<Rightarrow> ServiceInvocationRequest \<Rightarrow> (string \<times> string) list" where
  "forwarded_headers lib rq =
     (let headers = shown_headers lib (inv_headers rq)
      in if list_ex (\<lambda>(n, _). eq_ignore_ascii_case n ''host'') headers then headers
         else headers @ [(''host'', uri_service (inv_target rq))])"

text \<open>\<open>parse_garage\<close> reads a Garage identifier, \<open>serial\<close> is the next request identifier displayed.\<close>

definition logical_request ::
  "http_lib \<Rightarrow> (string \<Rightarrow> GarageId option) \<Rightarrow> nat \<Rightarrow> string \<Rightarrow> GarageServiceInvoker \<Rightarrow> ServiceInvocationRequest
    \<Rightarrow> LogicalInvocationRequest" where
  "logical_request lib parse_garage version serial gi rq =
     \<lparr>lq_protocol_version = version, lq_request_id = ''nested-'' @ serial,
      lq_parent_execution_id = inv_parent_execution_id rq, lq_target_service = uri_service (inv_target rq),
      lq_method = inv_method rq, lq_path_and_query = uri_path_and_query (inv_target rq),
      lq_headers = forwarded_headers lib rq, lq_body = inv_body rq, lq_invocation_depth = inv_depth rq,
      lq_source_garage_id = Some (gi_garage_id gi),
      lq_visited_garages = List.map_filter parse_garage (inv_visited_garages rq),
      lq_application_id = inv_application_id rq, lq_release_id = inv_release_id rq\<rparr>"

definition response_headers :: "http_lib \<Rightarrow> (string \<times> string) list \<Rightarrow> HeaderMap" where
  "response_headers lib headers = header_collect (valid_headers lib headers)"

definition logical_response :: "http_lib \<Rightarrow> LogicalInvocationResponse \<Rightarrow> string + ServiceInvocationResponse" where
  "logical_response lib r =
     (if \<not> lp_accepted r \<or> \<not> lp_started r
      then Inl (''nested service invocation rejected: ''
             @ (case lp_error_message r of Some m \<Rightarrow> m | None \<Rightarrow> ''unknown error''))
      else (case lp_guest_status r of
              None \<Rightarrow> Inl ''nested invocation returned no guest status''
            | Some status \<Rightarrow>
                (case parse_status lib status of
                   Inl e \<Rightarrow> Inl e
                 | Inr s \<Rightarrow>
                     Inr \<lparr>sr_status = s, sr_headers = response_headers lib (lp_headers r), sr_body = lp_body r,
                          sr_child_execution_id = lp_child_execution_id r\<rparr>)))"

definition garage_invoke ::
  "http_lib \<Rightarrow> (string \<Rightarrow> GarageId option) \<Rightarrow> nat \<Rightarrow> string \<Rightarrow> (string \<Rightarrow> LogicalInvocationRequest \<Rightarrow> LogicalInvocationResponse http_reply)
    \<Rightarrow> GarageServiceInvoker \<Rightarrow> ServiceInvocationRequest \<Rightarrow> string + ServiceInvocationResponse" where
  "garage_invoke lib parse_garage version serial pitlane gi rq =
     (if gi_max_depth gi < inv_depth rq
      then Inl (''maximum invocation depth '' @ dec (unat (gi_max_depth gi)) @ '' exceeded'')
      else (case pitlane (gi_endpoint gi @ ''/v1/internal/invoke'')
              (logical_request lib parse_garage version serial gi rq) of
              SendFailed _ \<Rightarrow> Inl ''PitLane internal invocation request failed''
            | Refused _ reason \<Rightarrow> Inl (''PitLane internal invocation rejected with '' @ reason)
            | BodyInvalid e \<Rightarrow> Inl e
            | Replied r \<Rightarrow> logical_response lib r))"

end
