(* ===== verification/Garage_Claims.thy ===== *)
theory Garage_Claims
  imports Garage_Execute Garage_Warmup_Claims Rt_Service_Claims Sched_Shared_Claims
begin

section \<open>What the Garage promises\<close>

text \<open>
  Every outcome of a remote execution, the admission limit, the chain of nested calls across Garages, a
  nested call from the guest to the PitLane and back, the routes and the reports to the Circuit.
\<close>

subsection \<open>Remote executions\<close>

text \<open>The reason a request is rejected for, in the order of the code.\<close>

definition rejection ::
  "nat \<Rightarrow> exec_world \<Rightarrow> RemoteExecutionRequest \<Rightarrow> GarageAgent \<Rightarrow> RemoteExecutionError option" where
  "rejection version w rq a =
     (if rq_protocol_version rq \<noteq> version then Some UnsupportedProtocol
      else if rq_runtime_contract rq \<noteq> WasiHttpProxy then Some UnsupportedRuntime
      else if ag_id a \<in> set (rq_visited_garages rq) \<or> 16 < unat (rq_invocation_depth rq) then Some InvocationCycle
      else if ag_pending a = 0 then Some Overloaded
      else if isl (ew_warmup w (rq_artifact_digest rq) (rq_source_paddock rq)) then Some ArtifactUnavailable
      else None)"

abbreviation dispatched_as :: "exec_world \<Rightarrow> RemoteExecutionRequest \<Rightarrow> GarageAgent \<Rightarrow> dispatched" where
  "dispatched_as w rq a \<equiv> ew_dispatch w (rq_artifact_digest rq) (guest_request a rq) (rq_invocation_depth rq)"

lemma guest_request_pending [simp]:
  "guest_request (a\<lparr>ag_pending := n\<rparr>) rq = guest_request a rq"
  by (simp add: guest_request_def)

lemma base_response_pending [simp]:
  "base_response version (a\<lparr>ag_pending := n\<rparr>) rq = base_response version a rq"
  by (simp add: base_response_def)

lemma depth_over_16: "16 < d \<longleftrightarrow> 16 < unat d" for d :: u16
  by (simp add: word_less_nat_alt)

lemma admit_rejects:
  "admit version rq a = Inl r \<Longrightarrow> \<not> rp_accepted r \<and> \<not> rp_started r \<and> rp_guest_status r = None
    \<and> rp_error r = rejection version w rq a \<and> rp_error r \<noteq> None"
  by (auto simp: admit_def rejection_def failure_def base_response_def Let_def list_ex_iff depth_over_16
      split: if_splits nat.splits)

lemma admit_accepts:
  "admit version rq a = Inr a1 \<Longrightarrow> ag_pending a = Suc (ag_pending a1) \<and> a1 = a\<lparr>ag_pending := ag_pending a1\<rparr>
    \<and> rq_protocol_version rq = version \<and> rq_runtime_contract rq = WasiHttpProxy
    \<and> ag_id a \<notin> set (rq_visited_garages rq) \<and> unat (rq_invocation_depth rq) \<le> 16"
  by (auto simp: admit_def Let_def list_ex_iff depth_over_16 split: if_splits nat.splits)


definition plain_agent :: "GarageId \<Rightarrow> nat \<Rightarrow> GarageAgent" where
  "plain_agent g n =
     \<lparr>ag_id = g, ag_endpoint = ''127.0.0.1:7101'', ag_circuit_endpoint = ''c'', ag_pitlane_endpoint = ''p'',
      ag_paddock_name = ''local'', ag_paddock_grants = [], ag_pending = n, ag_session = None,
      ag_max_invocation_depth = 16, ag_executions = 0, ag_preparation_budget = 2\<rparr>"

definition plain_execution :: "GarageId list \<Rightarrow> u16 \<Rightarrow> RemoteExecutionRequest" where
  "plain_execution visited depth =
     \<lparr>rq_protocol_version = 1, rq_execution_id = ''x'', rq_runtime_contract = WasiHttpProxy, rq_artifact_digest = ''d'',
      rq_source_paddock = None,
      rq_payload = \<lparr>pl_method = ''GET'', pl_path_and_query = ''/'', pl_headers = [], pl_body = []\<rparr>,
      rq_visited_garages = visited, rq_invocation_depth = depth, rq_application_id = None, rq_release_id = None\<rparr>"

definition plain_world :: exec_world where
  "plain_world =
     \<lparr>ew_warmup = (\<lambda>_ _. Inr (hot_report 0)),
      ew_dispatch = (\<lambda>_ _ _. DispatchOk \<lparr>hd_execution_id = ExecutionId 0, hd_lane_id = LaneId 3,
        hd_response = Some \<lparr>http_status = 204, http_headers = [], http_body = []\<rparr>, hd_error = None,
        hd_queued_for = 0, hd_scheduling_gap = 0, hd_duration = 0, hd_guest_started_after_request = 0,
        hd_prepared_lookup = 0, hd_runtime_timings = default_timings\<rparr>), ew_elapsed = 5000\<rparr>"


lemma garage_execute_agent:
  assumes "garage_execute version w rq a = (rp, a')"
  shows "a' = a\<lparr>ag_executions := ag_executions a'\<rparr>"
proof (cases "admit version rq a")
  case (Inl r)
  then show ?thesis using assms by (simp add: garage_execute_def)
next
  case (Inr a1)
  then obtain n where "a1 = a\<lparr>ag_pending := n\<rparr>" "ag_pending a = Suc n" using admit_accepts [OF Inr] by metis
  then show ?thesis
    using Inr assms by (cases a) (auto simp: garage_execute_def run_admitted_def release_permit_def Let_def split: sum.splits)
qed

subsection \<open>Admission\<close>

text \<open>Requests that arrive and executions that end, in any order, with the number of those running.\<close>

datatype admission_op = Arrive RemoteExecutionRequest | Leave

fun admission_step :: "nat \<Rightarrow> admission_op \<Rightarrow> GarageAgent \<times> nat \<Rightarrow> GarageAgent \<times> nat" where
  "admission_step version (Arrive rq) (a, n) =
     (case admit version rq a of Inl _ \<Rightarrow> (a, n) | Inr a' \<Rightarrow> (a', Suc n))"
| "admission_step version Leave (a, n) = (if n = 0 then (a, n) else (release_permit a, n - 1))"

lemma admission_steps_constant:
  "fold (admission_step version) ops (a, n) = (a', n') \<Longrightarrow> ag_pending a' + n' = ag_pending a + n \<and> ag_id a' = ag_id a"
proof (induction ops arbitrary: a n)
  case (Cons op ops)
  obtain a1 n1 where step: "admission_step version op (a, n) = (a1, n1)" by fastforce
  have "ag_pending a1 + n1 = ag_pending a + n \<and> ag_id a1 = ag_id a"
  proof (cases op)
    case (Arrive rq)
    then show ?thesis using step by (cases "admit version rq a") (auto dest!: admit_accepts, metis GarageAgent.select_convs(1) GarageAgent.surjective GarageAgent.update_convs(7))
  next
    case Leave
    then show ?thesis using step by (auto simp: release_permit_def split: if_splits)
  qed
  then show ?case using Cons step by simp
qed simp

text \<open>The admission limit. However arrivals and ends of executions are ordered, at most
  \<^verbatim>\<open>max_pending\<close> executions run at once, the Circuit is told the Garage accepts exactly while
  there are fewer, and a valid request that arrives is admitted exactly then and is Overloaded otherwise.\<close>

theorem admission_bounded:
  assumes "fold (admission_step version) ops (a, 0) = (a', running)"
  shows "running \<le> ag_pending a
    \<and> (hb_accepting (heartbeat_request arch session local_ds prepared_ds warm_ds d a') \<longleftrightarrow> running < ag_pending a)
    \<and> (rq_protocol_version rq = version \<and> rq_runtime_contract rq = WasiHttpProxy
         \<and> ag_id a \<notin> set (rq_visited_garages rq) \<and> unat (rq_invocation_depth rq) \<le> 16 \<longrightarrow>
       (if running < ag_pending a then \<not> isl (admit version rq a')
        else \<exists>r. admit version rq a' = Inl r \<and> rp_error r = Some Overloaded))"
proof -
  have "ag_pending a' + running = ag_pending a" "ag_id a' = ag_id a" using admission_steps_constant [OF assms] by auto
  then show ?thesis
    by (auto simp: heartbeat_request_def Let_def admit_def failure_def list_ex_iff depth_over_16 split: nat.splits)
qed

theorem admission_bounded_witness:
  "\<exists>a' running. fold (admission_step 1) [Arrive (plain_execution [] 0), Arrive (plain_execution [] 1), Leave] (plain_agent ''g'' 1, 0)
      = (a', running) \<and> running \<le> 1"
proof -
  let ?ops = "[Arrive (plain_execution [] 0), Arrive (plain_execution [] 1), Leave]"
  obtain a' running where f: "fold (admission_step 1) ?ops (plain_agent ''g'' 1, 0) = (a', running)" by fastforce
  have "ag_pending (plain_agent ''g'' 1) = 1" by (simp add: plain_agent_def)
  moreover have "running \<le> ag_pending (plain_agent ''g'' 1)" by (rule admission_bounded [OF f, THEN conjunct1])
  ultimately have "running \<le> 1" by simp
  with f show ?thesis by blast
qed

subsection \<open>Chains of nested calls\<close>

text \<open>
  A running execution is an agent with the request it admitted. Its guest calls another service: the
  runtime makes an invocation on behalf of the execution, the Garage's invoker lets it through and sends
  a logical request, and the PitLane, which is another program, is relied on to hand on its depth and its
  path of Garages unchanged in the remote request it makes of it.
\<close>

type_synonym running = "GarageAgent \<times> RemoteExecutionRequest"

definition calling_of :: "string \<Rightarrow> running \<Rightarrow> calling" where
  "calling_of parent x =
     \<lparr>parent_execution_id = Some parent, invocation_depth = rq_invocation_depth (snd x),
      source_garage_id = hq_source_garage_id (guest_request (fst x) (snd x)),
      visited_garages = hq_visited_garages (guest_request (fst x) (snd x)),
      application_id = rq_application_id (snd x), release_id = rq_release_id (snd x)\<rparr>"

definition forwards :: "LogicalInvocationRequest \<Rightarrow> RemoteExecutionRequest \<Rightarrow> bool" where
  "forwards lq rq \<longleftrightarrow> rq_invocation_depth rq = lq_invocation_depth lq \<and> rq_visited_garages rq = lq_visited_garages lq"

definition nested_in :: "http_lib \<Rightarrow> (string \<Rightarrow> GarageId option) \<Rightarrow> nat \<Rightarrow> running \<Rightarrow> running \<Rightarrow> bool" where
  "nested_in lib parse_garage version x y \<longleftrightarrow>
     (\<exists>parent serial sent. on_behalf (calling_of parent x) sent
        \<and> inv_depth sent \<le> gi_max_depth (garage_invoker (fst x))
        \<and> forwards (logical_request lib parse_garage version serial (garage_invoker (fst x)) sent) (snd y))"

fun call_chain :: "http_lib \<Rightarrow> (string \<Rightarrow> GarageId option) \<Rightarrow> nat \<Rightarrow> running list \<Rightarrow> bool" where
  "call_chain lib parse_garage version [] \<longleftrightarrow> True"
| "call_chain lib parse_garage version [x] \<longleftrightarrow> \<not> isl (admit version (snd x) (fst x))"
| "call_chain lib parse_garage version (x # y # zs) \<longleftrightarrow>
     \<not> isl (admit version (snd x) (fst x)) \<and> nested_in lib parse_garage version x y
     \<and> call_chain lib parse_garage version (y # zs)"

lemma admitted_facts:
  assumes "\<not> isl (admit version rq a)"
  shows "ag_id a \<notin> set (rq_visited_garages rq)" and "unat (rq_invocation_depth rq) \<le> 16"
proof -
  obtain a1 where "admit version rq a = Inr a1" using assms by (cases "admit version rq a") auto
  from admit_accepts [OF this] show "ag_id a \<notin> set (rq_visited_garages rq)" and "unat (rq_invocation_depth rq) \<le> 16" by auto
qed

lemma map_filter_member: "x \<in> set xs \<Longrightarrow> f x = Some y \<Longrightarrow> y \<in> set (List.map_filter f xs)"
  by (force simp: List.map_filter_def)

lemma nested_facts:
  assumes "nested_in lib parse_garage version x y"
  shows "unat (rq_invocation_depth (snd y)) = min (unat (rq_invocation_depth (snd x)) + 1) 65535"
    and "g \<in> insert (ag_id (fst x)) (set (rq_visited_garages (snd x))) \<Longrightarrow> parse_garage g = Some g \<Longrightarrow>
      g \<in> set (rq_visited_garages (snd y))"
proof -
  obtain parent serial sent where c: "on_behalf (calling_of parent x) sent"
    "forwards (logical_request lib parse_garage version serial (garage_invoker (fst x)) sent) (snd y)"
    using assms unfolding nested_in_def by blast
  show "unat (rq_invocation_depth (snd y)) = min (unat (rq_invocation_depth (snd x)) + 1) 65535"
    and "g \<in> insert (ag_id (fst x)) (set (rq_visited_garages (snd x))) \<Longrightarrow> parse_garage g = Some g \<Longrightarrow>
      g \<in> set (rq_visited_garages (snd y))"
    using c map_filter_member [of g "inv_visited_garages sent" parse_garage g]
    by (auto simp: on_behalf_def forwards_def logical_request_def calling_of_def guest_request_def)
qed

lemma chain_head: "call_chain lib parse_garage version (x # xs) \<Longrightarrow> \<not> isl (admit version (snd x) (fst x))"
  by (cases xs) auto

lemma chain_visits:
  assumes "call_chain lib parse_garage version (x # xs)"
    and "g \<in> insert (ag_id (fst x)) (set (rq_visited_garages (snd x)))" and "parse_garage g = Some g" and "y \<in> set xs"
  shows "g \<in> set (rq_visited_garages (snd y))"
  using assms
proof (induction xs arbitrary: x)
  case (Cons z zs)
  then have z: "g \<in> set (rq_visited_garages (snd z))" using nested_facts(2) [of lib parse_garage version x z g] by auto
  then have "g \<in> set (rq_visited_garages (snd y))" if "y \<noteq> z"
    using Cons.IH [of z] Cons.prems that by simp
  then show ?case using z by blast
qed simp



subsection \<open>A nested call from the guest to the PitLane and back\<close>

definition invoker_of :: "(ServiceInvocationRequest \<Rightarrow> string + ServiceInvocationResponse) \<Rightarrow> ServiceInvoker" where
  "invoker_of f = (\<lambda>sent. case f sent of Inl e \<Rightarrow> InvokerErr e | Inr r \<Rightarrow> InvokerOk r)"

lemma forwarded_host: "\<exists>v n. (n, v) \<in> set (forwarded_headers lib sent) \<and> eq_ignore_ascii_case n ''host''"
proof (cases "list_ex (\<lambda>(n, _). eq_ignore_ascii_case n ''host'') (shown_headers lib (inv_headers sent))")
  case True
  then show ?thesis by (auto simp: forwarded_headers_def list_ex_iff)
next
  case False
  then have "(''host'', uri_service (inv_target sent)) \<in> set (forwarded_headers lib sent)"
    by (simp add: forwarded_headers_def)
  moreover have "eq_ignore_ascii_case ''host'' ''host''" by (simp add: eq_ignore_ascii_case_def)
  ultimately show ?thesis by blast
qed

lemma garage_invoke_ok:
  assumes "garage_invoke lib parse_garage version serial pitlane gi sent = Inr resp"
  shows "inv_depth sent \<le> gi_max_depth gi
    \<and> (\<exists>r s. pitlane (gi_endpoint gi @ ''/v1/internal/invoke'') (logical_request lib parse_garage version serial gi sent) = Replied r
         \<and> lp_accepted r \<and> lp_started r \<and> lp_guest_status r = Some s \<and> parse_status lib s = Inr (sr_status resp)
         \<and> sr_body resp = lp_body r \<and> sr_headers resp = response_headers lib (lp_headers r))"
  using assms
  by (auto simp: garage_invoke_def logical_response_def not_less split: if_splits http_reply.splits option.splits sum.splits)

text \<open>C33: a nested call end to end. When a guest's service call succeeds on a Garage, the PitLane was sent
  one logical request at its internal endpoint that names the parsed target, carries the caller's
  execution as parent, this Garage as source, application and release, the path of Garages with this one
  at its end, a depth one deeper (below the limit of 65535) and within the Garage's limit, and a host
  header; the PitLane said it was accepted and started; and status and body of the guest's response are
  those of the reply.\<close>

theorem nested_call_end_to_end:
  assumes "service_call lib (calling_of parent (a, rq))
      (Some (invoker_of (garage_invoke lib parse_garage version serial pitlane (garage_invoker a)))) req = Inr resp"
  shows "\<exists>target lq r s. parse_pit_uri lib (scr_uri req) = Inr target
    \<and> pitlane (ag_pitlane_endpoint a @ ''/v1/internal/invoke'') lq = Replied r
    \<and> lq_target_service lq = uri_service target \<and> lq_path_and_query lq = uri_path_and_query target
    \<and> lq_body lq = scr_body req \<and> lq_parent_execution_id lq = Some parent \<and> lq_source_garage_id lq = Some (ag_id a)
    \<and> lq_visited_garages lq = List.map_filter parse_garage (rq_visited_garages rq @ [ag_id a])
    \<and> lq_application_id lq = rq_application_id rq \<and> lq_release_id lq = rq_release_id rq
    \<and> unat (lq_invocation_depth lq) = min (unat (rq_invocation_depth rq) + 1) 65535
    \<and> lq_invocation_depth lq \<le> ag_max_invocation_depth a
    \<and> (\<exists>n v. (n, v) \<in> set (lq_headers lq) \<and> eq_ignore_ascii_case n ''host'')
    \<and> lp_accepted r \<and> lp_started r \<and> lp_guest_status r = Some s \<and> parse_status lib s = Inr (scp_status resp)
    \<and> scp_body resp = lp_body r"
proof -
  let ?invoke = "garage_invoke lib parse_garage version serial pitlane (garage_invoker a)"
  obtain target meth headers answer where call: "parse_pit_uri lib (scr_uri req) = Inr target"
    "?invoke (service_request (calling_of parent (a, rq)) target meth headers (scr_body req)) = Inr answer"
    "scp_status resp = sr_status answer" "scp_body resp = sr_body answer"
    using assms unfolding service_call_def invoker_of_def by (auto split: sum.splits option.splits invoked.splits)
  let ?sent = "service_request (calling_of parent (a, rq)) target meth headers (scr_body req)"
  let ?lq = "logical_request lib parse_garage version serial (garage_invoker a) ?sent"
  obtain r s where reply: "pitlane (ag_pitlane_endpoint a @ ''/v1/internal/invoke'') ?lq = Replied r"
    "lp_accepted r" "lp_started r" "lp_guest_status r = Some s" "parse_status lib s = Inr (sr_status answer)"
    "sr_body answer = lp_body r" and depth: "inv_depth ?sent \<le> ag_max_invocation_depth a"
    using garage_invoke_ok [OF call(2)] by (auto simp: garage_invoker_def)
  show ?thesis
    using call(1,3,4) reply depth forwarded_host [of lib ?sent]
    by (intro exI [of _ target] exI [of _ ?lq] exI [of _ r] exI [of _ s])
      (auto simp: logical_request_def garage_invoker_def service_request_def calling_of_def guest_request_def saturating_add_one)
qed

definition echo_pitlane :: "string \<Rightarrow> LogicalInvocationRequest \<Rightarrow> LogicalInvocationResponse http_reply" where
  "echo_pitlane url lq = Replied \<lparr>lp_accepted = True, lp_started = True, lp_guest_status = Some 200, lp_headers = [],
     lp_body = lq_body lq, lp_error_message = None, lp_child_execution_id = None\<rparr>"

theorem nested_call_end_to_end_witness:
  "\<exists>resp. service_call plain_lib (calling_of ''e'' (plain_agent ''g'' 1, plain_execution [] 0))
      (Some (invoker_of (garage_invoke plain_lib Some 1 ''1'' echo_pitlane (garage_invoker (plain_agent ''g'' 1)))))
      \<lparr>scr_uri = ''pit://s/'', scr_method = ''POST'', scr_headers = [], scr_body = ''hi''\<rparr> = Inr resp
    \<and> scp_body resp = ''hi''"
proof -
  let ?call = "service_call plain_lib (calling_of ''e'' (plain_agent ''g'' 1, plain_execution [] 0))
      (Some (invoker_of (garage_invoke plain_lib Some 1 ''1'' echo_pitlane (garage_invoker (plain_agent ''g'' 1)))))
      \<lparr>scr_uri = ''pit://s/'', scr_method = ''POST'', scr_headers = [], scr_body = ''hi''\<rparr>"
  obtain resp where resp: "?call = Inr resp"
    by (simp add: service_call_def plain_lib_def invoker_of_def garage_invoke_def garage_invoker_def plain_agent_def
        service_request_def calling_of_def plain_execution_def saturating_add_def echo_pitlane_def logical_response_def)
  from nested_call_end_to_end [OF this] have "scp_body resp = ''hi''" by (auto simp: echo_pitlane_def)
  with resp show ?thesis by blast
qed

subsection \<open>Reports and routes\<close>

text \<open>The heartbeat is truthful. At any moment of any run of the shared pool, the heartbeat reports the
  lanes there are, as active the requests that are running, as queued those that wait, and active and
  free lanes add up; it reports a session only after a registration, and re-registering is all a failed
  heartbeat leads to.\<close>

theorem heartbeat_truthful:
  assumes "pool_reachable env lanes n s" and "disp_scheduler d = sched s"
    and "hb = heartbeat_request arch session local_ds prepared_ds warm_ds d a"
  shows "unat (hb_total_lanes hb) = lanes \<and> unat (hb_active_lanes hb) = cnt (in_class activated) (callers s)
    \<and> unat (hb_active_lanes hb) + hb_free_lanes hb = lanes
    \<and> unat (hb_queue_depth hb) = cnt (in_class queueing) (callers s)
    \<and> (ag_session a = None \<longrightarrow> isl (heartbeat circuit arch local_ds prepared_ds warm_ds d a))
    \<and> (\<exists>new. heartbeat_turn circuit circuit_reg arch local_ds prepared_ds warm_ds d a = a\<lparr>ag_session := new\<rparr>)"
proof -
  note counts = snapshot_counts [OF assms(1)]
  have "\<exists>new. heartbeat_turn circuit circuit_reg arch local_ds prepared_ds warm_ds d a = a\<lparr>ag_session := new\<rparr>"
  proof (cases "heartbeat_turn circuit circuit_reg arch local_ds prepared_ds warm_ds d a = a")
    case True
    then show ?thesis by (intro exI [of _ "ag_session a"]) simp
  next
    case False
    then show ?thesis by (auto simp: heartbeat_turn_def register_garage_def split: sum.splits http_reply.splits)
  qed
  then show ?thesis
    using counts assms(2,3) by (simp add: heartbeat_request_def free_lanes_def scheduler_snapshot_def heartbeat_def Let_def)
qed

theorem heartbeat_truthful_witness:
  "\<exists>hb :: nat HeartbeatRequest. hb = heartbeat_request ''x86_64'' ''s'' [] [] []
      \<lparr>disp_runtime = plain_runtime, disp_scheduler = sched (demo_run 2 2 demo_two), disp_artifacts = [], disp_cache = None\<rparr> (plain_agent ''g'' 1)
    \<and> unat (hb_active_lanes hb) + hb_free_lanes hb = 2"
proof -
  have r: "pool_reachable demo_env 2 2 (demo_run 2 2 demo_two)"
    by (rule demo_reachable [OF _ _ _ demo_two_runs]) simp_all
  let ?d = "\<lparr>disp_runtime = plain_runtime, disp_scheduler = sched (demo_run 2 2 demo_two), disp_artifacts = [], disp_cache = None\<rparr>"
  let ?hb = "heartbeat_request ''x86_64'' ''s'' ([] :: nat list) [] [] ?d (plain_agent ''g'' 1)"
  have "disp_scheduler ?d = sched (demo_run 2 2 demo_two)" by simp
  from heartbeat_truthful [OF r this refl, of "''x86_64''" "''s''" "[] :: nat list" "[]" "[]" "plain_agent ''g'' 1"
      "\<lambda>_. Replied ()" "\<lambda>_. Replied ''s''"]
  have "unat (hb_active_lanes ?hb) + hb_free_lanes ?hb = 2" by blast
  then show ?thesis by blast
qed

lemma distinct_remdups_adj_sorted: "sorted xs \<Longrightarrow> distinct (remdups_adj xs)"
  by (induction xs rule: remdups_adj.induct) auto

text \<open>What a Garage says is local. The digests reported are exactly those that parse from the name of
  a wasm file in a readable directory, each once and in order.\<close>

theorem local_digests_exact:
  "sorted (local_digests parse (Some prefixes)) \<and> distinct (local_digests parse (Some prefixes))
   \<and> set (local_digests parse (Some prefixes))
     = {x. \<exists>names name. Some names \<in> set prefixes \<and> name \<in> set names \<and> wasm_digest parse name = Some x}"
proof -
  have "sorted (local_digests parse (Some prefixes))" "distinct (local_digests parse (Some prefixes))"
    by (simp_all add: local_digests_def distinct_remdups_adj_sorted)
  moreover have "x \<in> set (local_digests parse (Some prefixes))
      \<longleftrightarrow> (\<exists>names name. Some names \<in> set prefixes \<and> name \<in> set names \<and> wasm_digest parse name = Some x)" for x
    by (force simp: local_digests_def List.map_filter_def split: option.splits)
  ultimately show ?thesis by blast
qed

text \<open>The routes. A body that cannot be read, or an execution request that does not parse, is answered
  400, an unknown operation 404, a response that cannot be written 500; every other request is answered
  200, executions that were rejected or failed included; and only an execution request changes the
  agent, by counting what it ran.\<close>

theorem routes_exact:
  assumes "handle version w wire meth path bytes live a = (resp, a')"
  shows "gr_status resp =
      (case bytes of Inl _ \<Rightarrow> 400 | Inr content \<Rightarrow>
        if meth = ''POST'' \<and> path = ''/v1/execute'' then
          (case read_request wire content of Inl _ \<Rightarrow> 400
           | Inr rq \<Rightarrow> if isl (write_response wire (fst (garage_execute version w rq a))) then 500 else 200)
        else if meth = ''GET'' \<and> path = ''/v1/runtime'' then 200 else 404)
    \<and> (\<exists>n. a' = a\<lparr>ag_executions := n\<rparr>)"
    (is "gr_status resp = ?status \<and> _")
proof -
  have "a' = a\<lparr>ag_executions := ag_executions a'\<rparr>"
    using assms
    by (auto simp: handle_def split: sum.splits if_splits prod.splits dest: garage_execute_agent)
  then have "\<exists>n. a' = a\<lparr>ag_executions := n\<rparr>" by (rule exI)
  moreover have "gr_status resp = ?status"
    using assms
    by (auto simp: handle_def error_response_def json_response_def split: sum.splits if_splits prod.splits)
  ultimately show ?thesis by blast
qed

definition plain_wire :: "unit wire" where
  "plain_wire = \<lparr>read_request = (\<lambda>s. if s = [] then Inl ''empty'' else Inr (plain_execution [] 0)),
     write_response = (\<lambda>_. Inr ''{}''), write_runtime = (\<lambda>_. ''{}'')\<rparr>"

theorem routes_exact_witness:
  "gr_status (fst (handle 1 plain_world plain_wire ''GET'' ''/v1/execute'' (Inr ''x'') () (plain_agent ''g'' 1))) = 404
    \<and> gr_status (fst (handle 1 plain_world plain_wire ''POST'' ''/v1/execute'' (Inr ''x'') () (plain_agent ''g'' 0))) = 200"
proof -
  let ?one = "handle 1 plain_world plain_wire ''GET'' ''/v1/execute'' (Inr ''x'') () (plain_agent ''g'' 1)"
  let ?two = "handle 1 plain_world plain_wire ''POST'' ''/v1/execute'' (Inr ''x'') () (plain_agent ''g'' 0)"
  obtain r1 a1 r2 a2 where runs: "?one = (r1, a1)" "?two = (r2, a2)" by fastforce
  from routes_exact [OF runs(1)] routes_exact [OF runs(2)] runs show ?thesis
    by (simp add: plain_wire_def)
qed

end
