(* ===== verification/Garage_Registry.thy ===== *)
theory Garage_Registry
  imports Garage_Warmup_Claims Pit_Dispatch_Claims
begin

section \<open>Warm-ups and the registry of the dispatcher\<close>

text \<open>
  The warm-up model (\<^verbatim>\<open>Garage_Warmup\<close>) knows the registry as a set of keys; the dispatcher
  (\<^verbatim>\<open>Pit_Dispatch\<close>) keeps prepared artifacts. Here both run together: the end of a
  registration is the dispatcher's \<^verbatim>\<open>register_with_report\<close> on the key of the call, and what it
  returns is what the call goes on with. The joint system refines the warm-up model, and what the
  warm-up promises holds for the artifacts that executions are given.
\<close>

subsection \<open>Registries\<close>

text \<open>What a user of a table of keys relies on: an insertion shows at its key and nowhere else.\<close>

locale registry =
  fixes lookup :: "'m \<Rightarrow> 'k \<Rightarrow> 'v option"
    and insert_at :: "'k \<Rightarrow> 'v \<Rightarrow> 'm \<Rightarrow> 'm"
  assumes lookup_insert: "lookup (insert_at k v m) k' = (if k' = k then Some v else lookup m k')"
begin

lemma dom_insert: "dom (lookup (insert_at k v m)) = insert k (dom (lookup m))"
  by (auto simp: lookup_insert split: if_splits)

lemma kept: "lookup m k \<noteq> None \<Longrightarrow> lookup (insert_at k' v m) k \<noteq> None"
  by (simp add: lookup_insert)

text \<open>What holds of every entry is kept by inserting an entry of which it holds.\<close>

lemma all_entries:
  assumes "\<forall>k v. lookup m k = Some v \<longrightarrow> P k v" and "P k v"
  shows "\<forall>k' v'. lookup (insert_at k v m) k' = Some v' \<longrightarrow> P k' v'"
  using assms by (auto simp: lookup_insert split: if_splits)

lemma lookup_inserts: "lookup (fold (\<lambda>(k, v). insert_at k v) kvs m) = lookup m ++ map_of (rev kvs)"
proof (induction kvs arbitrary: m)
  case (Cons kv kvs)
  obtain k v where kv: "kv = (k, v)" by (cases kv)
  have "lookup (insert_at k v m) = (lookup m)(k \<mapsto> v)" by (auto simp: lookup_insert)
  then show ?case using Cons by (simp add: kv map_add_def fun_eq_iff split: option.split)
qed simp

end

definition put_prepared :: "string \<Rightarrow> PreparedArtifact \<Rightarrow> PitHttpDispatcher \<Rightarrow> PitHttpDispatcher" where
  "put_prepared key prepared d = d\<lparr>disp_artifacts := AList.update key prepared (disp_artifacts d)\<rparr>"

interpretation artifacts: registry "\<lambda>d. map_of (disp_artifacts d)" put_prepared
  by unfold_locales (simp add: put_prepared_def)

subsection \<open>The joint system\<close>

record warming =
  jw_table :: warmups
  jw_dispatcher :: PitHttpDispatcher

text \<open>
  An input is one of the warm-up model, or the end of a registration: what its preparation met, the path
  of the artifact, and the files of the compiled cache as it found them.
\<close>

datatype warming_input = WarmInput warm_input | Registers preparation string cache_fs

fun is_registration :: "warm_input \<Rightarrow> bool" where
  "is_registration (Registration _) \<longleftrightarrow> True"
| "is_registration _ \<longleftrightarrow> False"

definition register_call ::
  "nat \<Rightarrow> preparation \<Rightarrow> string \<Rightarrow> cache_fs \<Rightarrow> warming \<Rightarrow> (string + PreparationReport) \<times> PitHttpDispatcher \<times> cache_fs" where
  "register_call i pr path fs j =
     (let key = wt_keys (jw_table j) ! i
      in register_with_report key pr (from_path_with_digest path key) (jw_dispatcher j) fs)"

definition warming_step :: "nat \<Rightarrow> warming_input \<Rightarrow> warming \<Rightarrow> warming option" where
  "warming_step i x j =
     (case x of
        WarmInput y \<Rightarrow>
          if is_registration y then None else map_option (\<lambda>s. j\<lparr>jw_table := s\<rparr>) (warm_step i y (jw_table j))
      | Registers pr path fs \<Rightarrow>
          (case register_call i pr path fs j of
             (res, d, fs') \<Rightarrow>
               map_option (\<lambda>s. \<lparr>jw_table = s, jw_dispatcher = d\<rparr>) (warm_step i (Registration res) (jw_table j))))"

definition warming_exec :: "warming \<Rightarrow> warming \<Rightarrow> bool" where
  "warming_exec j k \<longleftrightarrow> (\<exists>i x. warming_step i x j = Some k)"

fun warming_run :: "(nat \<times> warming_input) list \<Rightarrow> warming \<Rightarrow> warming option" where
  "warming_run [] j = Some j"
| "warming_run ((i, x) # script) j = Option.bind (warming_step i x j) (warming_run script)"

text \<open>A Garage starts with an empty registry.\<close>

definition warming_start :: "nat \<Rightarrow> bool \<Rightarrow> string list \<Rightarrow> PitHttpDispatcher \<Rightarrow> warming \<Rightarrow> bool" where
  "warming_start n paddock keys d j \<longleftrightarrow>
     j = \<lparr>jw_table = new_warmups n paddock [] keys, jw_dispatcher = d\<rparr> \<and> disp_artifacts d = []"

lemma warming_run_exec: "warming_run script j = Some k \<Longrightarrow> warming_exec\<^sup>*\<^sup>* j k"
proof (induction script j rule: warming_run.induct)
  case (2 i x script j)
  then obtain m where m: "warming_step i x j = Some m" "warming_run script m = Some k" by (auto simp: bind_eq_Some_conv)
  then have "warming_exec j m" unfolding warming_exec_def by blast
  then show ?case using 2 m by (blast intro: converse_rtranclp_into_rtranclp)
qed simp

subsection \<open>The simulation\<close>

text \<open>Every joint step is a step of the warm-up model.\<close>

lemma warming_simulates: "warming_exec j k \<Longrightarrow> warm_exec (\<lambda>_ _. True) (jw_table j) (jw_table k)"
proof -
  assume "warming_exec j k"
  then obtain i x where "warming_step i x j = Some k" by (auto simp: warming_exec_def)
  then have "\<exists>y. warm_step i y (jw_table j) = Some (jw_table k)"
    by (cases x) (auto simp: warming_step_def split: if_splits prod.splits)
  then show ?thesis by (auto simp: warm_exec_def)
qed

lemma warming_run_simulates: "warming_exec\<^sup>*\<^sup>* j k \<Longrightarrow> (warm_exec (\<lambda>_ _. True))\<^sup>*\<^sup>* (jw_table j) (jw_table k)"
  by (induction rule: rtranclp_induct) (auto intro: rtranclp.rtrancl_into_rtrancl warming_simulates)

text \<open>
  An entry is sound when it is the artifact of its key, and has all parts of an HTTP artifact or none;
  the two views of the registry agree, and every entry is sound.
\<close>

definition sound_entry :: "string \<Rightarrow> PreparedArtifact \<Rightarrow> bool" where
  "sound_entry key p \<longleftrightarrow>
     p_id p = key \<and> (p_http_engine p \<longrightarrow> p_http_ticker p \<and> (p_http_pre p \<or> p_http_component p \<and> p_http_linker p))"

definition registry_ok :: "warming \<Rightarrow> bool" where
  "registry_ok j \<longleftrightarrow>
     set (wt_prepared (jw_table j)) = dom (map_of (disp_artifacts (jw_dispatcher j)))
     \<and> (\<forall>key p. map_of (disp_artifacts (jw_dispatcher j)) key = Some p \<longrightarrow> sound_entry key p)"

lemma register_call_outcome:
  assumes "register_call i pr path fs j = (res, d, fs')"
  shows "(\<exists>e. res = Inl e) \<and> d = jw_dispatcher j
    \<or> (\<exists>rep prepared. res = Inr rep \<and> d = put_prepared (wt_keys (jw_table j) ! i) prepared (jw_dispatcher j)
        \<and> sound_entry (wt_keys (jw_table j) ! i) prepared)"
proof -
  let ?key = "wt_keys (jw_table j) ! i"
  let ?a = "from_path_with_digest path ?key"
  have "sound_entry ?key prepared" if "prepare_for (jw_dispatcher j) pr ?a fs = (Inr (prepared, rep), fs')" for prepared rep
    using prepare_for_prepared [OF that]
    by (auto simp: sound_entry_def from_path_with_digest_def, (metis ArtifactFormat.exhaust)+)
  then show ?thesis
    using assms by (auto simp: register_call_def register_with_report_def Let_def put_prepared_def split: prod.splits sum.splits)
qed

text \<open>The registry of the warm-up model changes with a successful registration only.\<close>

lemma prepared_helpers [simp]:
  "wt_prepared (set_cell i c r s) = wt_prepared s" "wt_prepared (free_cell c s) = wt_prepared s"
  "wt_prepared (take_entry i s) = wt_prepared s" "wt_prepared (count_preparation i c s) = wt_prepared s"
  "wt_prepared (local_missing i c s) = wt_prepared s"
  by (simp_all add: set_cell_def free_cell_def take_entry_def count_preparation_def local_missing_def Let_def
      split: option.split)

lemma enter_cell_prepared: "enter_cell i c s = Some t \<Longrightarrow> wt_prepared t = wt_prepared s"
  by (auto simp: enter_cell_def split: once_cell.splits)

lemma warm_step_prepared:
  assumes "warm_step i x s = Some t"
  shows "wt_prepared t = (case x of Registration res \<Rightarrow> wt_prepared (registered i res s) | _ \<Rightarrow> wt_prepared s)"
proof (cases "\<exists>res. x = Registration res")
  case True
  then obtain res where "x = Registration res" by blast
  then show ?thesis
    using assms by (cases "wt_pcs s ! i") (auto simp: warm_step_def registered_def split: if_splits sum.splits)
next
  case False
  then have "wt_prepared t = wt_prepared s"
    using assms by (cases "wt_pcs s ! i"; cases x)
      (auto simp: warm_step_def dest: enter_cell_prepared split: if_splits sum.splits bool.splits nat.splits)
  then show ?thesis using False by (cases x) auto
qed

lemma registry_ok_step:
  assumes "registry_ok j" and "warming_exec j k"
  shows "registry_ok k"
proof -
  obtain i x where step: "warming_step i x j = Some k" using assms(2) by (auto simp: warming_exec_def)
  show ?thesis
  proof (cases x)
    case (WarmInput y)
    then have k: "\<not> is_registration y" "jw_dispatcher k = jw_dispatcher j" "warm_step i y (jw_table j) = Some (jw_table k)"
      using step by (auto simp: warming_step_def split: if_splits)
    then have "wt_prepared (jw_table k) = wt_prepared (jw_table j)"
      using warm_step_prepared [OF k(3)] by (cases y) auto
    then show ?thesis using assms(1) k(2) by (simp add: registry_ok_def)
  next
    case (Registers pr path fs)
    obtain res d fs' where reg: "register_call i pr path fs j = (res, d, fs')" by (metis prod_cases3)
    let ?key = "wt_keys (jw_table j) ! i"
    have k: "jw_dispatcher k = d" "warm_step i (Registration res) (jw_table j) = Some (jw_table k)"
      using step Registers reg by (auto simp: warming_step_def)
    have keys: "wt_prepared (jw_table k) = wt_prepared (registered i res (jw_table j))"
      using warm_step_prepared [OF k(2)] by simp
    from register_call_outcome [OF reg] show ?thesis
    proof
      assume "(\<exists>e. res = Inl e) \<and> d = jw_dispatcher j"
      then show ?thesis using assms(1) k(1) keys by (auto simp: registry_ok_def registered_def)
    next
      assume "\<exists>rep prepared. res = Inr rep \<and> d = put_prepared ?key prepared (jw_dispatcher j) \<and> sound_entry ?key prepared"
      then obtain rep prepared where p: "res = Inr rep" "d = put_prepared ?key prepared (jw_dispatcher j)"
        "sound_entry ?key prepared" by blast
      then show ?thesis
        using assms(1) k(1) keys artifacts.dom_insert artifacts.all_entries [of "jw_dispatcher j" sound_entry ?key prepared]
        by (simp add: registry_ok_def registered_def)
    qed
  qed
qed

interpretation warming_sys: invariant_system "warming_start n paddock keys d" warming_exec registry_ok
proof unfold_locales
  show "registry_ok j" if "warming_start n paddock keys d j" for j
    using that by (simp add: warming_start_def registry_ok_def new_warmups_def)
qed (rule registry_ok_step)

text \<open>No step removes an artifact, so what was found is found later.\<close>

lemma registered_stays: "warming_exec\<^sup>*\<^sup>* j k \<Longrightarrow> set (wt_prepared (jw_table j)) \<subseteq> set (wt_prepared (jw_table k))"
  using warming_run_simulates prepared_stays by blast

subsection \<open>The properties\<close>

text \<open>An artifact whose warm-up has returned is found from then on.\<close>

lemma warmed_artifact_found:
  assumes "warming_start n paddock keys d0 j0" and "warming_exec\<^sup>*\<^sup>* j0 j" and "warming_exec\<^sup>*\<^sup>* j k"
    and "i < length keys" and "wt_pcs (jw_table j) ! i = Returned (Inr rep)"
  obtains p where "find_prepared (keys ! i) (jw_dispatcher k) = Inr p" and "sound_entry (keys ! i) p"
    and "p_id p = keys ! i"
proof -
  have reached: "warm_reached n paddock [] keys (\<lambda>_ _. True) (jw_table j)"
    using warming_run_simulates [OF assms(2)] assms(1) by (simp add: warm_reached_def warming_start_def)
  have ok: "registry_ok k" using warming_sys.inv_reachable [OF assms(1)] assms(2,3) by (meson rtranclp_trans)
  have "keys ! i \<in> set (wt_prepared (jw_table j))"
    using warm_reached_inv [OF reached] warm_reached_keys [OF reached] assms(4,5) by (auto simp: warm_inv_def answers_ok_def)
  then obtain p where "map_of (disp_artifacts (jw_dispatcher k)) (keys ! i) = Some p" "sound_entry (keys ! i) p"
    using registered_stays [OF assms(3)] ok unfolding registry_ok_def by blast
  then show ?thesis using that [of p] by (simp add: find_prepared_def sound_entry_def)
qed

text \<open>C26: what a successful warm-up is worth. However the warm-ups of a Garage interleave, whatever their
  preparations meet and whichever requests are dropped: from the moment a call has returned a report on,
  the dispatcher finds for its key the artifact of that key, an execution of it is the execution of that
  artifact, and if it is an HTTP artifact it is complete, so that only the request, the resources of the
  instance or the late linking of an unresolved import can keep it from starting. All this is a run of the
  warm-up model, whose registry has the same keys.\<close>

theorem warmed_artifact_served:
  assumes "warming_start n paddock keys d0 j0" and "warming_exec\<^sup>*\<^sup>* j0 j" and "warming_exec\<^sup>*\<^sup>* j k"
    and "i < length keys" and "wt_pcs (jw_table j) ! i = Returned (Inr rep)"
  shows "\<exists>p. find_prepared (keys ! i) (jw_dispatcher k) = Inr p \<and> p_id p = keys ! i
    \<and> execute_http_inline (keys ! i) (jw_dispatcher k) now clock h limits = execute_http now h p limits
    \<and> (p_http_engine p \<longrightarrow> (http_ready p h \<longleftrightarrow>
          h_request_error h = None \<and> h_resource_error h = None \<and> (p_http_pre p \<or> h_pre_error h = None)))
    \<and> warm_reached n paddock [] keys (\<lambda>_ _. True) (jw_table j)
    \<and> set (wt_prepared (jw_table k)) = set (map fst (disp_artifacts (jw_dispatcher k)))"
proof -
  have reached: "warm_reached n paddock [] keys (\<lambda>_ _. True) (jw_table j)"
    using warming_run_simulates [OF assms(2)] assms(1) by (simp add: warm_reached_def warming_start_def)
  have ok: "registry_ok k" using warming_sys.inv_reachable [OF assms(1)] assms(2,3) by (meson rtranclp_trans)
  obtain p where p: "find_prepared (keys ! i) (jw_dispatcher k) = Inr p" "sound_entry (keys ! i) p" "p_id p = keys ! i"
    using warmed_artifact_found [OF assms] .
  then show ?thesis
    using reached ok
    by (intro exI [of _ p]) (auto simp: execute_http_inline_def sound_entry_def http_ready_def
        registry_ok_def dom_map_of_conv_image_fst)
qed

definition one_registration :: "(nat \<times> warming_input) list" where
  "one_registration = [(0, WarmInput Proceed), (0, WarmInput Proceed), (0, WarmInput (Elapsed 1)), (0, WarmInput Proceed),
     (0, WarmInput (LocalArtifact True)), (0, Registers demo_preparation ''/a.wasm'' []), (0, WarmInput (Elapsed 7))]"

definition demo_warming :: warming where
  "demo_warming = \<lparr>jw_table = new_warmups 1 False [] [''sha256:abcd''], jw_dispatcher = demo_dispatcher\<rparr>"

lemma one_registration_run:
  "\<exists>j rep. warming_run one_registration demo_warming = Some j \<and> wt_pcs (jw_table j) ! 0 = Returned (Inr rep)"
proof -
  obtain rep d' fs' where r: "register_with_report ''sha256:abcd'' demo_preparation (from_path_with_digest ''/a.wasm'' ''sha256:abcd'')
      demo_dispatcher [] = (Inr rep, d', fs')"
    using demo_registers [of "''sha256:abcd''"] unfolding demo_artifact_def by blast
  show ?thesis
    by (cases "pr_source rep")
      (auto simp: one_registration_def demo_warming_def warming_step_def register_call_def r warm_run_simps)
qed

theorem warmed_artifact_served_witness:
  "\<exists>j p. warming_run one_registration demo_warming = Some j
    \<and> find_prepared ''sha256:abcd'' (jw_dispatcher j) = Inr p \<and> p_id p = ''sha256:abcd''"
proof -
  obtain j rep where j: "warming_run one_registration demo_warming = Some j" "wt_pcs (jw_table j) ! 0 = Returned (Inr rep)"
    using one_registration_run by blast
  have "warming_start 1 False [''sha256:abcd''] demo_dispatcher demo_warming"
    by (simp add: warming_start_def demo_warming_def demo_dispatcher_def)
  from warmed_artifact_served [OF this warming_run_exec [OF j(1)] rtranclp.rtrancl_refl, of 0 rep 0 calm_clock calm_http
      "hc_limits calm_request"] j
  show ?thesis by auto
qed

end
