(* ===== verification/Garage_Host.thy ===== *)
theory Garage_Host
  imports Garage_Claims Rt_Paddock_Claims Rt_Exec_Claims
begin

section \<open>What a guest can reach on a Garage\<close>

text \<open>
  The composition of \<^verbatim>\<open>GarageAgent::execute\<close> with the set-up of the runtime
  (\<^verbatim>\<open>Rt_Http\<close>): the state that the host functions of a guest work on when a Garage runs it,
  and what follows for its sockets, its objects, its identity, and its time and memory.
\<close>

text \<open>\<^verbatim>\<open>ExecutionLimits::default()\<close>, which the Garage passes.\<close>

definition default_limits :: ExecutionLimits where
  "default_limits = \<lparr>lim_timeout = None, lim_memory_bytes = None\<rparr>"

definition garage_host_state ::
  "(string \<Rightarrow> string) \<Rightarrow> ('b, 'w) paddock_backend option \<Rightarrow> GarageAgent \<Rightarrow> RemoteExecutionRequest \<Rightarrow> ServiceInvoker
    \<Rightarrow> string \<Rightarrow> ('b, 'w) HttpHostState" where
  "garage_host_state sha object_paddock a rq invoker parent =
     http_host_state sha (garage_call object_paddock a rq) default_limits (Some invoker) (Some parent)
       (rq_invocation_depth rq)"

lemma garage_call_simps [simp]:
  "hq_env (garage_call b a rq) = []" "hq_allowed_tcp (garage_call b a rq) = []"
  "hq_paddock (garage_call b a rq) = b" "hq_paddock_auth (garage_call b a rq) = None"
  "hq_paddock_grants (garage_call b a rq) = ag_paddock_grants a"
  "hq_source_garage_id (garage_call b a rq) = Some (ag_id a)"
  "hq_visited_garages (garage_call b a rq) = rq_visited_garages rq @ [ag_id a]"
  "hq_application_id (garage_call b a rq) = rq_application_id rq"
  "hq_release_id (garage_call b a rq) = rq_release_id rq"
  "hq_body (garage_call b a rq) = pl_body (rq_payload rq)"
  by (simp_all add: garage_call_def guest_request_def HttpRequest.defs HttpCall.defs)

text \<open>The calls the guest makes are those of \<open>calling_of\<close>, on which the chain of nested calls is built.\<close>

lemma garage_state_calling: "state_calling (garage_host_state sha b a rq invoker parent) = calling_of parent (a, rq)"
  by (simp add: garage_host_state_def state_calling_def http_host_state_def calling_of_def guest_request_def)

lemma no_limit_stops:
  assumes "\<forall>ev\<in>set evs. \<forall>t. ev \<noteq> Tick True t"
  shows "find (limit_stops now default_limits) evs = None"
proof -
  have "\<not> limit_stops now default_limits ev" if "ev \<in> set evs" for ev
    using assms that by (cases ev) (auto simp: default_limits_def)
  then show ?thesis by (auto simp: find_None_iff)
qed

lemma not_ready_same:
  assumes "\<not> http_ready p h"
  shows "execute_http now h p limits = execute_http now' (h\<lparr>h_guest := g\<rparr>) p limits"
proof (cases "p_http_engine p \<and> p_http_ticker p \<and> h_request_error h = None \<and> h_resource_error h = None")
  case True
  then have "\<not> p_http_pre p \<and> (\<not> p_http_component p \<or> \<not> p_http_linker p \<or> h_pre_error h \<noteq> None)"
    using assms by (auto simp: http_ready_def)
  then show ?thesis using True by (cases "h_pre_error h") (simp_all add: execute_http_def)
next
  case False
  then show ?thesis by (cases "h_request_error h"; cases "h_resource_error h") (simp_all add: execute_http_def)
qed

subsection \<open>The properties\<close>

text \<open>C27: a guest on a Garage is confined. Whatever request was admitted, its guest has no environment and no
  TCP, UDP or name lookup, for any address and use; it calls other services as the execution it is; and
  after any sequence of operations on its objects and writers, an operation that the grants of the agent
  do not cover still fails, changes nothing and never reaches the backend. The check of a gateway
  signature, on the other hand, accepts everything there, since no credentials travel to a Garage.\<close>

theorem guest_confined:
  assumes "admit version rq a = Inr a1" and "st = garage_host_state sha object_paddock a1 rq invoker parent"
    and "h = fold host_exec ops (state_host ns resources store st)"
  shows "wc_env (hh_wasi st) = [] \<and> \<not> wc_allow_tcp (hh_wasi st) \<and> \<not> wc_allow_udp (hh_wasi st)
    \<and> \<not> wc_allow_ip_name_lookup (hh_wasi st) \<and> (\<forall>address use. \<not> wc_socket_addr_check (hh_wasi st) address use)
    \<and> state_calling st = calling_of parent (a, rq)
    \<and> (\<not> op_granted (ag_paddock_grants a) (projr (namespace_new ns (op_namespace op))) op
        \<longrightarrow> (\<exists>e. store_exec op h = (Inl e, h)))
    \<and> verify_gateway_signature sha cal now (state_gateway st) = Some (Inr ())"
proof -
  have a1: "a1 = a\<lparr>ag_pending := ag_pending a1\<rparr>" using admit_accepts [OF assms(1)] by blast
  then have agent: "ag_paddock_grants a1 = ag_paddock_grants a" "calling_of parent (a1, rq) = calling_of parent (a, rq)"
    by (metis GarageAgent.select_convs(6) GarageAgent.surjective GarageAgent.update_convs(7),
        metis calling_of_def fst_conv snd_conv guest_request_pending)
  have h: "hs_grants h = ag_paddock_grants a" "hs_names h = ns"
    using host_run_capability [of ops "state_host ns resources store st"] agent(1) assms(2,3)
    by (simp_all add: state_host_def garage_host_state_def http_host_state_def)
  have "\<exists>e. store_exec op h = (Inl e, h)"
    if "\<not> op_granted (ag_paddock_grants a) (projr (namespace_new ns (op_namespace op))) op"
    using store_exec_refused [of h op] that h by (simp add: permitted_def)
  then show ?thesis
    using agent(2) garage_state_calling [of sha object_paddock a1 rq invoker parent] assms(2)
    by (simp add: garage_host_state_def http_host_state_def http_wasi_ctx_def state_gateway_def
        verify_gateway_signature_def)
qed

text \<open>Nothing bounds a guest on a Garage. With the default limits and a token that nobody cancels, an
  HTTP execution ends exactly as it would without any epoch check or memory growth: neither the clock nor
  the memory the guest asks for ever ends it, so a guest that does not return keeps its lane and its
  permit.\<close>

theorem garage_guest_unbounded:
  assumes "\<forall>ev\<in>set (g_inst_events (h_guest h) @ g_call_events (h_guest h)). \<forall>t. ev \<noteq> Tick True t"
  shows "execute_http now h p default_limits
    = execute_http now' (h\<lparr>h_guest := (h_guest h)\<lparr>g_inst_events := [], g_call_events := []\<rparr>\<rparr>) p default_limits"
    (is "_ = execute_http now' ?h p default_limits")
proof (cases "http_ready p h")
  case True
  then have ready: "http_ready p ?h" by (simp add: http_ready_def)
  show ?thesis
  proof (cases "g_inst_final (h_guest h)")
    case (Inl e)
    have "find (limit_stops now default_limits) (g_inst_events (h_guest h)) = None"
      using no_limit_stops assms by simp
    then obtain s where "run_guest (g_trap_text (h_guest h)) (g_inst_events (h_guest h)) (g_inst_final (h_guest h))
        (http_store now default_limits) = (Inl e, s)"
      using run_guest_free [of "http_store now default_limits" "g_inst_events (h_guest h)" "g_trap_text (h_guest h)"
          "g_inst_final (h_guest h)"] Inl by auto
    then show ?thesis using Inl by (simp add: execute_http_ready [OF True] execute_http_ready [OF ready])
  next
    case (Inr u)
    then have "instantiates now h default_limits" "instantiates now' ?h default_limits"
      using no_limit_stops [of "g_inst_events (h_guest h)"] assms by (simp_all add: instantiates_def)
    then show ?thesis
      using http_call_free [OF True] http_call_free [OF ready] no_limit_stops [of "g_call_events (h_guest h)"] assms
      by (simp split: sum.split)
  qed
next
  case False
  then show ?thesis by (rule not_ready_same)
qed

text \<open>Both at one request: a guest that ticks for a whole day, and grants for another namespace.\<close>

definition day_long :: http_guest where
  "day_long = \<lparr>h_request_error = None, h_resource_error = None, h_pre_error = None,
     h_guest = \<lparr>g_trap_text = ''interrupt'', g_inst_events = [], g_inst_final = Inr (), g_lookup_error = None,
       g_call_events = [Tick False 1, Grow (2 ^ 40), Tick False (86400 * 10 ^ 9)], g_call_final = Inr (),
       g_started = 0, g_elapsed = 86400 * 10 ^ 9\<rparr>,
     h_response = Inr \<lparr>http_status = 200, http_headers = [], http_body = []\<rparr>\<rparr>"

theorem garage_guest_unbounded_witness:
  "execute_http 0 day_long (prepared_cached ''a'' True) default_limits
    = Inr \<lparr>http_status = 200, http_headers = [], http_body = []\<rparr>"
proof -
  let ?short = "day_long\<lparr>h_guest := (h_guest day_long)\<lparr>g_inst_events := [], g_call_events := []\<rparr>\<rparr>"
  have "http_ready (prepared_cached ''a'' True) ?short" "instantiates 0 ?short default_limits"
    by (simp_all add: http_ready_def prepared_cached_def instantiates_def day_long_def)
  from http_call_free [OF this] have "execute_http 0 ?short (prepared_cached ''a'' True) default_limits
      = Inr \<lparr>http_status = 200, http_headers = [], http_body = []\<rparr>"
    by (simp add: day_long_def)
  then show ?thesis
    using garage_guest_unbounded [of day_long 0 "prepared_cached ''a'' True" 0] by (simp add: day_long_def)
qed

theorem guest_confined_witness:
  "\<exists>a1. admit 1 (plain_execution [] 0) (plain_agent ''g'' 1) = Inr a1
    \<and> (\<exists>e. fst (store_exec (DeleteObject ''n'' ''k'') (state_host (hs_names demo_host) (hs_resources demo_host) []
          (garage_host_state id (Some log_backend) a1 (plain_execution [] 0) (\<lambda>_. InvokerPanicked) ''1''))) = Inl e)"
proof -
  obtain a1 where a1: "admit 1 (plain_execution [] 0) (plain_agent ''g'' 1) = Inr a1"
    by (simp add: admit_def plain_agent_def plain_execution_def Let_def)
  define st where "st = garage_host_state id (Some log_backend) a1 (plain_execution [] 0) (\<lambda>_. InvokerPanicked) ''1''"
  define h where "h = state_host (hs_names demo_host) (hs_resources demo_host) [] st"
  have h: "h = fold host_exec [] (state_host (hs_names demo_host) (hs_resources demo_host) [] st)" by (simp add: h_def)
  have "\<not> op_granted (ag_paddock_grants (plain_agent ''g'' 1))
      (projr (namespace_new (hs_names demo_host) (op_namespace (DeleteObject ''n'' ''k'')))) (DeleteObject ''n'' ''k'')"
    by (simp add: plain_agent_def)
  then obtain e where "store_exec (DeleteObject ''n'' ''k'') h = (Inl e, h)"
    using guest_confined [OF a1 st_def h] by blast
  then show ?thesis using a1 unfolding h_def st_def by (simp del: store_exec.simps)
qed

end
