(* ===== verification/Garage_Main.thy ===== *)
theory Garage_Main
  imports Garage_Claims Transition_System
begin

section \<open>The process of a Garage\<close>

text \<open>
  \<^verbatim>\<open>main\<close>, \<^verbatim>\<open>GarageAgent::serve\<close> and \<^verbatim>\<open>spawn_heartbeat\<close> of
  \<^verbatim>\<open>apps/pit-garage/src/main.rs\<close>: the start of the process, and from then on connections, remote
  executions and turns of the heartbeat task in any order. An execution is a request that is admitted, warmed
  up, dispatched on a blocking thread and answered; when its connection ends first, its future is dropped,
  which gives its permit back at once, while a guest on a blocking thread runs on. What an execution
  answers is \<^verbatim>\<open>garage_execute\<close>; here it is its permit that counts.
\<close>

datatype phase =
    Warming \<comment> \<open>admitted, waiting for the warm-up of its artifact\<close>
  | Dispatched \<comment> \<open>its guest is on a blocking thread\<close>
  | Detached \<comment> \<open>the same, but nobody waits for it any more\<close>

record garage_process =
  gp_agent :: GarageAgent
  gp_connections :: nat
  gp_executions :: "(RemoteExecutionRequest \<times> phase) list"
  gp_end :: "string option" \<comment> \<open>the error that \<^verbatim>\<open>serve\<close>, and with it the process, ended with\<close>

subsection \<open>The start\<close>

text \<open>The heartbeat task starts before the address is bound; when that fails the process ends.\<close>

definition garage_main ::
  "agent_world \<Rightarrow> Args \<Rightarrow> (RegisterGarageRequest \<Rightarrow> string http_reply) \<Rightarrow> string \<Rightarrow> PitHttpDispatcher \<Rightarrow> string option
    \<Rightarrow> string + garage_process" where
  "garage_main w args circuit arch d bind_error =
     (case check_listen args of Inl e \<Rightarrow> Inl e | Inr _ \<Rightarrow>
     (case new_agent w args of Inl e \<Rightarrow> Inl e | Inr agent \<Rightarrow>
     (case register_garage circuit arch d agent of
        (Inl e, _) \<Rightarrow> Inl e
      | (Inr _, agent') \<Rightarrow>
          (case bind_error of
             Some e \<Rightarrow> Inl e
           | None \<Rightarrow> Inr \<lparr>gp_agent = agent', gp_connections = 0, gp_executions = [], gp_end = None\<rparr>))))"

subsection \<open>Its steps\<close>

text \<open>
  A turn of the heartbeat task has the answers of the Circuit, what it reports and the dispatcher; a
  warm-up has its result.
\<close>

datatype garage_act =
    Accept "string + unit"
  | Disconnect
  | Beat "string HeartbeatRequest \<Rightarrow> unit http_reply" "RegisterGarageRequest \<Rightarrow> string http_reply" "string list"
      "string list" "string list" PitHttpDispatcher
  | Receive RemoteExecutionRequest
  | WarmupEnds nat bool
  | Answer nat
  | DropRequest nat
  | GuestEnds nat

definition remove_at :: "nat \<Rightarrow> 'a list \<Rightarrow> 'a list" where
  "remove_at i xs = take i xs @ drop (Suc i) xs"

text \<open>The end of an execution whose request is still there: its permit is dropped.\<close>

definition leave :: "nat \<Rightarrow> garage_process \<Rightarrow> garage_process" where
  "leave i s = s\<lparr>gp_agent := release_permit (gp_agent s), gp_executions := remove_at i (gp_executions s)\<rparr>"

definition count_execution :: "GarageAgent \<Rightarrow> GarageAgent" where
  "count_execution a = a\<lparr>ag_executions := Suc (ag_executions a)\<rparr>"

definition phase_of :: "nat \<Rightarrow> garage_process \<Rightarrow> phase option" where
  "phase_of i s = (if i < length (gp_executions s) then Some (snd (gp_executions s ! i)) else None)"

definition set_phase :: "nat \<Rightarrow> phase \<Rightarrow> garage_process \<Rightarrow> garage_process" where
  "set_phase i ph s = s\<lparr>gp_executions := (gp_executions s)[i := (fst (gp_executions s ! i), ph)]\<rparr>"

fun garage_act_step :: "nat \<Rightarrow> string \<Rightarrow> garage_act \<Rightarrow> garage_process \<Rightarrow> garage_process option" where
  "garage_act_step version arch (Accept (Inl e)) s = Some (s\<lparr>gp_end := Some e\<rparr>)"
| "garage_act_step version arch (Accept (Inr _)) s = Some (s\<lparr>gp_connections := Suc (gp_connections s)\<rparr>)"
| "garage_act_step version arch Disconnect s =
     (case gp_connections s of 0 \<Rightarrow> None | Suc n \<Rightarrow> Some (s\<lparr>gp_connections := n\<rparr>))"
| "garage_act_step version arch (Beat hb reg local_ds prepared_ds warm_ds d) s =
     Some (s\<lparr>gp_agent := heartbeat_turn hb reg arch local_ds prepared_ds warm_ds d (gp_agent s)\<rparr>)"
| "garage_act_step version arch (Receive rq) s =
     (if gp_connections s = 0 then None
      else (case admit version rq (gp_agent s) of
              Inl _ \<Rightarrow> Some s
            | Inr a \<Rightarrow> Some (s\<lparr>gp_agent := a, gp_executions := gp_executions s @ [(rq, Warming)]\<rparr>)))"
| "garage_act_step version arch (WarmupEnds i ok) s =
     (if phase_of i s = Some Warming
      then Some (if ok then set_phase i Dispatched (s\<lparr>gp_agent := count_execution (gp_agent s)\<rparr>) else leave i s)
      else None)"
| "garage_act_step version arch (Answer i) s = (if phase_of i s = Some Dispatched then Some (leave i s) else None)"
| "garage_act_step version arch (DropRequest i) s =
     (case phase_of i s of
        Some Warming \<Rightarrow> Some (leave i s)
      | Some Dispatched \<Rightarrow> Some (set_phase i Detached (s\<lparr>gp_agent := release_permit (gp_agent s)\<rparr>))
      | _ \<Rightarrow> None)"
| "garage_act_step version arch (GuestEnds i) s =
     (if phase_of i s = Some Detached then Some (s\<lparr>gp_executions := remove_at i (gp_executions s)\<rparr>) else None)"

definition garage_step :: "nat \<Rightarrow> string \<Rightarrow> garage_act \<Rightarrow> garage_process \<Rightarrow> garage_process option" where
  "garage_step version arch act s = (if gp_end s = None then garage_act_step version arch act s else None)"

definition garage_exec :: "nat \<Rightarrow> string \<Rightarrow> garage_process \<Rightarrow> garage_process \<Rightarrow> bool" where
  "garage_exec version arch s t \<longleftrightarrow> (\<exists>act. garage_step version arch act s = Some t)"

fun garage_run :: "nat \<Rightarrow> string \<Rightarrow> garage_act list \<Rightarrow> garage_process \<Rightarrow> garage_process option" where
  "garage_run version arch [] s = Some s"
| "garage_run version arch (act # acts) s = Option.bind (garage_step version arch act s) (garage_run version arch acts)"

lemma garage_run_exec: "garage_run version arch acts s = Some t \<Longrightarrow> (garage_exec version arch)\<^sup>*\<^sup>* s t"
proof (induction version arch acts s rule: garage_run.induct)
  case (2 version arch act acts s)
  then obtain u where u: "garage_step version arch act s = Some u" "garage_run version arch acts u = Some t"
    by (auto simp: bind_eq_Some_conv)
  then have "garage_exec version arch s u" unfolding garage_exec_def by blast
  then show ?case using 2 u by (blast intro: converse_rtranclp_into_rtranclp)
qed simp

lemma garage_run_append:
  "garage_run version arch (acts @ later) s = Option.bind (garage_run version arch acts s) (garage_run version arch later)"
  by (induction version arch acts s rule: garage_run.induct) (auto split: Option.bind_split)

subsection \<open>The invariant\<close>

text \<open>Requests that wait hold a permit each; guests occupy a blocking thread each.\<close>

definition waiting :: "garage_process \<Rightarrow> nat" where
  "waiting s = cnt (\<lambda>x. snd x \<noteq> Detached) (gp_executions s)"

definition guests :: "garage_process \<Rightarrow> nat" where
  "guests s = cnt (\<lambda>x. snd x \<noteq> Warming) (gp_executions s)"

text \<open>The agent is that of the start but for its session, its permits and its count of executions.\<close>

definition garage_inv :: "GarageAgent \<Rightarrow> garage_process \<Rightarrow> bool" where
  "garage_inv a0 s \<longleftrightarrow>
     ag_session (gp_agent s) \<noteq> None \<and> ag_pending (gp_agent s) + waiting s = ag_pending a0
     \<and> gp_agent s = a0\<lparr>ag_session := ag_session (gp_agent s), ag_pending := ag_pending (gp_agent s),
         ag_executions := ag_executions (gp_agent s)\<rparr>"

lemma cnt_remove_at: "i < length xs \<Longrightarrow> cnt P (remove_at i xs) + of_bool (P (xs ! i)) = cnt P xs"
proof -
  assume "i < length xs"
  then have "cnt P xs = cnt P (take i xs @ xs ! i # drop (Suc i) xs)" using id_take_nth_drop by metis
  then show ?thesis by (simp add: remove_at_def)
qed

lemma phase_of_Some: "phase_of i s = Some ph \<longleftrightarrow> i < length (gp_executions s) \<and> snd (gp_executions s ! i) = ph"
  by (simp add: phase_of_def)

lemma waiting_leave: "phase_of i s = Some ph \<Longrightarrow> ph \<noteq> Detached \<Longrightarrow> Suc (waiting (leave i s)) = waiting s"
  using cnt_remove_at [of i "gp_executions s" "\<lambda>x. snd x \<noteq> Detached"] by (auto simp: phase_of_Some waiting_def leave_def)

lemma set_phase_agent [simp]: "gp_agent (set_phase i ph s) = gp_agent s"
  by (simp add: set_phase_def)

lemma agent_update [simp]: "set_phase i ph (s\<lparr>gp_agent := a\<rparr>) = (set_phase i ph s)\<lparr>gp_agent := a\<rparr>"
  "waiting (s\<lparr>gp_agent := a\<rparr>) = waiting s"
  by (simp_all add: set_phase_def waiting_def)

lemma waiting_set_phase:
  "phase_of i s = Some Warming \<Longrightarrow> waiting (set_phase i Dispatched s) = waiting s"
  "phase_of i s = Some Dispatched \<Longrightarrow> Suc (waiting (set_phase i Detached s)) = waiting s"
  using cnt_update [of i "gp_executions s" "\<lambda>x. snd x \<noteq> Detached" "(fst (gp_executions s ! i), Dispatched)"]
    cnt_update [of i "gp_executions s" "\<lambda>x. snd x \<noteq> Detached" "(fst (gp_executions s ! i), Detached)"]
  by (auto simp: phase_of_Some waiting_def set_phase_def)

lemma garage_inv_leave: "garage_inv a0 s \<Longrightarrow> phase_of i s = Some ph \<Longrightarrow> ph \<noteq> Detached \<Longrightarrow> garage_inv a0 (leave i s)"
  using waiting_leave [of i s ph] by (cases "gp_agent s") (auto simp: garage_inv_def leave_def release_permit_def)

lemma heartbeat_turn_agent:
  "ag_session a \<noteq> None \<Longrightarrow>
    ag_session (heartbeat_turn hb reg arch local_ds prepared_ds warm_ds d a) \<noteq> None
    \<and> heartbeat_turn hb reg arch local_ds prepared_ds warm_ds d a
      = a\<lparr>ag_session := ag_session (heartbeat_turn hb reg arch local_ds prepared_ds warm_ds d a)\<rparr>"
  by (simp add: heartbeat_turn_def register_garage_def split: sum.split http_reply.split)

text \<open>Every step keeps it.\<close>

lemma garage_inv_receive:
  assumes "garage_inv a0 s" and "garage_act_step version arch (Receive rq) s = Some t"
  shows "garage_inv a0 t"
proof (cases "admit version rq (gp_agent s)")
  case (Inl r)
  then show ?thesis using assms by (simp split: if_splits)
next
  case (Inr a)
  have t: "t = s\<lparr>gp_agent := a, gp_executions := gp_executions s @ [(rq, Warming)]\<rparr>"
    using assms(2) Inr by (simp split: if_splits)
  have "ag_pending (gp_agent s) = Suc (ag_pending a)" "a = (gp_agent s)\<lparr>ag_pending := ag_pending a\<rparr>"
    using admit_accepts [OF Inr] by auto
  then show ?thesis using assms(1) by (cases a0; cases a; cases "gp_agent s") (simp add: t garage_inv_def waiting_def)
qed

lemma garage_inv_warmup:
  assumes "garage_inv a0 s" and "garage_act_step version arch (WarmupEnds i ok) s = Some t"
  shows "garage_inv a0 t"
proof -
  have warming: "phase_of i s = Some Warming" using assms(2) by (simp split: if_splits)
  show ?thesis
  proof (cases ok)
    case True
    then have "t = (set_phase i Dispatched s)\<lparr>gp_agent := count_execution (gp_agent s)\<rparr>" using assms(2) warming by simp
    then show ?thesis using assms(1) waiting_set_phase(1) [OF warming]
      by (cases a0; cases "gp_agent s") (simp add: garage_inv_def count_execution_def)
  next
    case False
    then show ?thesis using assms warming garage_inv_leave [OF assms(1) warming] by simp
  qed
qed

lemma garage_inv_drop:
  assumes "garage_inv a0 s" and "garage_act_step version arch (DropRequest i) s = Some t"
  shows "garage_inv a0 t"
proof (cases "phase_of i s = Some Warming")
  case True
  then show ?thesis using assms garage_inv_leave [OF assms(1) True] by simp
next
  case False
  then have ph: "phase_of i s = Some Dispatched" and t: "t = (set_phase i Detached s)\<lparr>gp_agent := release_permit (gp_agent s)\<rparr>"
    using assms(2) by (auto split: option.splits phase.splits)
  show ?thesis using assms(1) waiting_set_phase(2) [OF ph]
    by (cases a0; cases "gp_agent s") (simp add: t garage_inv_def release_permit_def)
qed

lemma garage_inv_others:
  assumes "garage_inv a0 s" and "garage_act_step version arch act s = Some t"
    and "\<forall>rq i ok. act \<noteq> Receive rq \<and> act \<noteq> WarmupEnds i ok \<and> act \<noteq> DropRequest i"
  shows "garage_inv a0 t"
proof (cases act)
  case (Accept r)
  then show ?thesis using assms by (cases r) (auto simp: garage_inv_def waiting_def)
next
  case Disconnect
  then show ?thesis using assms by (auto simp: garage_inv_def waiting_def split: nat.splits)
next
  case (Beat hb reg local_ds prepared_ds warm_ds d)
  have t: "t = s\<lparr>gp_agent := heartbeat_turn hb reg arch local_ds prepared_ds warm_ds d (gp_agent s)\<rparr>"
    using assms(2) Beat by simp
  define a where "a = heartbeat_turn hb reg arch local_ds prepared_ds warm_ds d (gp_agent s)"
  have "ag_session a \<noteq> None" "a = (gp_agent s)\<lparr>ag_session := ag_session a\<rparr>"
    using heartbeat_turn_agent [of "gp_agent s" hb reg arch local_ds prepared_ds warm_ds d] assms(1)
    by (auto simp: garage_inv_def a_def)
  moreover have "t = s\<lparr>gp_agent := a\<rparr>" by (simp add: t a_def)
  ultimately show ?thesis using assms(1) by (cases a0; cases a; cases "gp_agent s") (auto simp: garage_inv_def)
next
  case (Answer i)
  then show ?thesis using assms garage_inv_leave [OF assms(1), of i Dispatched] by (simp split: if_splits)
next
  case (GuestEnds i)
  then have "phase_of i s = Some Detached" "t = s\<lparr>gp_executions := remove_at i (gp_executions s)\<rparr>"
    using assms(2) by (simp_all split: if_splits)
  then show ?thesis using assms(1) cnt_remove_at [of i "gp_executions s" "\<lambda>x. snd x \<noteq> Detached"]
    by (auto simp: garage_inv_def waiting_def phase_of_Some)
qed (use assms(3) in auto)

lemma garage_inv_step: "garage_inv a0 s \<Longrightarrow> garage_exec version arch s t \<Longrightarrow> garage_inv a0 t"
  using garage_inv_receive garage_inv_warmup garage_inv_drop garage_inv_others
  unfolding garage_exec_def garage_step_def by (metis option.distinct(1))

definition fresh_process :: "GarageAgent \<Rightarrow> garage_process \<Rightarrow> bool" where
  "fresh_process a0 s \<longleftrightarrow> garage_inv a0 s \<and> gp_executions s = []"

interpretation garage_sys: invariant_system "fresh_process a0" "garage_exec version arch" "garage_inv a0" for a0 version arch
  by unfold_locales (auto simp: fresh_process_def intro: garage_inv_step)

lemma garage_main_starts:
  assumes "garage_main w args circuit arch d bind_error = Inr s"
  obtains a0 where "new_agent w args = Inr a0" and "fresh_process a0 s" and "arg_loopback args"
    and "circuit (registration_request arch d a0) = Replied (the (ag_session (gp_agent s)))"
proof -
  obtain a0 where a0: "new_agent w args = Inr a0" and lo: "arg_loopback args"
    using assms by (auto simp: garage_main_def check_listen_def split: sum.splits if_splits)
  obtain session where reply: "circuit (registration_request arch d a0) = Replied session" and
    s: "s = \<lparr>gp_agent = a0\<lparr>ag_session := Some session\<rparr>, gp_connections = 0, gp_executions = [], gp_end = None\<rparr>"
    using assms a0 lo
    by (auto simp: garage_main_def check_listen_def register_garage_def split: http_reply.splits option.splits)
  show ?thesis using that [OF a0 _ lo] reply by (cases a0) (simp add: s fresh_process_def garage_inv_def waiting_def)
qed

subsection \<open>The properties\<close>

definition acceptable :: "nat \<Rightarrow> GarageId \<Rightarrow> RemoteExecutionRequest \<Rightarrow> bool" where
  "acceptable version g rq \<longleftrightarrow>
     rq_protocol_version rq = version \<and> rq_runtime_contract rq = WasiHttpProxy
     \<and> g \<notin> set (rq_visited_garages rq) \<and> unat (rq_invocation_depth rq) \<le> 16"

lemma admit_acceptable:
  assumes "acceptable version (ag_id a) rq"
  shows "admit version rq a =
    (case ag_pending a of
       0 \<Rightarrow> Inl (failure (base_response version a rq) Overloaded ''Garage admission limit exceeded'')
     | Suc n \<Rightarrow> Inr (a\<lparr>ag_pending := n\<rparr>))"
  using assms by (auto simp: acceptable_def admit_def Let_def list_ex_iff depth_over_16 split: nat.split)

text \<open>C28: a running Garage. In every state it can reach, it listens on a loopback address, it has a session
  with the Circuit, its identity, address and grants are those it was configured with, and its permits and
  the requests that wait make up the configured limit: at most so many requests wait at once, the Circuit is
  told that the Garage accepts exactly while there are fewer, and a proper request is admitted exactly
  then and is Overloaded otherwise.\<close>

theorem garage_process_invariant:
  assumes "garage_main w args circuit arch d bind_error = Inr s0" and "(garage_exec version arch)\<^sup>*\<^sup>* s0 s"
  shows "arg_loopback args \<and> ag_session (gp_agent s) \<noteq> None \<and> ag_id (gp_agent s) = arg_id args
    \<and> ag_endpoint (gp_agent s) = arg_listen args
    \<and> (arg_paddock_namespace args = None \<longrightarrow> ag_paddock_grants (gp_agent s) = [])
    \<and> ag_pending (gp_agent s) + waiting s = arg_max_pending args
    \<and> (hb_accepting (heartbeat_request arch session local_ds prepared_ds warm_ds d' (gp_agent s))
        \<longleftrightarrow> waiting s < arg_max_pending args)
    \<and> (acceptable version (arg_id args) rq \<longrightarrow>
        (if waiting s < arg_max_pending args then \<not> isl (admit version rq (gp_agent s))
         else \<exists>r. admit version rq (gp_agent s) = Inl r \<and> rp_error r = Some Overloaded))"
proof -
  obtain a0 where a0: "new_agent w args = Inr a0" "fresh_process a0 s0" "arg_loopback args"
    using garage_main_starts [OF assms(1)] by metis
  have s: "garage_inv a0 s" using garage_sys.inv_reachable [OF a0(2) assms(2)] .
  have conf: "ag_id a0 = arg_id args" "ag_endpoint a0 = arg_listen args" "ag_pending a0 = arg_max_pending args"
    "arg_paddock_namespace args = None \<longrightarrow> ag_paddock_grants a0 = []"
    using a0(1) by (auto simp: new_agent_def split: option.splits sum.splits)
  have agent: "ag_id (gp_agent s) = ag_id a0" "ag_endpoint (gp_agent s) = ag_endpoint a0"
    "ag_paddock_grants (gp_agent s) = ag_paddock_grants a0"
    using s by (cases a0; cases "gp_agent s"; simp add: garage_inv_def)+
  have admitted: "if waiting s < arg_max_pending args then \<not> isl (admit version rq (gp_agent s))
      else \<exists>r. admit version rq (gp_agent s) = Inl r \<and> rp_error r = Some Overloaded"
    if "acceptable version (arg_id args) rq"
    using that s conf agent admit_acceptable [of version "gp_agent s" rq]
    by (auto simp: garage_inv_def failure_def split: nat.splits)
  show ?thesis using s conf agent a0(3) admitted
    by (simp add: garage_inv_def heartbeat_request_def Let_def)
qed

text \<open>One request of a client that leaves once its guest runs.\<close>

definition hit_and_run :: "RemoteExecutionRequest \<Rightarrow> nat \<Rightarrow> garage_act list" where
  "hit_and_run rq k = [Accept (Inr ()), Receive rq, WarmupEnds k True, DropRequest k, Disconnect]"

lemma hit_and_run_adds:
  assumes "acceptable version (ag_id (gp_agent s)) rq" and "gp_end s = None" and "0 < ag_pending (gp_agent s)"
  shows "\<exists>t. garage_run version arch (hit_and_run rq (length (gp_executions s))) s = Some t
    \<and> gp_executions t = gp_executions s @ [(rq, Detached)] \<and> gp_end t = None
    \<and> ag_pending (gp_agent t) = ag_pending (gp_agent s) \<and> ag_id (gp_agent t) = ag_id (gp_agent s)"
  using assms admit_acceptable [OF assms(1)]
  by (auto simp: hit_and_run_def garage_step_def phase_of_def set_phase_def release_permit_def count_execution_def
      split: nat.splits)


text \<open>A Garage with one permit.\<close>

definition demo_agent_world :: agent_world where
  "demo_agent_world = \<lparr>setup_error = None, runtime_error = None, parse_namespace = Inr,
     full_grant = (\<lambda>ns. \<lparr>grant_namespace = ns, grant_delete = True, grant_list = True, grant_allows = (\<lambda>_ _. True)\<rparr>)\<rparr>"

definition demo_args :: Args where
  "demo_args = \<lparr>arg_id = ''g'', arg_listen = ''127.0.0.1:9000'', arg_loopback = True, arg_circuit = ''c'',
     arg_pitlane = ''p'', arg_paddock = ''local'', arg_max_pending = 1, arg_max_invocation_depth = 16,
     arg_max_preparations = 1, arg_paddock_namespace = None\<rparr>"

definition demo_process :: garage_process where
  "demo_process = \<lparr>gp_agent = \<lparr>ag_id = ''g'', ag_endpoint = ''127.0.0.1:9000'', ag_circuit_endpoint = ''c'',
       ag_pitlane_endpoint = ''p'', ag_paddock_name = ''local'', ag_paddock_grants = [], ag_pending = 1,
       ag_session = Some ''s'', ag_max_invocation_depth = 16, ag_executions = 0, ag_preparation_budget = 1\<rparr>,
     gp_connections = 0, gp_executions = [], gp_end = None\<rparr>"

definition demo_garage_dispatcher :: PitHttpDispatcher where
  "demo_garage_dispatcher = \<lparr>disp_runtime = plain_runtime, disp_scheduler = scheduler_with_lanes 1 0,
     disp_artifacts = [], disp_cache = None\<rparr>"

lemma demo_garage_starts:
  "garage_main demo_agent_world demo_args (\<lambda>_. Replied ''s'') ''x86_64'' demo_garage_dispatcher None = Inr demo_process"
  by (simp add: garage_main_def check_listen_def new_agent_def register_garage_def demo_agent_world_def demo_args_def
      demo_process_def trim_end_slash_def)

lemma plain_acceptable: "acceptable 1 (arg_id demo_args) (plain_execution [] 0)"
  by (simp add: acceptable_def plain_execution_def demo_args_def)

text \<open>Its one permit is taken by the first request; the second is Overloaded.\<close>

theorem garage_process_invariant_witness:
  "\<exists>s r. garage_run 1 ''x86_64'' [Accept (Inr ()), Receive (plain_execution [] 0)] demo_process = Some s \<and> waiting s = 1
    \<and> admit 1 (plain_execution [] 0) (gp_agent s) = Inl r \<and> rp_error r = Some Overloaded"
proof -
  obtain s where s: "garage_run 1 ''x86_64'' [Accept (Inr ()), Receive (plain_execution [] 0)] demo_process = Some s" "waiting s = 1"
    by (simp add: garage_step_def demo_process_def admit_def plain_execution_def waiting_def Let_def)
  have "arg_max_pending demo_args = 1" by (simp add: demo_args_def)
  then obtain r where "admit 1 (plain_execution [] 0) (gp_agent s) = Inl r" "rp_error r = Some Overloaded"
    using garage_process_invariant [OF demo_garage_starts garage_run_exec [OF s(1)], of "[]" "[] :: string list" "[]" "[]"
        demo_garage_dispatcher "plain_execution [] 0"] plain_acceptable s(2) by simp blast
  then show ?thesis using s by blast
qed


end
