(* ===== verification/Garage_End_To_End.thy ===== *)
theory Garage_End_To_End
  imports Garage_Registry Garage_Host Pit_Dispatch_Claims Sched_Shared_Claims
begin

section \<open>A remote execution from end to end\<close>

text \<open>
  The parts of a Garage put together: the admission of \<^verbatim>\<open>GarageAgent::execute\<close>, the warm-up with
  the registry of the dispatcher, the dispatcher's pool of lanes on which the execution runs among others,
  and the guest in the host state that its request determines. What the agent leaves open in
  \<^verbatim>\<open>Garage_Execute\<close>, the answer of the dispatcher, is here that of the pool.
\<close>

subsection \<open>The dispatch\<close>

text \<open>
  What the agent brings to the dispatcher: its request, the default limits, its invoker and the depth; the
  artifact is the one found for the key.
\<close>

definition garage_caller ::
  "http_lib \<Rightarrow> (string \<Rightarrow> string + string) \<Rightarrow> (string \<Rightarrow> string) \<Rightarrow> ('b, 'w) http_program
    \<Rightarrow> (ExecutionId \<Rightarrow> LaneId \<Rightarrow> instant \<times> http_clock) \<Rightarrow> ('b, 'w) paddock_backend option \<Rightarrow> ServiceInvoker
    \<Rightarrow> GarageAgent \<Rightarrow> RemoteExecutionRequest \<Rightarrow> PreparedArtifact \<Rightarrow> http_caller" where
  "garage_caller lib parse_uri sha program clock object_paddock invoker a rq prepared =
     invoker_caller lib parse_uri sha program clock prepared (garage_call object_paddock a rq) default_limits
       (Some invoker) (rq_invocation_depth rq)"

text \<open>
  \<^verbatim>\<open>PitHttpDispatcher::execute_http_with_invoker\<close> as its caller sees it: an unknown key is an error
  before anything runs; otherwise the result is made of what the caller's call of the pool has returned,
  if it has.
\<close>

definition dispatch_outcome ::
  "string \<Rightarrow> PitHttpDispatcher \<Rightarrow> http_value pool \<Rightarrow> nat \<Rightarrow> duration \<Rightarrow> duration \<Rightarrow> dispatched option" where
  "dispatch_outcome key d s m guest_started lookup =
     (case find_prepared key d of
        Inl e \<Rightarrow> Some (DispatchErr e)
      | Inr _ \<Rightarrow> map_option (\<lambda>scheduled. DispatchOk (dispatch_result guest_started lookup scheduled)) (c_result (callers s ! m)))"

subsection \<open>Lemmas\<close>

lemma shown_id_display: "display_execution_id False e = Some (shown_id e)"
  by (simp add: shown_id_def display_execution_id_def)

lemma shown_id_inj: "shown_id e = shown_id f \<Longrightarrow> e = f"
  using display_execution_id_inj shown_id_display by metis

text \<open>No other caller that has returned was given the identifier.\<close>

lemma finished_ids:
  assumes "pool_reachable env lanes n s" and "m < n" "m' < n" "m' \<noteq> m"
    and "c_pc (callers s ! m) = AtDone" "c_pc (callers s ! m') = AtDone"
  shows "shown_id (c_eid (callers s ! m')) \<noteq> shown_id (c_eid (callers s ! m))"
proof -
  note inv = pool_reachable_parts [OF assms(1)] and len = pool_reachable_length [OF assms(1)]
  have "c_eid (callers s ! m') \<noteq> c_eid (callers s ! m)"
    using ids_distinct [OF inv(2)] assms len by (simp add: entered_def)
  then show ?thesis using shown_id_inj by blast
qed

text \<open>The response of the agent to a finished dispatch, once the request is admitted and its artifact warm.\<close>

lemma admitted_response:
  assumes "admit version rq a = Inr a1" and "ew_warmup w (rq_artifact_digest rq) (rq_source_paddock rq) = Inr warm"
    and "ew_dispatch w (rq_artifact_digest rq) (guest_request a1 rq) (rq_invocation_depth rq) = DispatchOk d"
  shows "fst (garage_execute version w rq a) = finished_response (base_response version a rq) warm d (ew_elapsed w)"
proof -
  have "a1 = a\<lparr>ag_pending := ag_pending a1\<rparr>" using admit_accepts [OF assms(1)] by blast
  then have "base_response version a1 rq = base_response version a rq" by (metis base_response_pending)
  then show ?thesis using assms by (simp add: garage_execute_def run_admitted_def Let_def)
qed

lemma finished_fields:
  "rp_accepted (finished_response b warm d t)" "rp_started (finished_response b warm d t)"
  "rp_execution_id (finished_response b warm d t) = shown_id (hd_execution_id d)"
  "rp_lane_id (finished_response b warm d t) = Some (lane_num (hd_lane_id d))"
  by (simp_all add: finished_response_def Let_def split: option.split)

lemma finished_ok:
  "hd_response d = Some v \<Longrightarrow> rp_guest_status (finished_response b warm d t) = Some (http_status v)
    \<and> rp_headers (finished_response b warm d t) = http_headers v \<and> rp_body (finished_response b warm d t) = http_body v
    \<and> rp_error (finished_response b warm d t) = rp_error b"
  by (simp add: finished_response_def Let_def)

lemma finished_err:
  "hd_response d = None \<Longrightarrow> hd_error d = Some e \<Longrightarrow>
    rp_guest_status (finished_response b warm d t) = rp_guest_status b
    \<and> rp_error (finished_response b warm d t) = Some (if contains ''timeout'' e then Timeout else GuestFailure)
    \<and> rp_error_message (finished_response b warm d t) = Some e"
  by (simp add: finished_response_def Let_def)

subsection \<open>The property\<close>

text \<open>What the response says of the outcome of an HTTP execution.\<close>

definition answers_with :: "RemoteExecutionResponse \<Rightarrow> string + HttpResponse \<Rightarrow> bool" where
  "answers_with rp outcome \<longleftrightarrow>
     (case outcome of
        Inr v \<Rightarrow> rp_guest_status rp = Some (http_status v) \<and> rp_headers rp = http_headers v \<and> rp_body rp = http_body v
          \<and> rp_error rp = None
      | Inl e \<Rightarrow> rp_guest_status rp = None \<and> rp_error_message rp = Some e
          \<and> rp_error rp = Some (if contains ''timeout'' e then Timeout else GuestFailure))"

lemma dispatched_answer:
  assumes "pool_reachable (execute_http_with_invoker requests wall) lanes (length requests) s"
    and "m < length requests" and "c_pc (callers s ! m) = AtDone"
    and "requests ! m = garage_caller lib parse_uri sha program clock b invoker a1 rq p"
  shows "\<exists>scheduled. c_result (callers s ! m) = Some scheduled
    \<and> (let d = dispatch_result gs lk scheduled; e = c_eid (callers s ! m); l = LaneId (c_lane (callers s ! m)) in
       hd_execution_id d = e \<and> hd_lane_id d = l
       \<and> (case execute_http (fst (clock e l)) (guest_of lib parse_uri sha program (garage_call b a1 rq) default_limits
            (Some invoker) (Some (shown_id e)) (rq_invocation_depth rq)) p default_limits of
            Inr v \<Rightarrow> hd_response d = Some v | Inl err \<Rightarrow> hd_response d = None \<and> hd_error d = Some err))"
proof -
  let ?e = "c_eid (callers s ! m)" and ?l = "LaneId (c_lane (callers s ! m))"
  let ?g = "guest_of lib parse_uri sha program (garage_call b a1 rq) default_limits (Some invoker) (Some (shown_id ?e))
    (rq_invocation_depth rq)"
  have parts: "hc_prepared (requests ! m) = p" "hc_limits (requests ! m) = default_limits"
    "hc_world (requests ! m) ?e ?l = (fst (clock ?e ?l), snd (clock ?e ?l), ?g)"
    by (simp_all add: assms(4) garage_caller_def invoker_caller_def shown_id_display split: prod.split)
  obtain scheduled where sch: "c_result (callers s ! m) = Some scheduled"
    "let d = dispatch_result gs lk scheduled; q = requests ! m; (now, clock, h) = hc_world q (hd_execution_id d) (hd_lane_id d)
     in hd_execution_id d = ?e \<and> hd_lane_id d = ?l
       \<and> (case execute_http now h (hc_prepared q) (hc_limits q) of
            Inr response \<Rightarrow> hd_response d = Some response \<and> hd_error d = None \<and> hd_runtime_timings d = timings_of clock
          | Inl e \<Rightarrow> hd_response d = None \<and> hd_error d = Some e \<and> hd_runtime_timings d = default_timings)"
    using dispatched_report [OF assms(1) [unfolded execute_http_with_invoker_def] assms(2,3)] by blast
  then have "hd_execution_id (dispatch_result gs lk scheduled) = ?e" "hd_lane_id (dispatch_result gs lk scheduled) = ?l"
    by (auto simp: Let_def)
  then show ?thesis using sch parts by (auto simp: Let_def split: sum.splits)
qed

text \<open>C22: a remote execution is served by its own artifact, in its own name. Let a request be admitted and its
  warm-up have returned, in any interleaving of the warm-ups; then the dispatcher has the artifact of the
  request's digest. Let the call on the pool, among any other requests and in any interleaving, have
  returned. Then the request is answered as accepted and started, with the identifier and the lane it ran
  on, which no other finished request was given; and with status, headers and body, or the error, of the
  execution of that artifact by a guest whose host state is that of this request, with the identifier in
  the response as the parent of the guest's own calls.\<close>

theorem remote_execution_served:
  assumes "admit version rq a = Inr a1"
    and "warming_start n paddock keys d0 j0" "warming_exec\<^sup>*\<^sup>* j0 j" "warming_exec\<^sup>*\<^sup>* j k"
    and "i < length keys" "keys ! i = rq_artifact_digest rq" "wt_pcs (jw_table j) ! i = Returned (Inr warm)"
    and "ew_warmup w (rq_artifact_digest rq) (rq_source_paddock rq) = Inr warm"
    and "pool_reachable (execute_http_with_invoker requests wall) lanes (length requests) s"
    and "m < length requests" "c_pc (callers s ! m) = AtDone"
    and "Some (ew_dispatch w (rq_artifact_digest rq) (guest_request a1 rq) (rq_invocation_depth rq))
      = dispatch_outcome (rq_artifact_digest rq) (jw_dispatcher k) s m gs lk"
  shows "\<exists>p. find_prepared (rq_artifact_digest rq) (jw_dispatcher k) = Inr p \<and> p_id p = rq_artifact_digest rq
    \<and> (requests ! m = garage_caller lib parse_uri sha program clock b invoker a1 rq p \<longrightarrow>
        (let rp = fst (garage_execute version w rq a); e = c_eid (callers s ! m); l = LaneId (c_lane (callers s ! m)) in
          rp_accepted rp \<and> rp_started rp \<and> rp_execution_id rp = shown_id e \<and> rp_lane_id rp = Some (lane_num l)
          \<and> (\<forall>m'<length requests. m' \<noteq> m \<and> c_pc (callers s ! m') = AtDone
                \<longrightarrow> shown_id (c_eid (callers s ! m')) \<noteq> rp_execution_id rp)
          \<and> answers_with rp (execute_http (fst (clock e l)) (guest_of lib parse_uri sha program (garage_call b a1 rq)
                default_limits (Some invoker) (Some (rp_execution_id rp)) (rq_invocation_depth rq)) p default_limits)))"
proof -
  obtain p where p: "find_prepared (rq_artifact_digest rq) (jw_dispatcher k) = Inr p" "p_id p = rq_artifact_digest rq"
    using warmed_artifact_found [OF assms(2-5,7)] assms(6) by auto
  let ?rp = "fst (garage_execute version w rq a)" and ?e = "c_eid (callers s ! m)"
  let ?l = "LaneId (c_lane (callers s ! m))"
  let ?outcome = "execute_http (fst (clock ?e ?l)) (guest_of lib parse_uri sha program (garage_call b a1 rq) default_limits
    (Some invoker) (Some (shown_id ?e)) (rq_invocation_depth rq)) p default_limits"
  have served: "rp_accepted ?rp \<and> rp_started ?rp \<and> rp_execution_id ?rp = shown_id ?e \<and> rp_lane_id ?rp = Some (lane_num ?l)
      \<and> answers_with ?rp ?outcome"
    if caller: "requests ! m = garage_caller lib parse_uri sha program clock b invoker a1 rq p"
  proof -
    obtain scheduled where sch: "c_result (callers s ! m) = Some scheduled"
      "hd_execution_id (dispatch_result gs lk scheduled) = ?e" "hd_lane_id (dispatch_result gs lk scheduled) = ?l"
      "case ?outcome of Inr v \<Rightarrow> hd_response (dispatch_result gs lk scheduled) = Some v
        | Inl err \<Rightarrow> hd_response (dispatch_result gs lk scheduled) = None
            \<and> hd_error (dispatch_result gs lk scheduled) = Some err"
      using dispatched_answer [OF assms(9-11) caller, of gs lk] by (auto simp: Let_def)
    then have "ew_dispatch w (rq_artifact_digest rq) (guest_request a1 rq) (rq_invocation_depth rq)
        = DispatchOk (dispatch_result gs lk scheduled)"
      using assms(12) p(1) by (simp add: dispatch_outcome_def)
    from admitted_response [OF assms(1,8) this] have rp: "?rp = finished_response (base_response version a rq) warm
        (dispatch_result gs lk scheduled) (ew_elapsed w)" .
    have "answers_with ?rp ?outcome"
      using sch(4) finished_ok finished_err unfolding rp answers_with_def
      by (cases ?outcome) (simp_all add: base_response_def)
    then show ?thesis using sch(2,3) unfolding rp by (simp add: finished_fields)
  qed
  then show ?thesis
    using p finished_ids [OF assms(9,10) _ _ assms(11)] by (intro exI [of _ p]) (auto simp: Let_def)
qed

text \<open>The warm-up of one artifact, then one request on a pool of one lane, whatever its task returns.\<close>

definition quick_program :: "(nat list, nat) http_program" where
  "quick_program st req = calm_http"

definition first_execution :: RemoteExecutionRequest where
  "first_execution = (plain_execution [''g1''] 3)\<lparr>rq_artifact_digest := ''sha256:abcd''\<rparr>"

definition first_caller :: "GarageAgent \<Rightarrow> PreparedArtifact \<Rightarrow> http_caller" where
  "first_caller a p = garage_caller plain_lib Inr id quick_program (\<lambda>_ _. (0, calm_clock)) None (\<lambda>_. InvokerPanicked) a
     first_execution p"

definition calm_acts_with :: "http_value outcome \<Rightarrow> (instant \<times> http_value pool_act) list" where
  "calm_acts_with out = map (\<lambda>d. (d, Advance 0 (Some out))) [0..<18] @ [(19, NotifyOne 0 None), (20, Advance 0 None)]"

lemma calm_run_with:
  assumes "may_return env 0 (ExecutionId 0) (LaneId 0) (TaskOk v)" and "\<forall>i e l. \<not> observer_panics env i e l"
  shows "map_option (\<lambda>s. map (\<lambda>c. (c_pc c, c_eid c)) (callers s)) (pool_run env (calm_acts_with (TaskOk v)) calm_start)
    = Some [(AtDone, ExecutionId 0)]"
  using assms
  by (simp add: calm_acts_with_def calm_start_def upt_0_numeral replicate_numeral init_pool_def scheduler_with_lanes_def
      new_caller_def caller_step_def wake_allowed_def wake_chosen_def vacate_lane_def duration_since_def
      caller_result_def nanos_u64_def)

lemma registered_whole:
  assumes "register_with_report key demo_preparation demo_artifact demo_dispatcher [] = (Inr rep, d', fs')"
  shows "\<exists>p. find_prepared key d' = Inr p \<and> p_http_engine p \<and> p_http_ticker p \<and> (p_http_pre p \<or> p_http_component p \<and> p_http_linker p)"
proof -
  obtain p where p: "prepare_for demo_dispatcher demo_preparation demo_artifact [] = (Inr (p, rep), fs')"
    "d' = demo_dispatcher\<lparr>disp_artifacts := AList.update key p (disp_artifacts demo_dispatcher)\<rparr>"
    using assms by (auto simp: register_with_report_def split: prod.splits sum.splits)
  have "format_of demo_preparation demo_artifact = Inr ComponentFormat"
    by (simp add: format_of_def demo_preparation_def demo_artifact_def open_artifact_def from_path_with_digest_def
        read_artifact_def digest_once_def)
  then show ?thesis
    using prepare_for_prepared [OF p(1)] by (auto simp: p(2) find_prepared_def)
qed

lemma one_registration_serves:
  "\<exists>j rep p. warming_run one_registration demo_warming = Some j \<and> wt_pcs (jw_table j) ! 0 = Returned (Inr rep)
    \<and> find_prepared ''sha256:abcd'' (jw_dispatcher j) = Inr p
    \<and> p_http_engine p \<and> p_http_ticker p \<and> (p_http_pre p \<or> p_http_component p \<and> p_http_linker p)"
proof -
  obtain rep d' fs' where r: "register_with_report ''sha256:abcd'' demo_preparation (from_path_with_digest ''/a.wasm'' ''sha256:abcd'')
      demo_dispatcher [] = (Inr rep, d', fs')"
    using demo_registers [of "''sha256:abcd''"] unfolding demo_artifact_def by blast
  then obtain p where p: "find_prepared ''sha256:abcd'' d' = Inr p" "p_http_engine p" "p_http_ticker p"
    "p_http_pre p \<or> p_http_component p \<and> p_http_linker p"
    using registered_whole unfolding demo_artifact_def by blast
  have "\<exists>j rep. warming_run one_registration demo_warming = Some j \<and> wt_pcs (jw_table j) ! 0 = Returned (Inr rep)
      \<and> jw_dispatcher j = d'"
    by (cases "pr_source rep")
      (auto simp: one_registration_def demo_warming_def warming_step_def register_call_def r warm_run_simps)
  then show ?thesis using p by blast
qed

lemma first_request_built: "\<exists>req. handler_request_of plain_lib Inr (garage_call (b :: (nat list, nat) paddock_backend option) a first_execution) = Inr req"
  by (simp add: handler_request_of_def garage_call_def guest_request_def HttpRequest.defs HttpCall.defs plain_lib_def
      first_execution_def plain_execution_def)

lemma first_outcome:
  assumes "p_http_engine p" "p_http_ticker p" "p_http_pre p \<or> p_http_component p \<and> p_http_linker p"
  shows "execute_http now (guest_of plain_lib Inr id quick_program (garage_call None a first_execution) default_limits
    (Some invoker) parent depth) p default_limits = Inr ok_response"
proof -
  obtain req where "handler_request_of plain_lib Inr (garage_call (None :: (nat list, nat) paddock_backend option) a first_execution) = Inr req"
    using first_request_built by blast
  then have g: "guest_of plain_lib Inr id quick_program (garage_call None a first_execution) default_limits
      (Some invoker) parent depth = calm_http"
    by (simp add: guest_of_def quick_program_def calm_http_def)
  have "http_ready p calm_http" "instantiates now calm_http default_limits"
    "find (limit_stops now default_limits) (g_call_events (h_guest calm_http)) = None"
    using assms by (auto simp: http_ready_def calm_http_def instantiates_def default_limits_def)
  from http_call_free [OF this] show ?thesis by (simp add: g calm_http_def)
qed

lemma first_call_returns:
  assumes "p_http_engine p" "p_http_ticker p" "p_http_pre p \<or> p_http_component p \<and> p_http_linker p"
  obtains s where "pool_reachable (execute_http_with_invoker [first_caller a p] id) 1 (length [first_caller a p]) s"
    and "c_pc (callers s ! 0) = AtDone" and "c_eid (callers s ! 0) = ExecutionId 0"
proof -
  let ?env = "execute_http_with_invoker [first_caller a p] id" and ?v = "(ok_response, timings_of calm_clock)"
  have "may_return ?env 0 e l (TaskOk ?v)" for e l
    using first_outcome [OF assms]
    by (simp add: execute_http_with_invoker_def dispatch_env_def http_task_def first_caller_def garage_caller_def
        invoker_caller_def execute_http_timed_def)
  then have "map_option (\<lambda>s. map (\<lambda>c. (c_pc c, c_eid c)) (callers s)) (pool_run ?env (calm_acts_with (TaskOk ?v)) calm_start)
      = Some [(AtDone, ExecutionId 0)]"
    by (rule calm_run_with) (simp add: execute_http_with_invoker_def dispatch_env_def)
  then obtain s where s: "pool_run ?env (calm_acts_with (TaskOk ?v)) calm_start = Some s"
    "map (\<lambda>c. (c_pc c, c_eid c)) (callers s) = [(AtDone, ExecutionId 0)]" by auto
  have "shared_start 1 1 calm_start" by (auto simp: shared_start_def calm_start_def new_scheduler_def)
  then have "pool_reachable ?env 1 (length [first_caller a p]) s" using pool_reachable_run [OF _ s(1)] by simp
  then show ?thesis using that s(2) by auto
qed

theorem remote_execution_served_witness:
  "\<exists>w. rp_guest_status (fst (garage_execute 1 w first_execution (plain_agent ''g2'' 8))) = Some 200
    \<and> rp_execution_id (fst (garage_execute 1 w first_execution (plain_agent ''g2'' 8))) = ''0001''"
proof -
  obtain j warm p where j: "warming_run one_registration demo_warming = Some j"
    "wt_pcs (jw_table j) ! 0 = Returned (Inr warm)" "find_prepared ''sha256:abcd'' (jw_dispatcher j) = Inr p"
    "p_http_engine p" "p_http_ticker p" "p_http_pre p \<or> p_http_component p \<and> p_http_linker p"
    using one_registration_serves by blast
  obtain a1 where a1: "admit 1 first_execution (plain_agent ''g2'' 8) = Inr a1"
    by (simp add: admit_def plain_agent_def first_execution_def plain_execution_def Let_def word_less_nat_alt)
  obtain s where r: "pool_reachable (execute_http_with_invoker [first_caller a1 p] id) 1 (length [first_caller a1 p]) s"
    and fin: "c_pc (callers s ! 0) = AtDone" and e: "c_eid (callers s ! 0) = ExecutionId 0"
    using first_call_returns [OF j(4-6)] .
  have "c_result (callers s ! 0) \<noteq> None" using dispatched_report [OF r [unfolded execute_http_with_invoker_def] _ fin] by auto
  then obtain d where d: "dispatch_outcome ''sha256:abcd'' (jw_dispatcher j) s 0 0 0 = Some d"
    using j(3) by (auto simp: dispatch_outcome_def)
  let ?w = "\<lparr>ew_warmup = (\<lambda>_ _. Inr warm), ew_dispatch = (\<lambda>_ _ _. d), ew_elapsed = 9\<rparr>"
  have start: "warming_start 1 False [''sha256:abcd''] demo_dispatcher demo_warming"
    by (simp add: warming_start_def demo_warming_def demo_dispatcher_def)
  have digest: "rq_artifact_digest first_execution = ''sha256:abcd''" by (simp add: first_execution_def)
  have caller: "[first_caller a1 p] ! 0 = garage_caller plain_lib Inr id quick_program (\<lambda>_ _. (0, calm_clock)) None
      (\<lambda>_. InvokerPanicked) a1 first_execution p"
    by (simp add: first_caller_def)
  let ?rp = "fst (garage_execute 1 ?w first_execution (plain_agent ''g2'' 8))"
  have "rp_execution_id ?rp = shown_id (ExecutionId 0) \<and> answers_with ?rp (Inr ok_response)"
    using remote_execution_served [OF a1 start warming_run_exec [OF j(1)] rtranclp.rtrancl_refl, of 0 warm ?w
        "[first_caller a1 p]" id 1 s 0 0 0 plain_lib Inr id quick_program "\<lambda>_ _. (0, calm_clock)" None "\<lambda>_. InvokerPanicked"]
      caller j(2,3) r fin d
    by (simp add: digest first_outcome [OF j(4-6)] e Let_def)
  moreover have "shown_id (ExecutionId 0) = ''0001''" by code_simp
  ultimately show ?thesis by (intro exI [of _ ?w]) (simp add: answers_with_def ok_response_def)
qed

end
