(* ===== verification/Pit_Node_Main.thy ===== *)
theory Pit_Node_Main
  imports Pit_Node_Claims Rt_Prepare Rt_Runtime
begin

section \<open>The command line of the node\<close>

text \<open>
  \<^verbatim>\<open>apps/pit-node/src/main.rs\<close> with what it calls to make a node and a request: the node of a
  file, the default request for its artifact, and what a finished batch prints and exits with. Parsing
  the command line is clap's.
\<close>

subsection \<open>Making nodes and requests\<close>

text \<open>\<^verbatim>\<open>ExecutionRequest::new\<close> and the builders; the program name is derived from the source.\<close>

definition new_request :: "(string \<Rightarrow> bool) \<Rightarrow> WasmArtifact \<Rightarrow> ExecutionRequest" where
  "new_request utf8 a =
     \<lparr>req_artifact = art_id a, req_program = program_name utf8 a, req_entrypoint = ''_start'', req_args = [],
      req_env = [], req_limits = \<lparr>lim_timeout = None, lim_memory_bytes = None\<rparr>\<rparr>"

definition with_args :: "string list \<Rightarrow> ExecutionRequest \<Rightarrow> ExecutionRequest" where
  "with_args args r = r\<lparr>req_args := args\<rparr>"

definition with_entrypoint :: "string \<Rightarrow> ExecutionRequest \<Rightarrow> ExecutionRequest" where
  "with_entrypoint entrypoint r = r\<lparr>req_entrypoint := entrypoint\<rparr>"

definition with_env :: "(string \<times> string) list \<Rightarrow> ExecutionRequest \<Rightarrow> ExecutionRequest" where
  "with_env env r = r\<lparr>req_env := env\<rparr>"

definition with_limits :: "ExecutionLimits \<Rightarrow> ExecutionRequest \<Rightarrow> ExecutionRequest" where
  "with_limits limits r = r\<lparr>req_limits := limits\<rparr>"

definition source_path :: "ArtifactSource \<Rightarrow> string option" where
  "source_path source = (case source of PathSource path \<Rightarrow> Some path | BytesSource _ \<Rightarrow> None)"

definition from_artifact ::
  "runtime_world \<Rightarrow> preparation \<Rightarrow> nat option \<Rightarrow> instant \<Rightarrow> WasmArtifact \<Rightarrow> string + PitNode" where
  "from_artifact w pr parallelism now artifact =
     (case fst (with_config w default_config) of
        Inl e \<Rightarrow> Inl e
      | Inr rt \<Rightarrow>
          (case prepare_plain (pr\<lparr>prep_config := rt_config rt\<rparr>) artifact of
             Inl e \<Rightarrow> Inl e
           | Inr prepared \<Rightarrow>
               Inr \<lparr>node_prepared = prepared, node_scheduler = local_scheduler parallelism now,
                    node_source_path = source_path (art_source artifact)\<rparr>))"

definition from_file ::
  "runtime_world \<Rightarrow> preparation \<Rightarrow> nat option \<Rightarrow> instant \<Rightarrow> string \<Rightarrow> string + PitNode" where
  "from_file w pr parallelism now path = from_artifact w pr parallelism now (from_path path)"

text \<open>\<^verbatim>\<open>PitNode::run\<close> up to the start of its workers.\<close>

definition run_begin ::
  "string \<Rightarrow> exec_world \<Rightarrow> (string \<Rightarrow> bool) \<Rightarrow> WasmArtifact \<Rightarrow> PitNode \<Rightarrow> nat \<Rightarrow> nat list \<Rightarrow> instant list
    \<Rightarrow> (instant \<Rightarrow> nat) \<Rightarrow> instant \<Rightarrow> string + (RuntimeExecutionResult batch_job \<times> RuntimeExecutionResult batch)" where
  "run_begin p2_entry world utf8 artifact node n gaps queued wall now =
     execute_many_begin p2_entry world node (new_request utf8 artifact) n gaps queued wall now"

subsection \<open>What is printed\<close>

definition summary_line :: "NodeRunReport \<Rightarrow> string" where
  "summary_line rep =
     ''pit-node completed '' @ dec (nr_completed rep) @ '' of '' @ dec (nr_requested rep) @ '' execution(s) on ''
     @ dec (nr_execution_lanes rep) @ '' lane(s)''"

text \<open>\<open>None\<close> is the panic of showing the last identifier in a build with overflow checks.\<close>

definition failure_line :: "bool \<Rightarrow> NodeExecutionResult \<Rightarrow> string option" where
  "failure_line checks x =
     map_option (\<lambda>shown. ''execution '' @ shown @ '' failed on lane '' @ display_lane_id (nx_lane_id x)
         @ '': status='' @ status_name (nx_status x)
         @ '', error='' @ (case nx_error x of Some e \<Rightarrow> e | None \<Rightarrow> ''unknown error''))
       (display_execution_id checks (nx_execution_id x))"

fun all_lines :: "string option list \<Rightarrow> string list option" where
  "all_lines [] = Some []"
| "all_lines (None # _) = None"
| "all_lines (Some l # ls) = map_option (\<lambda>rest. l # rest) (all_lines ls)"

record cli_end =
  cli_stdout :: "string list"
  cli_stderr :: "string list"
  cli_result :: "string + unit"

definition report_cli :: "bool \<Rightarrow> NodeRunReport \<Rightarrow> cli_end option" where
  "report_cli checks rep =
     (if nr_completed rep \<noteq> nr_requested rep
      then map_option (\<lambda>errs. \<lparr>cli_stdout = [summary_line rep], cli_stderr = errs,
               cli_result = Inl ''one or more WASM executions failed''\<rparr>)
             (all_lines (map (failure_line checks) (filter (\<lambda>x. nx_status x \<noteq> Completed) (nr_executions rep))))
      else Some \<lparr>cli_stdout = [summary_line rep], cli_stderr = [], cli_result = Inr ()\<rparr>)"

text \<open>\<^verbatim>\<open>main\<close> after the batch: an error of the run ends it, a panic of the run too.\<close>

definition node_main_end ::
  "bool \<Rightarrow> PitNode \<Rightarrow> nat \<Rightarrow> duration \<Rightarrow> RuntimeExecutionResult batch \<Rightarrow> cli_end option" where
  "node_main_end checks node n elapsed s =
     (case execute_many_end node n elapsed s of
        None \<Rightarrow> None
      | Some (Inl e) \<Rightarrow> Some \<lparr>cli_stdout = [], cli_stderr = [], cli_result = Inl e\<rparr>
      | Some (Inr rep) \<Rightarrow> report_cli checks rep)"

subsection \<open>Lemmas\<close>

lemma all_lines_Some: "all_lines (map f xs) = Some ls \<longleftrightarrow> map f xs = map Some ls"
proof (induction xs arbitrary: ls)
  case (Cons x xs)
  then show ?case by (cases "f x"; cases ls) auto
qed auto

lemma release_line: "failure_line False x \<noteq> None"
  by (simp add: failure_line_def display_execution_id_def)

lemma all_release_lines: "\<exists>ls. all_lines (map (failure_line False) xs) = Some ls"
proof (induction xs)
  case (Cons x xs)
  then show ?case using release_line [of x] by auto
qed simp

text \<open>A node made from a file is one whose batches the theorems on nodes are about.\<close>

lemma from_file_prepared:
  assumes "from_file w pr parallelism now path = Inr node"
  shows "\<exists>format pre. node_prepared node = prepared_with_world (''path:'' @ path) format None False pre"
    and "node_source_path node = Some path" and "node_scheduler node = local_scheduler parallelism now"
proof -
  obtain rt :: PitRuntime and prepared where p: "prepare_plain (pr\<lparr>prep_config := rt_config rt\<rparr>) (from_path path) = Inr prepared"
    "node = \<lparr>node_prepared = prepared, node_scheduler = local_scheduler parallelism now, node_source_path = Some path\<rparr>"
  proof -
    obtain rt where rt: "fst (with_config w default_config) = Inr rt"
      using assms by (auto simp: from_file_def from_artifact_def split: sum.splits)
    then obtain prepared where "prepare_plain (pr\<lparr>prep_config := rt_config rt\<rparr>) (from_path path) = Inr prepared"
      using assms by (auto simp: from_file_def from_artifact_def split: sum.splits)
    then show ?thesis
      using that [of rt prepared] assms rt by (simp add: from_file_def from_artifact_def source_path_def from_path_def)
  qed
  then show "\<exists>format pre. node_prepared node = prepared_with_world (''path:'' @ path) format None False pre"
    using prepare_plain_success [OF p(1)] by (auto simp: from_path_def)
  show "node_source_path node = Some path" and "node_scheduler node = local_scheduler parallelism now"
    using p(2) by simp_all
qed

lemma p_id_prepared_with_world: "p_id (prepared_with_world artifact format world cached pre) = artifact"
  by (simp add: prepared_with_world_def prepared_cached_def split: ArtifactFormat.split)

text \<open>Its default request is accepted by that node.\<close>

lemma new_request_accepted:
  assumes "from_file w pr parallelism now path = Inr node"
  shows "validate (new_request utf8 (from_path path)) = Inr ()"
    and "req_artifact (new_request utf8 (from_path path)) = p_id (node_prepared node)"
proof -
  show "validate (new_request utf8 (from_path path)) = Inr ()"
    by (simp add: validate_accepts well_formed_request_def new_request_def NUL_def byte_of_val_def char_of_def)
  show "req_artifact (new_request utf8 (from_path path)) = p_id (node_prepared node)"
    using from_file_prepared(1) [OF assms] p_id_prepared_with_world by (auto simp: new_request_def from_path_def)
qed

lemma report_completed:
  assumes "execute_many_end node n elapsed s = Some (Inr rep)"
  shows "nr_requested rep = n" and "nr_completed rep = cnt (\<lambda>x. nx_status x = Completed) (nr_executions rep)"
proof -
  obtain run where "rep = node_report node n elapsed run"
    using assms by (auto simp: execute_many_end_def map_sum_Inr_iff)
  then show "nr_requested rep = n" "nr_completed rep = cnt (\<lambda>x. nx_status x = Completed) (nr_executions rep)"
    by (simp_all add: node_report_def Let_def cnt_def)
qed

text \<open>What is printed and returned for a finished report.\<close>

lemma report_cli_exact:
  assumes "nr_requested rep = length (nr_executions rep)"
    and "nr_completed rep = cnt (\<lambda>x. nx_status x = Completed) (nr_executions rep)"
  obtains out where "report_cli False rep = Some out" and "cli_stdout out = [summary_line rep]"
    and "cli_result out = Inr () \<longleftrightarrow> (\<forall>x\<in>set (nr_executions rep). nx_status x = Completed)"
    and "map Some (cli_stderr out) = map (failure_line False) (filter (\<lambda>x. nx_status x \<noteq> Completed) (nr_executions rep))"
proof -
  let ?bad = "filter (\<lambda>x. nx_status x \<noteq> Completed) (nr_executions rep)"
  have all: "nr_completed rep = nr_requested rep \<longleftrightarrow> (\<forall>x\<in>set (nr_executions rep). nx_status x = Completed)"
    using assms cnt_eq_length_iff [of "\<lambda>x. nx_status x = Completed" "nr_executions rep"] by simp
  show ?thesis
  proof (cases "nr_completed rep = nr_requested rep")
    case True
    then have "?bad = []" using all by (simp add: filter_empty_conv)
    then show ?thesis
      using True all that [of "\<lparr>cli_stdout = [summary_line rep], cli_stderr = [], cli_result = Inr ()\<rparr>"]
      by (simp add: report_cli_def)
  next
    case False
    obtain ls where ls: "all_lines (map (failure_line False) ?bad) = Some ls" using all_release_lines by blast
    then have "map Some ls = map (failure_line False) ?bad" using all_lines_Some by metis
    then show ?thesis
      using False all ls that [of "\<lparr>cli_stdout = [summary_line rep], cli_stderr = ls,
          cli_result = Inl ''one or more WASM executions failed''\<rparr>"]
      by (simp add: report_cli_def)
  qed
qed

subsection \<open>The properties\<close>

text \<open>C31: what the command line says of a batch. However the workers interleave, a finished batch is announced
  with its report's counts; the process succeeds exactly when every execution completed; otherwise each
  execution that did not, and no other, has a line on the standard error, in the order of the report, with
  its own error, never the placeholder for a missing one.\<close>

theorem node_cli_exact:
  assumes "node_begun p2_entry world lanes node r n job s0" and "(batch_step job)\<^sup>*\<^sup>* s0 s"
    and "list_all (\<lambda>w. w_pc w = WExit) (bt_workers s)"
  shows "\<exists>rep out. execute_many_end node n elapsed s = Some (Inr rep) \<and> node_main_end False node n elapsed s = Some out
    \<and> cli_stdout out = [summary_line rep]
    \<and> (cli_result out = Inr () \<longleftrightarrow> (\<forall>x\<in>set (nr_executions rep). nx_status x = Completed))
    \<and> length (cli_stderr out) = n - nr_completed rep
    \<and> map Some (cli_stderr out) = map (failure_line False) (filter (\<lambda>x. nx_status x \<noteq> Completed) (nr_executions rep))
    \<and> (\<forall>x\<in>set (nr_executions rep). nx_status x \<noteq> Completed \<longrightarrow> nx_error x \<noteq> None)"
proof -
  obtain rep where rep: "execute_many_end node n elapsed s = Some (Inr rep)" "length (nr_executions rep) = n"
    using node_report_counts [OF assms] by blast
  note counts = report_completed [OF rep(1)]
  obtain out where out: "report_cli False rep = Some out" "cli_stdout out = [summary_line rep]"
    "cli_result out = Inr () \<longleftrightarrow> (\<forall>x\<in>set (nr_executions rep). nx_status x = Completed)"
    "map Some (cli_stderr out) = map (failure_line False) (filter (\<lambda>x. nx_status x \<noteq> Completed) (nr_executions rep))"
    using report_cli_exact [of rep] counts rep(2) by metis
  have "length (cli_stderr out) = cnt (\<lambda>x. nx_status x \<noteq> Completed) (nr_executions rep)"
    using arg_cong [OF out(4), of length] by (simp add: cnt_def)
  also have "\<dots> = n - nr_completed rep"
    using cnt_complement [of "\<lambda>x. nx_status x = Completed" "nr_executions rep"] counts rep(2) by simp
  finally have "length (cli_stderr out) = n - nr_completed rep" .
  moreover have "nx_error x \<noteq> None" if "x \<in> set (nr_executions rep)" "nx_status x \<noteq> Completed" for x
    using node_executions_right [OF assms rep(1)] that by blast
  ultimately show ?thesis using rep(1) out by (auto simp: node_main_end_def)
qed

theorem node_cli_exact_witness:
  "\<exists>s out. node_main_end False sample_node 3 1 s = Some out \<and> length (cli_stdout out) = 1 \<and> length (cli_stderr out) \<le> 3"
proof -
  obtain s where s: "(batch_step (fst sample_run))\<^sup>*\<^sup>* (snd sample_run) s"
    "list_all (\<lambda>w. w_pc w = WExit) (bt_workers s)" using sample_ends by blast
  from node_cli_exact [OF sample_begun s, of 1] show ?thesis by (metis One_nat_def diff_le_self length_Cons list.size(3))
qed

end
