(* ===== verification/Rt_Token.thy ===== *)
theory Rt_Token
  imports Rt_Exec_Claims
begin

section \<open>The cancellation token\<close>

text \<open>
  \<^verbatim>\<open>CancellationToken\<close> of \<^verbatim>\<open>crates/pit-runtime/src/lib.rs\<close> (lines 266 to 284): an
  atomic flag that all clones share and that is only ever set. What a guest's epoch checks read of it
  follows from when the holders of the clones cancel it, which gives the exact condition under which an
  execution is reported as cancelled.
\<close>

subsection \<open>The flag\<close>

text \<open>The state of the shared flag; a clone is the same flag.\<close>

type_synonym CancellationToken = bool

definition new_token :: CancellationToken where
  "new_token = False"

definition cancel :: "CancellationToken \<Rightarrow> CancellationToken" where
  "cancel token = True"

definition is_cancelled :: "CancellationToken \<Rightarrow> bool" where
  "is_cancelled token = token"

subsection \<open>A guest and the holders of its token\<close>

text \<open>
  The calls of \<^verbatim>\<open>cancel\<close> by any holder, in between what the guest causes; an epoch check reads
  the clock and then has the callback load the flag.
\<close>

datatype token_event =
    CancelCall
  | EpochCheck instant
  | GrowTo nat
  | PrintOut string
  | PrintErr string

fun observed :: "CancellationToken \<Rightarrow> token_event list \<Rightarrow> guest_event list" where
  "observed token [] = []"
| "observed token (CancelCall # evs) = observed (cancel token) evs"
| "observed token (EpochCheck now # evs) = Tick (is_cancelled token) now # observed token evs"
| "observed token (GrowTo desired # evs) = Grow desired # observed token evs"
| "observed token (PrintOut bytes # evs) = WriteOut bytes # observed token evs"
| "observed token (PrintErr bytes # evs) = WriteErr bytes # observed token evs"

text \<open>A guest that runs these events in its call, on a token made for the request.\<close>

definition on_token :: "token_event list \<Rightarrow> 'r guest \<Rightarrow> 'r guest" where
  "on_token evs g = g\<lparr>g_inst_events := [], g_call_events := observed new_token evs\<rparr>"

lemmas token_ops = new_token_def cancel_def is_cancelled_def

text \<open>Once set, the flag stays set: what is read is whether some cancellation came before.\<close>

lemma observed_append:
  "observed token (xs @ ys) = observed token xs @ observed (token \<or> CancelCall \<in> set xs) ys"
  by (induction token xs rule: observed.induct) (simp_all add: token_ops)

lemma check_Cons:
  "(\<exists>before t after. ev # evs = before @ EpochCheck t # after \<and> P before t) \<longleftrightarrow>
    (\<exists>t. ev = EpochCheck t \<and> P [] t) \<or> (\<exists>before t after. evs = before @ EpochCheck t # after \<and> P (ev # before) t)"
  (is "?l \<longleftrightarrow> ?r")
proof
  assume ?l
  then obtain before t after where s: "ev # evs = before @ EpochCheck t # after" "P before t" by blast
  then show ?r by (cases before) auto
next
  assume ?r
  then show ?l
  proof (elim disjE exE conjE)
    fix t assume "ev = EpochCheck t" "P [] t"
    then show ?l by (intro exI [of _ "[]"] exI [of _ t] exI [of _ evs]) simp
  next
    fix before t after assume "evs = before @ EpochCheck t # after" "P (ev # before) t"
    then show ?l by (intro exI [of _ "ev # before"] exI [of _ t] exI [of _ after]) simp
  qed
qed

definition cancel_reached :: "instant option \<Rightarrow> nat option \<Rightarrow> CancellationToken \<Rightarrow> token_event list \<Rightarrow> bool" where
  "cancel_reached d l token evs \<longleftrightarrow>
     (\<exists>before t after. evs = before @ EpochCheck t # after
        \<and> (token \<or> CancelCall \<in> set before) \<and> find (stops d l) (observed token before) = None)"

lemma cancel_reached_Nil: "\<not> cancel_reached d l token []"
  by (simp add: cancel_reached_def)

lemma cancel_reached_Cons:
  "cancel_reached d l token (ev # evs) \<longleftrightarrow>
    (\<exists>t. ev = EpochCheck t) \<and> token
    \<or> find (stops d l) (observed token [ev]) = None \<and> cancel_reached d l (token \<or> ev = CancelCall) evs"
  unfolding cancel_reached_def check_Cons by (cases ev) (auto simp: token_ops)

text \<open>
  The first event that stops the guest is a cancelled epoch check exactly when there is an epoch check
  after a cancellation that the guest reaches.
\<close>

lemma cancelled_stop:
  "(\<exists>ev. find (stops d l) (observed token evs) = Some ev \<and> stop_status ev = Cancelled) \<longleftrightarrow>
    cancel_reached d l token evs"
  by (induction token evs rule: observed.induct)
    (auto simp: cancel_reached_Nil cancel_reached_Cons token_ops split: if_splits)

lemma call_status:
  assumes "g_inst_final g = Inr ()"
  shows "spec_status verdict now (on_token evs g) lookup r =
    (if \<not> lookup then RuntimeError
     else (case find (req_stops now r) (observed new_token evs) of
        Some ev \<Rightarrow> stop_status ev | None \<Rightarrow> verdict (g_call_final g)))"
  using assms by (simp add: spec_status_def on_token_def split: option.split)

text \<open>
  What cancelling does. An execution whose instance starts is reported as cancelled exactly when the guest
  reaches an epoch check after a call of \<^verbatim>\<open>cancel\<close>, without a timeout or a refused growth before
  it; nothing else of the call counts, and a token that nobody cancels never cancels anything.
\<close>

lemma cancelled_iff:
  assumes "g_inst_final g = Inr ()" and "lookup" and "\<forall>f. verdict f \<noteq> Cancelled"
  shows "spec_status verdict now (on_token evs g) lookup r = Cancelled \<longleftrightarrow>
    cancel_reached (map_option ((+) now) (lim_timeout (req_limits r))) (lim_memory_bytes (req_limits r)) new_token evs"
  using assms by (auto simp: call_status simp flip: cancelled_stop split: option.splits)

lemma uncancelled_never:
  "CancelCall \<notin> set evs \<Longrightarrow> \<not> cancel_reached d l new_token evs"
  by (auto simp: cancel_reached_def new_token_def)

lemma p1_never_cancelled: "p1_verdict f \<noteq> Cancelled"
  by (simp add: p1_verdict_def split: sum.split option.split)

lemma p2_never_cancelled: "p2_verdict f \<noteq> Cancelled"
  by (simp add: p2_verdict_def split: sum.split option.split)

text \<open>For a core module, on the runtime itself.\<close>

lemma execute_p1_cancelled:
  assumes "g_inst_final g = Inr ()" and "g_lookup_error g = None"
  shows "res_status (execute_p1 now (on_token evs g) r) = Cancelled \<longleftrightarrow>
    cancel_reached (map_option ((+) now) (lim_timeout (req_limits r))) (lim_memory_bytes (req_limits r)) new_token evs"
proof -
  have "g_lookup_error (on_token evs g) = None" using assms(2) by (simp add: on_token_def)
  then show ?thesis
    using cancelled_iff [of g True p1_verdict] assms(1) p1_never_cancelled by (simp add: p1.status_exact)
qed

end
