(* ===== verification/Pit_Node_Token.thy ===== *)
theory Pit_Node_Token
  imports Pit_Node_Main Rt_Token
begin

section \<open>Cancelling a batch\<close>

text \<open>
  \<^verbatim>\<open>execute_many_with_cancellation\<close> of \<^verbatim>\<open>apps/pit-node/src/lib.rs\<close> with its token: the
  executions of a batch share it, and whoever else holds a clone may cancel it at any time. The
  entry points without a token make one that nobody else holds.
\<close>

text \<open>
  What each execution of a batch meets: the history of the shared token and of its own guest, as the
  guest of the given world runs it on that token.
\<close>

definition token_world :: "(ExecutionId \<Rightarrow> token_event list) \<Rightarrow> exec_world \<Rightarrow> exec_world" where
  "token_world histories w =
     (\<lambda>e l. case w e l of (now, g1, g2) \<Rightarrow>
       (now, \<lambda>args env entry. on_token (histories e) (g1 args env entry),
        \<lambda>args env entry. on_token (histories e) (g2 args env entry)))"

text \<open>\<^verbatim>\<open>execute_many\<close>: nobody cancels a fresh token.\<close>

definition fresh_token :: "(ExecutionId \<Rightarrow> token_event list) \<Rightarrow> ExecutionId \<Rightarrow> token_event list" where
  "fresh_token histories e = filter (\<lambda>ev. ev \<noteq> CancelCall) (histories e)"

definition node_execute_many ::
  "string \<Rightarrow> (ExecutionId \<Rightarrow> token_event list) \<Rightarrow> exec_world \<Rightarrow> PitNode \<Rightarrow> ExecutionRequest \<Rightarrow> nat \<Rightarrow> nat list
    \<Rightarrow> instant list \<Rightarrow> (instant \<Rightarrow> nat) \<Rightarrow> instant
    \<Rightarrow> string + (RuntimeExecutionResult batch_job \<times> RuntimeExecutionResult batch)" where
  "node_execute_many p2_entry histories w node r n gaps queued wall now =
     execute_many_begin p2_entry (token_world (fresh_token histories) w) node r n gaps queued wall now"

definition node_execute ::
  "string \<Rightarrow> (ExecutionId \<Rightarrow> token_event list) \<Rightarrow> exec_world \<Rightarrow> PitNode \<Rightarrow> ExecutionRequest \<Rightarrow> nat
    \<Rightarrow> instant \<Rightarrow> (instant \<Rightarrow> nat) \<Rightarrow> instant
    \<Rightarrow> string + (RuntimeExecutionResult batch_job \<times> RuntimeExecutionResult batch)" where
  "node_execute p2_entry histories w node r gap queued wall now =
     node_execute_many p2_entry histories w node r 1 [gap] [queued] wall now"

text \<open>\<^verbatim>\<open>PitRuntime::from_file\<close>\<close>

definition runtime_from_file :: "runtime_world \<Rightarrow> preparation \<Rightarrow> string \<Rightarrow> string + PreparedArtifact" where
  "runtime_from_file w pr path =
     (case fst (with_config w default_config) of
        Inl e \<Rightarrow> Inl e
      | Inr rt \<Rightarrow> prepare_plain (pr\<lparr>prep_config := rt_config rt\<rparr>) (from_path path))"

subsection \<open>Lemmas\<close>

text \<open>Guests that get as far as their call: their instance starts and has its entry point.\<close>

definition guests_start :: "exec_world \<Rightarrow> PitNode \<Rightarrow> ExecutionRequest \<Rightarrow> string \<Rightarrow> bool" where
  "guests_start w node r p2_entry \<longleftrightarrow>
     (\<forall>e l. case w e l of (now, g1, g2) \<Rightarrow>
       let h1 = g1 (guest_args r) (req_env r) (req_entrypoint r); h2 = g2 (guest_args r) (req_env r) (req_entrypoint r) in
       if p_component (node_prepared node) then req_entrypoint r = p2_entry \<and> g_inst_final h2 = Inr ()
       else g_inst_final h1 = Inr () \<and> g_lookup_error h1 = None)"

definition start_of :: "exec_world \<Rightarrow> ExecutionId \<Rightarrow> LaneId \<Rightarrow> instant" where
  "start_of w e l = fst (w e l)"

abbreviation cancelled_before_stop :: "exec_world \<Rightarrow> ExecutionRequest \<Rightarrow> ExecutionId \<Rightarrow> LaneId \<Rightarrow> token_event list \<Rightarrow> bool" where
  "cancelled_before_stop w r e l \<equiv>
     cancel_reached (map_option ((+) (start_of w e l)) (lim_timeout (req_limits r))) (lim_memory_bytes (req_limits r)) new_token"

lemma on_token_parts [simp]:
  "g_inst_final (on_token evs g) = g_inst_final g" "g_lookup_error (on_token evs g) = g_lookup_error g"
  by (simp_all add: on_token_def)

lemma expected_cancelled:
  assumes "guests_start w node r p2_entry"
  shows "fst (node_expected p2_entry (token_world histories w) node r e l) = Cancelled
    \<longleftrightarrow> cancelled_before_stop w r e l (histories e)"
proof -
  obtain now g1 g2 where w: "w e l = (now, g1, g2)" by (cases "w e l")
  note start = assms [unfolded guests_start_def, THEN spec, THEN spec, of e l]
  show ?thesis
    using start cancelled_iff [of "g1 (guest_args r) (req_env r) (req_entrypoint r)" True p1_verdict now "histories e" r]
      cancelled_iff [of "g2 (guest_args r) (req_env r) (req_entrypoint r)" True p2_verdict now "histories e" r]
      p1_never_cancelled p2_never_cancelled
    by (auto simp: w node_expected_def token_world_def start_of_def Let_def split: if_splits)
qed

lemma fresh_never_cancelled: "\<not> cancelled_before_stop w r e l (fresh_token histories e)"
  by (rule uncancelled_never) (simp add: fresh_token_def)

subsection \<open>The property\<close>

text \<open>C12: cancellation is exact. When a batch of guests that get as far as their call is over, an execution
  is reported as cancelled exactly when its guest reached an epoch check after a cancellation of the
  shared token, with neither a timeout nor a refused growth before it; the report counts exactly these;
  and a batch whose token nobody cancels, as with \<^verbatim>\<open>execute_many\<close>, has none.\<close>

theorem cancellation_exact:
  assumes "node_begun p2_entry (token_world histories w) lanes node r n job s0" and "(batch_step job)\<^sup>*\<^sup>* s0 s"
    and "list_all (\<lambda>w. w_pc w = WExit) (bt_workers s)"
    and "execute_many_end node n elapsed s = Some (Inr rep)" and "guests_start w node r p2_entry"
  shows "(\<forall>x\<in>set (nr_executions rep). nx_status x = Cancelled
        \<longleftrightarrow> cancelled_before_stop w r (nx_execution_id x) (nx_lane_id x) (histories (nx_execution_id x)))
    \<and> nr_cancelled rep = length (filter (\<lambda>x. cancelled_before_stop w r (nx_execution_id x) (nx_lane_id x)
          (histories (nx_execution_id x))) (nr_executions rep))
    \<and> ((\<forall>e. CancelCall \<notin> set (histories e)) \<longrightarrow> nr_cancelled rep = 0)"
proof -
  have each: "nx_status x = Cancelled
      \<longleftrightarrow> cancelled_before_stop w r (nx_execution_id x) (nx_lane_id x) (histories (nx_execution_id x))"
    if "x \<in> set (nr_executions rep)" for x
    using node_executions_right [OF assms(1-4)] expected_cancelled [OF assms(5), of histories] that
    by (metis fst_conv)
  have "nr_cancelled rep = length (filter (\<lambda>x. nx_status x = Cancelled) (nr_executions rep))"
    using assms(4) by (auto simp: execute_many_end_def map_sum_Inr_iff node_report_def Let_def)
  also have "\<dots> = length (filter (\<lambda>x. cancelled_before_stop w r (nx_execution_id x) (nx_lane_id x)
      (histories (nx_execution_id x))) (nr_executions rep))"
    using each by (intro arg_cong [of _ _ length] filter_cong) auto
  finally have count: "nr_cancelled rep = \<dots>" .
  have "nr_cancelled rep = 0" if "\<forall>e. CancelCall \<notin> set (histories e)"
    unfolding count using that uncancelled_never by (simp add: filter_empty_conv)
  then show ?thesis using each count by blast
qed

text \<open>Three quiet guests, of which only the second looks at the token after it was cancelled.\<close>

definition second_cancelled :: "ExecutionId \<Rightarrow> token_event list" where
  "second_cancelled e = (if e = ExecutionId 1 then [PrintOut ''hi'', CancelCall, EpochCheck 5] else [EpochCheck 5, CancelCall])"

lemma second_reached: "cancelled_before_stop sample_world sample_request e l (second_cancelled e) \<longleftrightarrow> e = ExecutionId 1"
  by (simp add: second_cancelled_def cancel_reached_Cons cancel_reached_Nil token_ops sample_request_def)

lemma sample_ids: "j_ids (fst (sample_run_in w)) = [ExecutionId 0, ExecutionId 1, ExecutionId 2]"
proof -
  have "validate sample_request = Inr ()"
    by (simp add: validate_accepts well_formed_request_def sample_request_def NUL_def byte_of_val_def char_of_def)
  then show ?thesis
    by (simp add: sample_run_in_def execute_many_begin_def batch_begin_def batch_job_of_def Let_def sample_node_def
        node_from_artifact_def prepared_with_world_def sample_request_def local_scheduler_def
        scheduler_with_lanes_def numeral_nat)
qed

theorem cancellation_exact_witness:
  "\<exists>s rep. execute_many_end sample_node 3 1 s = Some (Inr rep) \<and> nr_cancelled rep = 1"
proof -
  let ?w = "token_world second_cancelled sample_world"
  note begun = sample_begun_in [of ?w]
  obtain s where s: "(batch_step (fst (sample_run_in ?w)))\<^sup>*\<^sup>* (snd (sample_run_in ?w)) s"
    "list_all (\<lambda>w. w_pc w = WExit) (bt_workers s)" using sample_ends_in by blast
  obtain rep where rep: "execute_many_end sample_node 3 1 s = Some (Inr rep)" "length (nr_executions rep) = 3"
    using node_report_counts [OF begun s] by blast
  have start: "guests_start sample_world sample_node sample_request ''run''"
    by (simp add: guests_start_def sample_world_def sample_node_def node_from_artifact_def prepared_with_world_def quiet_guest_def)
  have "map nx_execution_id (nr_executions rep) = j_ids (fst (sample_run_in ?w))"
    using node_executions_right [OF begun s rep(1)] by blast
  then have ids: "map nx_execution_id (nr_executions rep) = [ExecutionId 0, ExecutionId 1, ExecutionId 2]"
    by (simp add: sample_ids)
  have "nr_cancelled rep = length (filter (\<lambda>e. e = ExecutionId 1) (map nx_execution_id (nr_executions rep)))"
    using cancellation_exact [OF begun s rep(1) start] by (simp add: second_reached filter_map comp_def)
  then show ?thesis using rep(1) ids by auto
qed

subsection \<open>The node's own test\<close>

text \<open>
  \<^verbatim>\<open>cancellation_returns_status_and_releases_lane\<close>: one execution of a guest that loops, whose
  token another thread cancels. The guest keeps meeting the epoch ticker before and after that.
\<close>

definition loop_cancelled :: "instant list \<Rightarrow> instant \<Rightarrow> token_event list \<Rightarrow> token_event list" where
  "loop_cancelled ticks t rest = map EpochCheck ticks @ CancelCall # EpochCheck t # rest"

lemma loop_reaches_cancel: "cancel_reached None l token (loop_cancelled ticks t rest)"
  by (induction ticks arbitrary: token)
    (auto simp: loop_cancelled_def cancel_reached_Cons token_ops)

definition cancellation_releases_lane :: "NodeRunReport \<Rightarrow> bool" where
  "cancellation_releases_lane rep \<longleftrightarrow>
     map nx_status (take 1 (nr_executions rep)) = [Cancelled]
     \<and> snap_failed (nr_snapshot rep) = 1 \<and> snap_running (nr_snapshot rep) = 0 \<and> snap_queued (nr_snapshot rep) = 0
     \<and> list_all (\<lambda>lane. lane = LaneFree) (snap_lanes (nr_snapshot rep))"

lemma cancellation_releases_lane_passes:
  assumes "node_begun p2_entry (token_world (\<lambda>_. loop_cancelled ticks t rest) w) lanes node r 1 job s0"
    and "(batch_step job)\<^sup>*\<^sup>* s0 s" and "list_all (\<lambda>w. w_pc w = WExit) (bt_workers s)"
    and "guests_start w node r p2_entry" and "lim_timeout (req_limits r) = None"
  shows "\<exists>rep. execute_many_end node 1 elapsed s = Some (Inr rep) \<and> cancellation_releases_lane rep"
proof -
  obtain rep where rep: "execute_many_end node 1 elapsed s = Some (Inr rep)" "length (nr_executions rep) = 1"
    "nr_completed rep + nr_failed rep + nr_timed_out rep + nr_cancelled rep = 1"
    "unat (snap_failed (nr_snapshot rep)) = nr_failed rep + nr_timed_out rep + nr_cancelled rep"
    using node_report_counts [OF assms(1-3)] by blast
  obtain x where x: "nr_executions rep = [x]" using rep(2) by (auto simp: length_Suc_conv)
  have "fst (node_expected p2_entry (token_world (\<lambda>_. loop_cancelled ticks t rest) w) node r
      (nx_execution_id x) (nx_lane_id x)) = Cancelled"
    using expected_cancelled [OF assms(4)] assms(5) loop_reaches_cancel by simp
  then have status: "nx_status x = Cancelled"
    using node_executions_right [OF assms(1-3) rep(1)] by (simp add: x) (metis fst_conv)
  obtain run where run: "batch_finish s = Some (Inr run)" "snap_queued (run_snapshot run) = 0"
    "snap_running (run_snapshot run) = 0" "snap_lanes (run_snapshot run) = replicate lanes LaneFree"
    using batch_complete_run [OF node_reachable [OF assms(1,2)] assms(3)] by blast
  have r: "rep = node_report node 1 elapsed run"
    using rep(1) run(1) by (auto simp: execute_many_end_def)
  have cancelled: "nr_cancelled rep = 1"
    using x status by (simp add: r node_report_def Let_def)
  have "unat (snap_failed (nr_snapshot rep)) = 1" using rep(3,4) cancelled by simp
  then have failed: "snap_failed (nr_snapshot rep) = 1" by (simp add: word_unat_eq_iff)
  have "nr_snapshot rep = run_snapshot run" by (simp add: r node_report_def Let_def)
  then show ?thesis
    using rep(1) x status failed run(2-4) by (simp add: cancellation_releases_lane_def list_all_iff)
qed

end
