(* ===== verification/Sched_Usage.thy ===== *)
theory Sched_Usage
  imports Sched_Shared_Claims
begin

section \<open>The shared lane pool: how much of the grid is used\<close>

text \<open>
  \<^verbatim>\<open>busy_nanos\<close> of \<^verbatim>\<open>crates/pit-scheduler/src/lib.rs\<close> and the utilization computed from
  it: the accounted time is the sum of the reported durations, and together with the tasks still
  running it never exceeds the lanes times the age of the scheduler, because a running task owns a lane
  of its own. The clamp of \<^verbatim>\<open>grid_utilization\<close> is therefore never needed while that product
  fits in 64 bits.
\<close>

subsection \<open>Time that is running, time that is accounted\<close>

fun timing :: "run_pc \<Rightarrow> bool" where
  "timing AtTask = True"
| "timing AtElapsed = True"
| "timing _ = False"

fun accounted :: "run_pc \<Rightarrow> bool" where
  "accounted AtRelock = True"
| "accounted AtVacate = True"
| "accounted AtDeactivate = True"
| "accounted AtNotify = True"
| "accounted AtReturn = True"
| "accounted AtDone = True"
| "accounted _ = False"

definition pending_time :: "instant \<Rightarrow> 'a caller \<Rightarrow> duration" where
  "pending_time now c =
     (if timing (c_pc c) then duration_since now (c_timer c)
      else if c_pc c = AtAccount then c_duration c else 0)"

definition pending_total :: "'a pool \<Rightarrow> duration" where
  "pending_total s = sum_list (map (pending_time (pool_clock s)) (callers s))"

definition accounted_time :: "'a caller \<Rightarrow> u64" where
  "accounted_time c = (if accounted (c_pc c) then nanos_u64 (c_duration c) else 0)"

text \<open>The lane time there has been since the scheduler was made.\<close>

definition lane_time :: "nat \<Rightarrow> 'a pool \<Rightarrow> nat" where
  "lane_time lanes s = lanes * duration_since (pool_clock s) (created_at (sched s))"

definition usage_ok :: "nat \<Rightarrow> 'a pool \<Rightarrow> bool" where
  "usage_ok lanes s \<longleftrightarrow>
     created_at (sched s) \<le> pool_clock s
     \<and> busy_nanos (sched s) = sum_list (map accounted_time (callers s))
     \<and> (lane_time lanes s < 2 ^ 64 \<longrightarrow> unat (busy_nanos (sched s)) + pending_total s \<le> lane_time lanes s)"

subsection \<open>One step\<close>

lemma step_usage:
  assumes "caller_step env i now out c p lk = Some (c', p', lk')"
  obtains (account) "c_pc c = AtAccount" "busy_nanos p' = busy_nanos p + nanos_u64 (c_duration c)"
      "pending_time now c = c_duration c" "pending_time now c' = 0" "accounted_time c = 0"
      "accounted_time c' = nanos_u64 (c_duration c)" "created_at p' = created_at p"
  | (other) "busy_nanos p' = busy_nanos p" "pending_time now c' \<le> pending_time now c"
      "accounted_time c' = accounted_time c" "created_at p' = created_at p"
  using assms unfolding caller_step_def
  by (cases "c_pc c") (auto simp: pending_time_def accounted_time_def duration_since_def split: if_splits option.splits)

lemma map_update_same: "j < length xs \<Longrightarrow> f y = f (xs ! j) \<Longrightarrow> map f (xs[j := y]) = map f xs"
  by (metis length_map list_update_id map_update nth_map)

text \<open>Waking a sleeper moves no time.\<close>

lemma wake_usage:
  assumes "asleep cs j"
  shows "map (pending_time now) (wake_caller j cs) = map (pending_time now) cs"
    and "map accounted_time (wake_caller j cs) = map accounted_time cs"
  using assms unfolding wake_caller_def asleep_def
  by (auto intro!: map_update_same simp: pending_time_def accounted_time_def)

lemma sum_list_update_group:
  fixes f :: "'a \<Rightarrow> 'b::ab_group_add"
  shows "i < length xs \<Longrightarrow> sum_list (map f (xs[i := y])) = sum_list (map f xs) - f (xs ! i) + f y"
proof (induction xs arbitrary: i)
  case (Cons x xs)
  then show ?case by (cases i) (simp_all add: algebra_simps)
qed simp

text \<open>When the clock moves, every running task gains that much, and there is at most one for each lane.\<close>

lemma pending_later:
  assumes "earlier \<le> now"
  shows "sum_list (map (pending_time now) cs)
    \<le> sum_list (map (pending_time earlier) cs) + (now - earlier) * cnt (in_class timing) cs"
proof (induction cs)
  case (Cons c cs)
  have "pending_time now c \<le> pending_time earlier c + (now - earlier) * of_bool (timing (c_pc c))"
    using assms by (auto simp: pending_time_def duration_since_def)
  with Cons.IH show ?case by (simp add: algebra_simps)
qed simp

lemma timing_owns: "timing pc \<Longrightarrow> owns_lane pc"
  by (cases pc) auto

lemma timing_le_lanes:
  assumes "pool_inv lanes s"
  shows "cnt (in_class timing) (callers s) \<le> lanes"
proof -
  have "cnt (in_class timing) (callers s) \<le> cnt (in_class owns_lane) (callers s)"
    by (rule cnt_mono) (rule timing_owns)
  also have "\<dots> \<le> lanes"
    using pool_inv_parts(1,5) [OF assms] by (simp add: table_ok_def)
  finally show ?thesis .
qed

lemma usage_later:
  assumes "usage_ok lanes s" and "pool_inv lanes s" and "pool_clock s \<le> now"
  shows "usage_ok lanes (s\<lparr>pool_clock := now\<rparr>)"
proof -
  let ?d = "now - pool_clock s" and ?cs = "callers s"
  have age: "lane_time lanes (s\<lparr>pool_clock := now\<rparr>) = lane_time lanes s + lanes * ?d"
    using assms(1,3) by (simp add: lane_time_def usage_ok_def duration_since_def flip: distrib_left)
  have "pending_total (s\<lparr>pool_clock := now\<rparr>) \<le> pending_total s + ?d * cnt (in_class timing) ?cs"
    using pending_later [OF assms(3)] by (simp add: pending_total_def)
  also have "\<dots> \<le> pending_total s + lanes * ?d"
    using timing_le_lanes [OF assms(2)] by (simp add: mult.commute)
  finally show ?thesis
    using assms(1,3) age by (auto simp: usage_ok_def)
qed

lemma usage_caller_step:
  assumes ok: "usage_ok lanes s" and i: "i < length (callers s)"
    and step: "caller_step env i (pool_clock s) out (callers s ! i) (sched s) (pool_lock s) = Some (c, p, lk)"
  shows "usage_ok lanes (s\<lparr>callers := (callers s)[i := c], sched := p, pool_lock := lk\<rparr>)" (is "usage_ok lanes ?t")
proof -
  let ?pend = "pending_time (pool_clock s)" and ?c = "callers s ! i"
  have total: "pending_total ?t + ?pend ?c = pending_total s + ?pend c"
    using sum_list_update_weight [OF i, of ?pend c] by (simp add: pending_total_def)
  have sums: "sum_list (map accounted_time (callers ?t))
      = sum_list (map accounted_time (callers s)) - accounted_time ?c + accounted_time c"
    using sum_list_update_group [OF i] by simp
  from step show ?thesis
  proof (cases rule: step_usage)
    case account
    have "unat (busy_nanos p) + pending_total ?t \<le> lane_time lanes s" if "lane_time lanes s < 2 ^ 64"
    proof -
      have le: "unat (busy_nanos (sched s)) + pending_total s \<le> lane_time lanes s"
        using ok that by (auto simp: usage_ok_def)
      have pend: "pending_total s = pending_total ?t + c_duration ?c" using total account by simp
      then have "unat (nanos_u64 (c_duration ?c)) = c_duration ?c"
        using le that by (simp add: unat_nanos_u64)
      then have "unat (busy_nanos p) = unat (busy_nanos (sched s)) + c_duration ?c"
        using account(2) le pend that by (simp add: unat_word_ariths)
      then show ?thesis using le pend by simp
    qed
    then show ?thesis using ok account sums by (simp add: usage_ok_def lane_time_def)
  next
    case other
    then show ?thesis using ok total sums by (auto simp: usage_ok_def lane_time_def)
  qed
qed

lemma usage_wake:
  "usage_ok lanes s \<Longrightarrow> asleep (callers s) j \<Longrightarrow> usage_ok lanes (s\<lparr>callers := wake_caller j (callers s)\<rparr>)"
  by (auto simp: usage_ok_def lane_time_def pending_total_def wake_usage)

lemma asleep_update: "i \<noteq> j \<Longrightarrow> asleep (cs[i := c]) j = asleep cs j"
  by (simp add: asleep_def)

lemma usage_exec:
  assumes ok: "usage_ok lanes s" and exec: "pool_exec env a s = Some t"
  shows "usage_ok lanes t"
proof (cases a)
  case (Advance i out)
  then show ?thesis
    using exec usage_caller_step [OF ok, of i env out] by (auto split: if_splits option.splits)
next
  case (NotifyOne i w)
  with exec obtain c p lk where
    step: "caller_step env i (pool_clock s) None (callers s ! i) (sched s) (pool_lock s) = Some (c, p, lk)"
    and i: "i < length (callers s)" "c_pc (callers s ! i) = AtNotify" "wake_allowed w (callers s)"
    and t: "t = s\<lparr>callers := wake_chosen w ((callers s)[i := c]), sched := p, pool_lock := lk\<rparr>"
    by (auto split: if_splits option.splits)
  let ?u = "s\<lparr>callers := (callers s)[i := c], sched := p, pool_lock := lk\<rparr>"
  have u: "usage_ok lanes ?u" by (rule usage_caller_step [OF ok i(1) step])
  show ?thesis
  proof (cases w)
    case None
    then show ?thesis using u t by (simp add: wake_chosen_def)
  next
    case (Some j)
    then have "asleep (callers s) j" "i \<noteq> j" using i by (auto simp: wake_allowed_def asleep_def)
    then have j: "asleep (callers ?u) j" by (simp add: asleep_update)
    have "t = ?u\<lparr>callers := wake_caller j (callers ?u)\<rparr>" using t Some by (simp add: wake_chosen_def)
    then show ?thesis using usage_wake [OF u j] by (simp only:)
  qed
next
  case (SpuriousWake j)
  then show ?thesis using exec usage_wake [OF ok, of j] by (auto split: if_splits)
qed

text \<open>The pool with its usage is a system with an invariant, on top of the invariant of the pool.\<close>

interpretation usage_sys: invariant_system
  "shared_start lanes n" "pool_step env" "\<lambda>s. shared_inv env lanes 0 s \<and> usage_ok lanes s" for env lanes n
proof unfold_locales
  fix s t :: "'a pool"
  show "shared_inv env lanes 0 s \<and> usage_ok lanes s" if "shared_start lanes n s"
    using that shared_sys.inv_init [OF that]
    by (auto simp: shared_start_def new_scheduler_Inr_iff usage_ok_def init_pool_def scheduler_with_lanes_def
        lane_time_def pending_total_def accounted_time_def pending_time_def new_caller_def duration_since_def sum_list_replicate)
  show "shared_inv env lanes 0 t \<and> usage_ok lanes t"
    if inv: "shared_inv env lanes 0 s \<and> usage_ok lanes s" and step: "pool_step env s t"
    using step
  proof cases
    case (pool_step now a)
    then show ?thesis
      using inv shared_inv_step [OF _ step] usage_later [of lanes s now] usage_exec [of lanes _ env a t]
      unfolding shared_inv_def by blast
  qed
qed

subsection \<open>The property\<close>

lemma pool_reachable_usage:
  assumes "pool_reachable env lanes n s"
  shows "usage_ok lanes s" "0 < lanes"
  using assms usage_sys.inv_reachable unfolding pool_reachable_def
  by (blast, auto simp: shared_start_def new_scheduler_Inr_iff)


text \<open>At a run of one caller, in percent: two of the 24 nanoseconds of its lane were spent in the task.\<close>

definition percent_floats :: "nat floats" where
  "percent_floats = \<lparr>fl_default = 0, fl_one = 100, fl_sum_start = 0, fl_of_int = id, fl_add = (+), fl_sub = (-),
     fl_div = (\<lambda>a b. 100 * a div b), fl_min = min, fl_square = (\<lambda>x. x * x), fl_sqrt = id\<rparr>"

lemma percent_le:
  assumes "0 < b" and "a \<le> b"
  shows "100 * a div b \<le> (100 :: nat)"
proof -
  have "100 * a div b \<le> 100 * b div b" using assms(2) by (intro div_le_mono) simp
  then show ?thesis using assms(1) by simp
qed

lemma demo_done_usage:
  "busy_nanos (sched (demo_run 1 1 demo_done)) = 2" "created_at (sched (demo_run 1 1 demo_done)) = 7"
  "pool_clock (demo_run 1 1 demo_done) = 31"
  by (simp_all add: demo_run_def demo_done_def demo_eval)


end
