(* ===== verification/Pit_Bench.thy ===== *)
theory Pit_Bench
  imports Pit_Dispatch
begin

section \<open>The fast-path benchmark\<close>

text \<open>
  \<^verbatim>\<open>apps/pit-node/src/bin/fast-path-bench.rs\<close>: the options, the collection of samples one by
  one and in bursts of one thread each, what a sample and a report say of an execution, the summaries with
  their percentiles, and the readings of \<^verbatim>\<open>/proc\<close>. Floating-point arithmetic is a
  parameter; the threads of a burst meet at a barrier and share nothing, so each is the result it ends
  with.
\<close>

subsection \<open>Options\<close>

record bench_args =
  ba_artifact :: "string option"
  ba_output :: "string option"
  ba_phase :: string
  ba_lanes :: usize
  ba_samples :: usize
  ba_compiled_cache :: "string option"
  ba_restore_mode :: CompiledCacheRestoreMode
  ba_pooling :: bool
  ba_pooling_slots :: "usize option"
  ba_memory_init_cow :: "bool option"
  ba_pre_resolved_imports :: bool

definition default_bench_args :: bench_args where
  "default_bench_args =
     \<lparr>ba_artifact = None, ba_output = None, ba_phase = ''before'', ba_lanes = 8, ba_samples = 100,
      ba_compiled_cache = None, ba_restore_mode = FileBacked, ba_pooling = False, ba_pooling_slots = None,
      ba_memory_init_cow = None, ba_pre_resolved_imports = True\<rparr>"

definition parse_usize :: "string \<Rightarrow> string + usize" where
  "parse_usize s = map_sum id of_nat (parse_unsigned (2 ^ 64 - 1) s)"

text \<open>\<^verbatim>\<open>args.next().context(missing)?.parse()?\<close>\<close>

definition number_option :: "string \<Rightarrow> string option \<Rightarrow> string + usize" where
  "number_option missing v = (case v of None \<Rightarrow> Inl missing | Some s \<Rightarrow> parse_usize s)"

definition next_arg :: "string list \<Rightarrow> string option \<times> string list" where
  "next_arg args = (case args of [] \<Rightarrow> (None, []) | v # rest \<Rightarrow> (Some v, rest))"

datatype arg_step = ShowHelp | Continue_with bench_args "string list"

text \<open>One arm of the \<^verbatim>\<open>match\<close>: an option, the arguments after it, and the options so far.\<close>

definition bench_arm :: "string \<Rightarrow> string list \<Rightarrow> bench_args \<Rightarrow> string + arg_step" where
  "bench_arm arg rest a =
     (case next_arg rest of (v, rest') \<Rightarrow>
        if arg = ''--artifact'' then Inr (Continue_with (a\<lparr>ba_artifact := v\<rparr>) rest')
        else if arg = ''--output'' then Inr (Continue_with (a\<lparr>ba_output := v\<rparr>) rest')
        else if arg = ''--phase''
        then Inr (Continue_with (a\<lparr>ba_phase := case v of Some s \<Rightarrow> s | None \<Rightarrow> ''before''\<rparr>) rest')
        else if arg = ''--lanes''
        then map_sum id (\<lambda>n. Continue_with (a\<lparr>ba_lanes := n\<rparr>) rest') (number_option ''--lanes requires a value'' v)
        else if arg = ''--samples''
        then map_sum id (\<lambda>n. Continue_with (a\<lparr>ba_samples := n\<rparr>) rest') (number_option ''--samples requires a value'' v)
        else if arg = ''--compiled-cache'' then Inr (Continue_with (a\<lparr>ba_compiled_cache := v\<rparr>) rest')
        else if arg = ''--restore''
        then (case v of
                None \<Rightarrow> Inl ''--restore requires bytes or file''
              | Some s \<Rightarrow>
                  if s = ''bytes'' then Inr (Continue_with (a\<lparr>ba_restore_mode := Bytes\<rparr>) rest')
                  else if s = ''file'' \<or> s = ''file-backed''
                  then Inr (Continue_with (a\<lparr>ba_restore_mode := FileBacked\<rparr>) rest')
                  else Inl (''unsupported --restore mode '' @ s))
        else if arg = ''--pooling'' then Inr (Continue_with (a\<lparr>ba_pooling := True\<rparr>) rest)
        else if arg = ''--no-pre-resolved'' then Inr (Continue_with (a\<lparr>ba_pre_resolved_imports := False\<rparr>) rest)
        else if arg = ''--pooling-slots''
        then map_sum id (\<lambda>n. Continue_with (a\<lparr>ba_pooling_slots := Some n\<rparr>) rest')
          (number_option ''--pooling-slots requires a value'' v)
        else if arg = ''--cow''
        then (case v of
                None \<Rightarrow> Inl ''--cow requires on or off''
              | Some s \<Rightarrow>
                  if s = ''on'' then Inr (Continue_with (a\<lparr>ba_memory_init_cow := Some True\<rparr>) rest')
                  else if s = ''off'' then Inr (Continue_with (a\<lparr>ba_memory_init_cow := Some False\<rparr>) rest')
                  else Inl (''unsupported --cow value '' @ s))
        else if arg = ''--help'' then Inr ShowHelp
        else Inl (''unknown argument '' @ arg))"

lemma map_sum_Inr: "map_sum f g x = Inr y \<longleftrightarrow> (\<exists>b. x = Inr b \<and> y = g b)"
  by (cases x) auto

lemma bench_arm_shorter: "bench_arm arg rest a = Inr (Continue_with b rest') \<Longrightarrow> length rest' \<le> length rest"
  by (auto simp: bench_arm_def next_arg_def map_sum_Inr split: list.splits option.splits if_splits)

text \<open>The loop; \<open>None\<close> is the end after the help text.\<close>

function parse_bench_args :: "bench_args \<Rightarrow> string list \<Rightarrow> string + bench_args option" where
  "parse_bench_args a [] = Inr (Some a)"
| "parse_bench_args a (arg # rest) =
     (case bench_arm arg rest a of
        Inl e \<Rightarrow> Inl e
      | Inr ShowHelp \<Rightarrow> Inr None
      | Inr (Continue_with b rest') \<Rightarrow> parse_bench_args b rest')"
  by pat_completeness auto
termination
  by (relation "measure (\<lambda>(a, args). length args)") (auto dest: bench_arm_shorter)

text \<open>\<^verbatim>\<open>saturating_add\<close> at 64 bits, and the configuration of the runtime.\<close>

definition saturating_add64 :: "usize \<Rightarrow> usize \<Rightarrow> usize" where
  "saturating_add64 a b = (if unat a + unat b < 2 ^ 64 then a + b else - 1)"

definition bench_config :: "bench_args \<Rightarrow> PitRuntimeConfig" where
  "bench_config a =
     \<lparr>rc_compiled_cache_restore = ba_restore_mode a,
      rc_allocation =
        (case (case ba_pooling_slots a of
                 Some n \<Rightarrow> Some n
               | None \<Rightarrow> if ba_pooling a then Some (saturating_add64 (ba_lanes a) 2) else None) of
           None \<Rightarrow> OnDemand
         | Some slots \<Rightarrow> Pooling slots),
      rc_memory_init_cow = ba_memory_init_cow a, rc_pre_resolved_imports = ba_pre_resolved_imports a\<rparr>"

definition make_dispatcher ::
  "runtime_world \<Rightarrow> instant \<Rightarrow> usize \<Rightarrow> string option \<Rightarrow> PitRuntimeConfig \<Rightarrow> string + PitHttpDispatcher" where
  "make_dispatcher w now lanes cache rc =
     (case cache of
        Some path \<Rightarrow> with_compiled_cache_options w (unat lanes) now rc
      | None \<Rightarrow> with_options w (unat lanes) now rc)"

subsection \<open>Samples\<close>

record Sample =
  sa_total_ns :: nat
  sa_guest_started_ns :: nat
  sa_prepared_lookup_ns :: nat
  sa_queue_ns :: nat
  sa_scheduling_gap_ns :: nat
  sa_guest_ns :: nat
  sa_total_us :: nat
  sa_guest_started_us :: nat
  sa_prepared_lookup_us :: nat
  sa_queue_us :: nat
  sa_scheduling_gap_us :: nat
  sa_guest_us :: nat
  sa_burst_guest_started_ns :: "nat option"
  sa_burst_guest_started_us :: "nat option"
  sa_request_setup_ns :: nat
  sa_wasi_setup_ns :: nat
  sa_store_setup_ns :: nat
  sa_instance_setup_ns :: nat
  sa_guest_execution_ns :: nat
  sa_error :: "string option"
  sa_success :: bool

definition sample_from_result :: "duration \<Rightarrow> HttpDispatchResult \<Rightarrow> Sample" where
  "sample_from_result total_time result =
     \<lparr>sa_total_ns = total_time, sa_guest_started_ns = hd_guest_started_after_request result,
      sa_prepared_lookup_ns = hd_prepared_lookup result, sa_queue_ns = hd_queued_for result,
      sa_scheduling_gap_ns = hd_scheduling_gap result, sa_guest_ns = hd_duration result,
      sa_total_us = micros total_time, sa_guest_started_us = micros (hd_guest_started_after_request result),
      sa_prepared_lookup_us = micros (hd_prepared_lookup result), sa_queue_us = micros (hd_queued_for result),
      sa_scheduling_gap_us = micros (hd_scheduling_gap result), sa_guest_us = micros (hd_duration result),
      sa_burst_guest_started_ns = None, sa_burst_guest_started_us = None,
      sa_request_setup_ns = request_setup (hd_runtime_timings result),
      sa_wasi_setup_ns = wasi_setup (hd_runtime_timings result),
      sa_store_setup_ns = store_setup (hd_runtime_timings result),
      sa_instance_setup_ns = instance_setup (hd_runtime_timings result),
      sa_guest_execution_ns = guest_execution (hd_runtime_timings result),
      sa_error = hd_error result, sa_success = (hd_response result \<noteq> None)\<rparr>"

text \<open>One execution: its error, or how long it took and its result.\<close>

type_synonym timed_dispatch = "string + (duration \<times> HttpDispatchResult)"

definition sample_of :: "timed_dispatch \<Rightarrow> string + Sample" where
  "sample_of r = map_sum id (\<lambda>(took, result). sample_from_result took result) r"

text \<open>A worker of a burst: the offset of its request in the burst, and its execution; or it panics.\<close>

datatype burst_worker = WorkerPanicked | WorkerDone duration timed_dispatch

definition join_worker :: "burst_worker \<Rightarrow> string + Sample" where
  "join_worker w =
     (case w of
        WorkerPanicked \<Rightarrow> Inl ''benchmark worker panicked''
      | WorkerDone offset r \<Rightarrow>
          map_sum id (\<lambda>s. s\<lparr>sa_burst_guest_started_ns := Some (offset + sa_guest_started_ns s),
                           sa_burst_guest_started_us := Some (micros offset + sa_guest_started_us s)\<rparr>) (sample_of r))"

text \<open>\<^verbatim>\<open>(0..count).step_by(concurrency)\<close>, and the burst that starts at each.\<close>

function batch_starts :: "nat \<Rightarrow> nat \<Rightarrow> nat \<Rightarrow> nat list" where
  "batch_starts n step start = (if start < n \<and> 0 < step then start # batch_starts n step (start + step) else [])"
  by auto
termination by (relation "measure (\<lambda>(n, step, start). n - start)") auto

declare batch_starts.simps [simp del]

definition batch_size :: "nat \<Rightarrow> nat \<Rightarrow> nat \<Rightarrow> nat" where
  "batch_size n concurrency start = min (n - start) concurrency"

definition batch_results :: "(nat \<Rightarrow> burst_worker) \<Rightarrow> nat \<Rightarrow> nat \<Rightarrow> nat \<Rightarrow> string + Sample list" where
  "batch_results workers n concurrency start =
     collect_results (map (\<lambda>i. join_worker (workers (start + i))) [0..<batch_size n concurrency start])"

fun collect_batches :: "(nat \<Rightarrow> string + 'a list) \<Rightarrow> nat list \<Rightarrow> 'a list \<Rightarrow> string + 'a list" where
  "collect_batches run [] results = Inr results"
| "collect_batches run (start # starts) results =
     (case run start of Inl e \<Rightarrow> Inl e | Inr samples \<Rightarrow> collect_batches run starts (results @ samples))"

definition collect_samples ::
  "(nat \<Rightarrow> timed_dispatch) \<Rightarrow> (nat \<Rightarrow> burst_worker) \<Rightarrow> nat \<Rightarrow> nat \<Rightarrow> string + Sample list" where
  "collect_samples single workers n concurrency =
     (if concurrency \<le> 1 then collect_results (map (\<lambda>i. sample_of (single i)) [0..<n])
      else collect_batches (batch_results workers n concurrency) (batch_starts n concurrency 0) [])"

text \<open>What \<^verbatim>\<open>Debug\<close> shows of the enumerations.\<close>

fun show_readiness :: "ReadinessState \<Rightarrow> string" where
  "show_readiness Hot = ''Hot''"
| "show_readiness Warm = ''Warm''"
| "show_readiness Cold = ''Cold''"

fun show_source :: "CompiledCacheSource \<Rightarrow> string" where
  "show_source WarmRestored = ''WarmRestored''"
| "show_source ColdCompiled = ''ColdCompiled''"

fun show_restore :: "CompiledCacheRestoreMode \<Rightarrow> string" where
  "show_restore Bytes = ''Bytes''"
| "show_restore FileBacked = ''FileBacked''"

fun show_allocation :: "RuntimeAllocationMode \<Rightarrow> string" where
  "show_allocation OnDemand = ''OnDemand''"
| "show_allocation (Pooling slots) = ''Pooling { slots: '' @ dec (unat slots) @ '' }''"

record PreparationObservation =
  ob_readiness :: string
  ob_source :: string
  ob_compile_ns :: nat
  ob_restore_ns :: nat
  ob_cache_publication_ns :: nat
  ob_metadata_lookup_ns :: nat
  ob_compile_fingerprint_ns :: nat
  ob_artifact_digest_ns :: nat
  ob_cache_file_read_ns :: nat
  ob_cache_deserialize_ns :: nat
  ob_http_linker_setup_ns :: nat
  ob_linker_preparation_ns :: nat
  ob_prepared_object_construction_ns :: nat

definition preparation_observation :: "PreparationReport \<Rightarrow> PreparationObservation" where
  "preparation_observation rep =
     \<lparr>ob_readiness = show_readiness (pr_readiness rep), ob_source = show_source (pr_source rep),
      ob_compile_ns = pr_compile_duration rep,
      ob_restore_ns = pr_restore_duration rep, ob_cache_publication_ns = pr_publication_duration rep,
      ob_metadata_lookup_ns = stage_metadata_lookup (pr_stages rep),
      ob_compile_fingerprint_ns = stage_compile_fingerprint (pr_stages rep),
      ob_artifact_digest_ns = stage_artifact_digest (pr_stages rep),
      ob_cache_file_read_ns = stage_file_read (pr_stages rep),
      ob_cache_deserialize_ns = stage_deserialize (pr_stages rep),
      ob_http_linker_setup_ns = stage_http_linker (pr_stages rep),
      ob_linker_preparation_ns = stage_linker_preparation (pr_stages rep),
      ob_prepared_object_construction_ns = stage_object_construction (pr_stages rep)\<rparr>"

subsection \<open>Summaries\<close>

record 'f Summary =
  sm_count :: nat
  sm_min_us :: nat
  sm_mean_us :: 'f
  sm_p50_us :: nat
  sm_p90_us :: nat
  sm_p95_us :: nat
  sm_p99_us :: nat
  sm_max_us :: nat
  sm_stddev_us :: 'f

definition default_summary :: "'f floats \<Rightarrow> 'f Summary" where
  "default_summary fl =
     \<lparr>sm_count = 0, sm_min_us = 0, sm_mean_us = fl_default fl, sm_p50_us = 0, sm_p90_us = 0, sm_p95_us = 0,
      sm_p99_us = 0, sm_max_us = 0, sm_stddev_us = fl_default fl\<rparr>"

definition div_ceil :: "nat \<Rightarrow> nat \<Rightarrow> nat" where
  "div_ceil a b = a div b + (if a mod b = 0 then 0 else 1)"

text \<open>The nearest rank in a sorted list; the list is never empty where it is called.\<close>

definition percentile :: "nat list \<Rightarrow> nat \<Rightarrow> nat" where
  "percentile values p =
     (let index = div_ceil (length values * p) 100 - 1 in values ! min index (length values - 1))"

definition mean_of :: "'f floats \<Rightarrow> nat list \<Rightarrow> 'f" where
  "mean_of fl vs = fl_div fl (fl_of_int fl (sum_list vs)) (fl_of_int fl (length vs))"

definition variance_of :: "'f floats \<Rightarrow> nat list \<Rightarrow> 'f" where
  "variance_of fl vs =
     fl_div fl
       (foldl (\<lambda>acc v. fl_add fl acc (fl_square fl (fl_sub fl (fl_of_int fl v) (mean_of fl vs)))) (fl_sum_start fl) vs)
       (fl_of_int fl (length vs))"

definition summary :: "'f floats \<Rightarrow> nat list \<Rightarrow> 'f Summary" where
  "summary fl values =
     (if values = [] then default_summary fl
      else (let vs = sort values in
        \<lparr>sm_count = length vs, sm_min_us = vs ! 0, sm_mean_us = mean_of fl vs,
         sm_p50_us = percentile vs 50, sm_p90_us = percentile vs 90, sm_p95_us = percentile vs 95,
         sm_p99_us = percentile vs 99, sm_max_us = last vs, sm_stddev_us = fl_sqrt fl (variance_of fl vs)\<rparr>))"

subsection \<open>Scenarios\<close>

record 'f Scenario =
  sc_metric :: string
  sc_samples :: "Sample list"
  sc_summary :: "'f Summary"
  sc_total_summary :: "'f Summary"
  sc_scheduling_gap_summary :: "'f Summary"
  sc_grid_fill_time_ns :: "nat option"
  sc_grid_fill_time_us :: "nat option"

definition scenario_with_metric ::
  "'f floats \<Rightarrow> Sample list \<Rightarrow> string \<Rightarrow> nat option \<Rightarrow> nat option \<Rightarrow> 'f Scenario" where
  "scenario_with_metric fl samples metric fill_ns fill_us =
     \<lparr>sc_metric = metric, sc_samples = samples, sc_summary = summary fl (map sa_guest_started_us samples),
      sc_total_summary = summary fl (map sa_total_us samples),
      sc_scheduling_gap_summary = summary fl (map sa_scheduling_gap_us samples),
      sc_grid_fill_time_ns = fill_ns, sc_grid_fill_time_us = fill_us\<rparr>"

definition scenario :: "'f floats \<Rightarrow> Sample list \<Rightarrow> 'f Scenario" where
  "scenario fl samples = scenario_with_metric fl samples ''guest_started_us'' None None"

definition scenario_total :: "'f floats \<Rightarrow> Sample list \<Rightarrow> 'f Scenario" where
  "scenario_total fl samples = scenario_with_metric fl samples ''total_us'' None None"

text \<open>
  When the last lane of the grid got its guest: the start of rank \<open>lanes\<close> of a burst. \<open>None\<close> is
  the panic on no lanes, of the subtraction or of the index.
\<close>

definition grid_fill_time :: "Sample list \<Rightarrow> nat \<Rightarrow> nat option option" where
  "grid_fill_time samples lanes =
     (let starts = sort (List.map_filter sa_burst_guest_started_ns samples) in
      if length starts < lanes then Some None
      else if lanes = 0 then None
      else Some (Some (starts ! (lanes - 1))))"

definition scenario_burst :: "'f floats \<Rightarrow> Sample list \<Rightarrow> nat \<Rightarrow> 'f Scenario option" where
  "scenario_burst fl samples lanes =
     map_option (\<lambda>fill. scenario_with_metric fl samples ''guest_started_us'' fill (map_option (\<lambda>v. v div 1000) fill))
       (grid_fill_time samples lanes)"

text \<open>How many samples the scenarios ask for; \<^verbatim>\<open>lanes * 4\<close> wraps in a release build.\<close>

definition burst_samples :: "usize \<Rightarrow> usize \<Rightarrow> nat" where
  "burst_samples samples lanes = max (unat samples) (unat (lanes * 4))"

definition cold_samples :: "usize \<Rightarrow> nat" where
  "cold_samples samples = max 10 (min 30 (unat samples))"

subsection \<open>The host\<close>

record MemoryObservation =
  rss_bytes :: u64
  virtual_bytes :: u64

text \<open>The next field as a number of KiB, in bytes (wrapping, as a release build does).\<close>

definition kib_field :: "string list \<Rightarrow> u64 option" where
  "kib_field rest =
     (case rest of
        [] \<Rightarrow> None
      | v # _ \<Rightarrow> (case parse_unsigned (2 ^ 64 - 1) v of Inl _ \<Rightarrow> None | Inr n \<Rightarrow> Some (of_nat n * 1024)))"

definition memory_line :: "string \<Rightarrow> u64 option \<times> u64 option \<Rightarrow> u64 option \<times> u64 option" where
  "memory_line line seen =
     (case split_whitespace line of
        [] \<Rightarrow> seen
      | key # rest \<Rightarrow>
          if key = ''VmRSS:'' then (kib_field rest, snd seen)
          else if key = ''VmSize:'' then (fst seen, kib_field rest)
          else seen)"

definition process_memory :: "string option \<Rightarrow> MemoryObservation option" where
  "process_memory status =
     (case status of
        None \<Rightarrow> None
      | Some contents \<Rightarrow>
          (case fold memory_line (str_lines contents) (None, None) of
             (Some rss, Some virt) \<Rightarrow> Some \<lparr>rss_bytes = rss, virtual_bytes = virt\<rparr>
           | _ \<Rightarrow> None))"

fun find_map :: "('a \<Rightarrow> 'b option) \<Rightarrow> 'a list \<Rightarrow> 'b option" where
  "find_map f [] = None"
| "find_map f (x # xs) = (case f x of Some y \<Rightarrow> Some y | None \<Rightarrow> find_map f xs)"

definition cpu_model_line :: "string \<Rightarrow> string option" where
  "cpu_model_line line =
     (if contains ''model name'' line then map_option (\<lambda>(_, v). trim v) (split_once (CHR '':'') line) else None)"

definition memory_total_line :: "string \<Rightarrow> u64 option" where
  "memory_total_line line =
     (case split_whitespace line of
        [] \<Rightarrow> None
      | key # rest \<Rightarrow> if key = ''MemTotal:'' then kib_field rest else None)"

text \<open>What the host answers: files that could be read, and the output of commands that succeeded, as text.\<close>

record host_answers =
  ha_os :: string
  ha_arch :: string
  ha_osrelease :: "string option"
  ha_cpuinfo :: "string option"
  ha_meminfo :: "string option"
  ha_stat_output :: "string option"
  ha_git_output :: "string option"
  ha_parallelism :: "nat option"
  ha_debug_build :: bool

record HostMetadata =
  hm_os :: string
  hm_kernel :: "string option"
  hm_arch :: string
  hm_cpu_model :: "string option"
  hm_logical_cpus :: nat
  hm_memory_total_bytes :: "u64 option"
  hm_filesystem :: "string option"
  hm_pit_box_commit :: "string option"
  hm_wasmtime :: string
  hm_build :: string

definition host_metadata :: "host_answers \<Rightarrow> HostMetadata" where
  "host_metadata w =
     \<lparr>hm_os = ha_os w, hm_kernel = map_option trim (ha_osrelease w), hm_arch = ha_arch w,
      hm_cpu_model = Option.bind (ha_cpuinfo w) (\<lambda>c. find_map cpu_model_line (str_lines c)),
      hm_logical_cpus = (case ha_parallelism w of None \<Rightarrow> 1 | Some n \<Rightarrow> n),
      hm_memory_total_bytes = Option.bind (ha_meminfo w) (\<lambda>c. find_map memory_total_line (str_lines c)),
      hm_filesystem = map_option trim (ha_stat_output w), hm_pit_box_commit = map_option trim (ha_git_output w),
      hm_wasmtime = ''39.0.2'', hm_build = (if ha_debug_build w then ''debug'' else ''release'')\<rparr>"

subsection \<open>The run\<close>

text \<open>
  What a run meets: the artifact's bytes, SHA-256, Wasmtime, the preparations with the files of their
  caches, the executions (those one by one in their order, the workers of the bursts, the cold trials, the
  restart), what it reads of the host, and the file it writes. The
  requests are all the same \<^verbatim>\<open>GET /hello\<close> with no capability; each execution is given by its
  result.
\<close>

record dispatcher_world =
  dw_preparation :: preparation
  dw_cache_files :: cache_fs
  dw_execution :: timed_dispatch

record 'f bench_world =
  bw_read :: "string \<Rightarrow> string + string"
  bw_sha :: "string \<Rightarrow> string"
  bw_runtime :: runtime_world
  bw_now :: instant
  bw_initial :: dispatcher_world
  bw_hot :: "nat \<Rightarrow> timed_dispatch"
  bw_burst :: "nat \<Rightarrow> burst_worker"
  bw_cold :: "nat \<Rightarrow> dispatcher_world"
  bw_restart :: dispatcher_world
  bw_timestamp :: "string + nat" \<comment> \<open>milliseconds since the epoch, if the clock is after it\<close>
  bw_construction_ns :: nat
  bw_host :: host_answers
  bw_status_after_dispatcher :: "string option"
  bw_status_after_preparation :: "string option"
  bw_status_at_output :: "string option"
  bw_grid_utilization :: 'f
  bw_write_error :: "string option"
  bw_floats :: "'f floats"

definition bench_request :: "('b, 'w) HttpCall" where
  "bench_request =
     \<lparr>hq_method = ''GET'', hq_path_and_query = ''/hello'', hq_headers = [(''host'', ''pitfast'')], hq_body = [],
      hq_env = [], hq_allowed_tcp = [], hq_source_garage_id = None, hq_visited_garages = [],
      hq_application_id = None, hq_release_id = None, hq_paddock_grants = [], hq_paddock = None, hq_paddock_auth = None\<rparr>"

record 'f Output =
  op_schema_version :: nat
  op_phase :: string
  op_timestamp_unix_ms :: nat
  op_artifact :: string
  op_digest :: string
  op_size_bytes :: nat
  op_lanes :: usize
  op_samples_per_scenario :: usize
  op_dispatcher_construction_ns :: nat
  op_restore_mode :: string
  op_allocation :: string
  op_pooling_slots :: "usize option"
  op_memory_init_cow :: "bool option"
  op_pre_resolved_imports :: bool
  op_host :: HostMetadata
  op_memory_after_dispatcher :: "MemoryObservation option"
  op_memory_after_preparation :: "MemoryObservation option"
  op_memory_at_output :: "MemoryObservation option"
  op_grid_utilization_after_run :: 'f
  op_preparation :: PreparationObservation
  op_scenarios :: "(string \<times> 'f Scenario) list"

text \<open>A dispatcher that prepares the artifact under its digest, and what its registration reports.\<close>

definition registered_dispatcher ::
  "'f bench_world \<Rightarrow> bench_args \<Rightarrow> string option \<Rightarrow> dispatcher_world \<Rightarrow> string \<Rightarrow> string \<Rightarrow> string + PreparationReport" where
  "registered_dispatcher w a cache dw artifact digest =
     bind_result (make_dispatcher (bw_runtime w) (bw_now w) (ba_lanes a) cache (bench_config a)) (\<lambda>d.
       fst (register_with_report digest (dw_preparation dw) (from_path_with_digest artifact digest) d (dw_cache_files dw)))"

text \<open>A cold trial has a dispatcher of its own, and a cache directory of its own if there is a cache.\<close>

definition cold_trial :: "'f bench_world \<Rightarrow> bench_args \<Rightarrow> string \<Rightarrow> string \<Rightarrow> nat \<Rightarrow> string + Sample" where
  "cold_trial w a artifact digest i =
     bind_result
       (registered_dispatcher w a (map_option (\<lambda>root. join_path root (''cold-'' @ dec i)) (ba_compiled_cache a))
         (bw_cold w i) artifact digest)
       (\<lambda>_. sample_of (dw_execution (bw_cold w i)))"

definition allocation_slots :: "PitRuntimeConfig \<Rightarrow> usize option" where
  "allocation_slots rc = (case rc_allocation rc of Pooling slots \<Rightarrow> Some slots | OnDemand \<Rightarrow> None)"

text \<open>The restart with the same cache; without a cache there is none.\<close>

definition warm_restore ::
  "'f bench_world \<Rightarrow> bench_args \<Rightarrow> string \<Rightarrow> string \<Rightarrow> PreparationReport
    \<Rightarrow> string + ((string \<times> 'f Scenario) list \<times> PreparationReport)" where
  "warm_restore w a artifact digest first =
     (case ba_compiled_cache a of
        None \<Rightarrow> Inr ([], first)
      | Some cache \<Rightarrow>
          bind_result (registered_dispatcher w a (Some cache) (bw_restart w) artifact digest) (\<lambda>rep.
          bind_result (sample_of (dw_execution (bw_restart w))) (\<lambda>sample.
            Inr ([(''warm_restore'', scenario_total (bw_floats w) [sample])], rep))))"

text \<open>\<^verbatim>\<open>output_value\<close>, the same in both branches.\<close>

definition output_value ::
  "'f bench_world \<Rightarrow> bench_args \<Rightarrow> string \<Rightarrow> string \<Rightarrow> nat \<Rightarrow> PreparationReport \<Rightarrow> (string \<times> 'f Scenario) list
    \<Rightarrow> 'f Output" where
  "output_value w a artifact bytes timestamp rep scenarios =
     \<lparr>op_schema_version = 2, op_phase = ba_phase a, op_timestamp_unix_ms = timestamp, op_artifact = artifact,
      op_digest = ''sha256:'' @ bw_sha w bytes, op_size_bytes = length bytes, op_lanes = ba_lanes a,
      op_samples_per_scenario = ba_samples a, op_dispatcher_construction_ns = bw_construction_ns w,
      op_restore_mode = show_restore (ba_restore_mode a), op_allocation = show_allocation (rc_allocation (bench_config a)),
      op_pooling_slots = allocation_slots (bench_config a), op_memory_init_cow = ba_memory_init_cow a,
      op_pre_resolved_imports = ba_pre_resolved_imports a, op_host = host_metadata (bw_host w),
      op_memory_after_dispatcher = process_memory (bw_status_after_dispatcher w),
      op_memory_after_preparation = process_memory (bw_status_after_preparation w),
      op_memory_at_output = process_memory (bw_status_at_output w),
      op_grid_utilization_after_run = bw_grid_utilization w,
      op_preparation = preparation_observation rep, op_scenarios = scenarios\<rparr>"

text \<open>
  \<^verbatim>\<open>main\<close> after the options, up to the value it writes; the map of scenarios is ordered by name.
  The burst scenario panics on no lanes, but a dispatcher without lanes is not made.
\<close>

definition bench_output :: "'f bench_world \<Rightarrow> bench_args \<Rightarrow> string + 'f Output option" where
  "bench_output w a =
     bind_result (need ''--artifact is required'' (ba_artifact a)) (\<lambda>artifact.
     bind_result (need ''--output is required'' (ba_output a)) (\<lambda>_.
     bind_result (bw_read w artifact) (\<lambda>bytes.
     (let digest = ''sha256:'' @ bw_sha w bytes; fl = bw_floats w in
     bind_result (registered_dispatcher w a (ba_compiled_cache a) (bw_initial w) artifact digest) (\<lambda>first.
     bind_result (collect_samples (bw_hot w) (bw_burst w) (unat (ba_samples a)) 1) (\<lambda>hot.
     bind_result (collect_samples (\<lambda>i. bw_hot w (unat (ba_samples a) + i)) (bw_burst w)
       (burst_samples (ba_samples a) (ba_lanes a)) (unat (ba_lanes a))) (\<lambda>burst.
     bind_result (collect_results (map (cold_trial w a artifact digest) [0..<cold_samples (ba_samples a)])) (\<lambda>cold.
     (case scenario_burst fl burst (unat (ba_lanes a)) of
        None \<Rightarrow> Inr None
      | Some burst_hot \<Rightarrow>
     bind_result (warm_restore w a artifact digest first) (\<lambda>(restored, rep).
     bind_result (bw_timestamp w) (\<lambda>timestamp.
       Inr (Some (output_value w a artifact bytes timestamp rep
         ([(''burst_hot'', burst_hot), (''cold_local_wasm'', scenario_total fl cold),
           (''hot_memory'', scenario fl hot)] @ restored))))))))))))))"

text \<open>The whole program: the help text, an error, a panic, or the output it wrote.\<close>

datatype 'f bench_end = HelpShown | Failed string | Panicked | Wrote "'f Output"

definition bench_main :: "'f bench_world \<Rightarrow> string list \<Rightarrow> 'f bench_end" where
  "bench_main w args =
     (case parse_bench_args default_bench_args args of
        Inl e \<Rightarrow> Failed e
      | Inr None \<Rightarrow> HelpShown
      | Inr (Some a) \<Rightarrow>
          (case bench_output w a of
             Inl e \<Rightarrow> Failed e
           | Inr None \<Rightarrow> Panicked
           | Inr (Some out) \<Rightarrow> (case bw_write_error w of Some e \<Rightarrow> Failed e | None \<Rightarrow> Wrote out)))"

end
