(* ===== verification/Pit_Bench_Claims.thy ===== *)
theory Pit_Bench_Claims
  imports Pit_Bench
begin

section \<open>What the benchmark reports\<close>

text \<open>
  The statistics are what their names say, a burst collects every worker once and in order, whatever the
  size of the batches, and the options can ask for every configuration.
\<close>

subsection \<open>Ranks in a sorted list\<close>

lemma sorted_rank:
  fixes xs :: "nat list"
  assumes "sorted xs" and "i < length xs"
  shows "Suc i \<le> cnt (\<lambda>x. x \<le> xs ! i) xs" and "cnt (\<lambda>x. x < xs ! i) xs \<le> i"
proof -
  have low: "x \<le> xs ! i" if "x \<in> set (take (Suc i) xs)" for x
    using assms that by (auto simp: in_set_conv_nth less_Suc_eq_le intro: sorted_nth_mono)
  have "Suc i = cnt (\<lambda>x. x \<le> xs ! i) (take (Suc i) xs)"
    using assms(2) low cnt_eq_length_iff [of "\<lambda>x. x \<le> xs ! i" "take (Suc i) xs"] by simp
  also have "\<dots> \<le> cnt (\<lambda>x. x \<le> xs ! i) xs"
    by (metis append_take_drop_id cnt_append le_add1)
  finally show "Suc i \<le> cnt (\<lambda>x. x \<le> xs ! i) xs" .
  have "\<not> x < xs ! i" if "x \<in> set (drop i xs)" for x
    using assms that by (auto simp: in_set_conv_nth not_less intro: sorted_nth_mono)
  then have "cnt (\<lambda>x. x < xs ! i) (drop i xs) = 0" by (simp add: cnt_def filter_empty_conv)
  then have "cnt (\<lambda>x. x < xs ! i) xs = cnt (\<lambda>x. x < xs ! i) (take i xs)"
    by (metis add_0_right append_take_drop_id cnt_append)
  then show "cnt (\<lambda>x. x < xs ! i) xs \<le> i" using cnt_le_length [of "\<lambda>x. x < xs ! i" "take i xs"] by simp
qed

lemma sorted_ends:
  fixes xs :: "nat list"
  assumes "sorted xs" and "xs \<noteq> []"
  shows "xs ! 0 = Min (set xs)" and "last xs = Max (set xs)"
proof -
  show "xs ! 0 = Min (set xs)"
    using assms by (intro Min_eqI [symmetric]) (auto simp: in_set_conv_nth intro: sorted_nth_mono)
  have "x \<le> last xs" if "x \<in> set xs" for x
    using assms that by (auto simp: in_set_conv_nth last_conv_nth intro!: sorted_nth_mono)
  then show "last xs = Max (set xs)" using assms(2) by (intro Max_eqI [symmetric]) auto
qed

lemma cnt_sort: "cnt P (sort xs) = cnt P (xs :: nat list)"
  unfolding cnt_def by (metis mset_filter mset_sort size_mset)

lemma div_ceil_bounds: "a \<le> 100 * div_ceil a 100 \<and> 100 * div_ceil a 100 < a + 100"
proof -
  define q r where "q = a div 100" and "r = a mod 100"
  then have a: "a = 100 * q + r" and "r < 100" by simp_all
  then show ?thesis unfolding div_ceil_def q_def [symmetric] r_def [symmetric] a
    by (cases "r = 0") simp_all
qed

text \<open>The nearest rank: at least \<open>p\<close> of a hundred values are at most \<open>v\<close>, and fewer are smaller.\<close>

definition nearest_rank :: "nat list \<Rightarrow> nat \<Rightarrow> nat \<Rightarrow> bool" where
  "nearest_rank values p v \<longleftrightarrow>
     v \<in> set values \<and> p * length values \<le> 100 * cnt (\<lambda>x. x \<le> v) values \<and> 100 * cnt (\<lambda>x. x < v) values < p * length values"

definition rank_index :: "nat list \<Rightarrow> nat \<Rightarrow> nat" where
  "rank_index values p = min (div_ceil (length values * p) 100 - 1) (length values - 1)"

lemma percentile_nth: "percentile values p = values ! rank_index values p"
  by (simp add: percentile_def rank_index_def Let_def)

lemma rank_index_less: "values \<noteq> [] \<Longrightarrow> rank_index values p < length values"
  by (cases "values") (simp_all add: rank_index_def)

lemma rank_index_exact:
  assumes "values \<noteq> []" and "0 < p" and "p \<le> 100"
  shows "Suc (rank_index values p) = div_ceil (length values * p) 100"
proof -
  let ?n = "length values"
  have n: "0 < ?n" using assms(1) by simp
  have "?n * p \<le> 100 * ?n" using assms(3) by simp
  then have "100 * div_ceil (?n * p) 100 < 100 * Suc ?n"
    using div_ceil_bounds [of "?n * p"] unfolding mult_Suc_right by linarith
  then have "div_ceil (?n * p) 100 \<le> ?n" by simp
  moreover have "0 < div_ceil (?n * p) 100" using div_ceil_bounds [of "?n * p"] n assms(2) by (cases "div_ceil (?n * p) 100") auto
  ultimately show ?thesis using n by (simp add: rank_index_def)
qed

lemma percentile_rank:
  assumes "sorted values" and "values \<noteq> []" and "0 < p" and "p \<le> 100"
  shows "nearest_rank values p (percentile values p)"
proof -
  let ?i = "rank_index values p"
  have i: "?i < length values" using assms(2) by (rule rank_index_less)
  note ceil = div_ceil_bounds [of "length values * p", folded rank_index_exact [OF assms(2-4)]]
  have "p * length values \<le> 100 * Suc ?i" "100 * ?i < p * length values" using ceil by (simp_all add: mult.commute)
  moreover have "100 * Suc ?i \<le> 100 * cnt (\<lambda>x. x \<le> values ! ?i) values" "100 * cnt (\<lambda>x. x < values ! ?i) values \<le> 100 * ?i"
    using sorted_rank [OF assms(1) i] by (simp_all only: mult_le_mono2)
  ultimately show ?thesis
    using i unfolding nearest_rank_def percentile_nth by (meson le_trans nth_mem order_le_less_trans)
qed

lemma percentile_mono:
  assumes "sorted values" and "values \<noteq> []" and "p \<le> q"
  shows "percentile values p \<le> percentile values q"
proof -
  have "div_ceil (length values * p) 100 \<le> div_ceil (length values * q) 100"
  proof -
    have "length values * p \<le> length values * q" using assms(3) by simp
    then have "100 * div_ceil (length values * p) 100 < 100 * div_ceil (length values * q) 100 + 100"
      using div_ceil_bounds [of "length values * p"] div_ceil_bounds [of "length values * q"] by linarith
    then show ?thesis by simp
  qed
  then have "rank_index values p \<le> rank_index values q" unfolding rank_index_def by simp
  then show ?thesis
    using assms(1) rank_index_less [OF assms(2), of q] by (simp add: percentile_nth sorted_nth_mono)
qed

lemma nearest_rank_sort [simp]: "nearest_rank (sort values) p v = nearest_rank values p v"
  by (simp add: nearest_rank_def cnt_sort)

subsection \<open>Batches\<close>

lemma collect_results_append:
  "collect_results (xs @ ys) =
    (case collect_results xs of Inl e \<Rightarrow> Inl e | Inr as \<Rightarrow> map_sum id (\<lambda>bs. as @ bs) (collect_results ys))"
proof (induction xs rule: collect_results.induct)
  case 1
  then show ?case by (cases "collect_results ys") simp_all
next
  case (3 a rs)
  then show ?case by (cases "collect_results rs"; cases "collect_results ys") auto
qed simp

lemma collect_batches_append:
  "collect_batches run starts results = map_sum id (\<lambda>rs. results @ concat rs) (collect_results (map run starts))"
proof (induction starts arbitrary: results)
  case (Cons s starts)
  then show ?case by (cases "run s"; cases "collect_results (map run starts)") auto
qed simp

lemma collect_concat:
  "map_sum id concat (collect_results (map (\<lambda>s. collect_results (f s)) starts)) = collect_results (concat (map f starts))"
proof (induction starts)
  case (Cons s starts)
  show ?case
    by (cases "collect_results (f s)"; cases "collect_results (map (\<lambda>s. collect_results (f s)) starts)")
      (simp_all add: collect_results_append flip: Cons.IH)
qed simp

text \<open>The batches divide the range.\<close>

lemma batches_cover:
  "0 < c \<Longrightarrow> concat (map (\<lambda>s. map (\<lambda>i. i + s) [0..<batch_size n c s]) (batch_starts n c start)) = [start..<n]"
proof (induction n c start rule: batch_starts.induct)
  case (1 n c start)
  show ?case
  proof (cases "start < n")
    case True
    have "map (\<lambda>i. i + start) [0..<batch_size n c start] = [start..<start + batch_size n c start]"
      by (simp add: map_add_upt add.commute)
    moreover have "[start..<start + batch_size n c start] @ [start + c..<n] = [start..<n]"
    proof (cases "start + c \<le> n")
      case True
      then show ?thesis using upt_add_eq_append [of start "start + c" "n - (start + c)"] by (simp add: batch_size_def)
    next
      case False
      then show ?thesis using \<open>start < n\<close> by (simp add: batch_size_def)
    qed
    ultimately show ?thesis using 1 True by (simp add: batch_starts.simps [of n c start])
  next
    case False
    then show ?thesis by (simp add: batch_starts.simps [of n c start])
  qed
qed

lemma starts_in_range: "s \<in> set (batch_starts n c start) \<Longrightarrow> s < n \<and> 0 < c"
proof (induction n c start rule: batch_starts.induct)
  case (1 n c start)
  then show ?case by (subst (asm) batch_starts.simps) (auto split: if_splits)
qed

subsection \<open>Options\<close>

text \<open>The arguments that ask for given options.\<close>

definition maybe_arg :: "string \<Rightarrow> string option \<Rightarrow> string list" where
  "maybe_arg name v = (case v of None \<Rightarrow> [] | Some s \<Rightarrow> [name, s])"

definition render_bench_args :: "bench_args \<Rightarrow> string list" where
  "render_bench_args a =
     maybe_arg ''--artifact'' (ba_artifact a) @ maybe_arg ''--output'' (ba_output a) @ [''--phase'', ba_phase a]
     @ [''--lanes'', dec (unat (ba_lanes a)), ''--samples'', dec (unat (ba_samples a))]
     @ maybe_arg ''--compiled-cache'' (ba_compiled_cache a)
     @ [''--restore'', case ba_restore_mode a of Bytes \<Rightarrow> ''bytes'' | FileBacked \<Rightarrow> ''file'']
     @ (if ba_pooling a then [''--pooling''] else [])
     @ maybe_arg ''--pooling-slots'' (map_option (\<lambda>n. dec (unat n)) (ba_pooling_slots a))
     @ maybe_arg ''--cow'' (map_option (\<lambda>b. if b then ''on'' else ''off'') (ba_memory_init_cow a))
     @ (if ba_pre_resolved_imports a then [] else [''--no-pre-resolved''])"

lemma parse_usize_dec [simp]: "parse_usize (dec (unat n)) = Inr n"
proof -
  have "unat n < 2 ^ 64" using unsigned_less [of n] by simp
  then have "unat n \<le> 2 ^ 64 - 1" by simp
  then show ?thesis by (simp add: parse_usize_def parse_unsigned_dec)
qed

lemma parse_options:
  "parse_bench_args a (''--artifact'' # v # rest) = parse_bench_args (a\<lparr>ba_artifact := Some v\<rparr>) rest"
  "parse_bench_args a (''--output'' # v # rest) = parse_bench_args (a\<lparr>ba_output := Some v\<rparr>) rest"
  "parse_bench_args a (''--phase'' # v # rest) = parse_bench_args (a\<lparr>ba_phase := v\<rparr>) rest"
  "parse_bench_args a (''--lanes'' # dec (unat n) # rest) = parse_bench_args (a\<lparr>ba_lanes := n\<rparr>) rest"
  "parse_bench_args a (''--samples'' # dec (unat n) # rest) = parse_bench_args (a\<lparr>ba_samples := n\<rparr>) rest"
  "parse_bench_args a (''--compiled-cache'' # v # rest) = parse_bench_args (a\<lparr>ba_compiled_cache := Some v\<rparr>) rest"
  "parse_bench_args a (''--restore'' # ''bytes'' # rest) = parse_bench_args (a\<lparr>ba_restore_mode := Bytes\<rparr>) rest"
  "parse_bench_args a (''--restore'' # ''file'' # rest) = parse_bench_args (a\<lparr>ba_restore_mode := FileBacked\<rparr>) rest"
  "parse_bench_args a (''--pooling'' # rest) = parse_bench_args (a\<lparr>ba_pooling := True\<rparr>) rest"
  "parse_bench_args a (''--pooling-slots'' # dec (unat n) # rest) = parse_bench_args (a\<lparr>ba_pooling_slots := Some n\<rparr>) rest"
  "parse_bench_args a (''--cow'' # ''on'' # rest) = parse_bench_args (a\<lparr>ba_memory_init_cow := Some True\<rparr>) rest"
  "parse_bench_args a (''--cow'' # ''off'' # rest) = parse_bench_args (a\<lparr>ba_memory_init_cow := Some False\<rparr>) rest"
  "parse_bench_args a (''--no-pre-resolved'' # rest) = parse_bench_args (a\<lparr>ba_pre_resolved_imports := False\<rparr>) rest"
  by (simp_all add: bench_arm_def next_arg_def number_option_def)

text \<open>Each option of the record in turn.\<close>

lemma parse_maybe:
  "parse_bench_args a (maybe_arg ''--artifact'' v @ rest)
    = parse_bench_args (case v of None \<Rightarrow> a | Some s \<Rightarrow> a\<lparr>ba_artifact := Some s\<rparr>) rest"
  "parse_bench_args a (maybe_arg ''--output'' v @ rest)
    = parse_bench_args (case v of None \<Rightarrow> a | Some s \<Rightarrow> a\<lparr>ba_output := Some s\<rparr>) rest"
  "parse_bench_args a (maybe_arg ''--compiled-cache'' v @ rest)
    = parse_bench_args (case v of None \<Rightarrow> a | Some s \<Rightarrow> a\<lparr>ba_compiled_cache := Some s\<rparr>) rest"
  "parse_bench_args a (maybe_arg ''--pooling-slots'' (map_option (\<lambda>n. dec (unat n)) w) @ rest)
    = parse_bench_args (case w of None \<Rightarrow> a | Some n \<Rightarrow> a\<lparr>ba_pooling_slots := Some n\<rparr>) rest"
  "parse_bench_args a (maybe_arg ''--cow'' (map_option (\<lambda>b. if b then ''on'' else ''off'') c) @ rest)
    = parse_bench_args (case c of None \<Rightarrow> a | Some b \<Rightarrow> a\<lparr>ba_memory_init_cow := Some b\<rparr>) rest"
  by (simp_all add: maybe_arg_def parse_options del: parse_bench_args.simps split: option.split)

subsection \<open>The properties\<close>

text \<open>C32: the statistics are what they are called. For the values of any scenario, in whatever order they came:
  their number, least and greatest are right; each percentile is one of the values, at least so many of a
  hundred values are at most it, and fewer than that are smaller; and the percentiles lie between the
  extremes in their order.\<close>

theorem summary_exact:
  assumes "values \<noteq> []"
  shows "let s = summary fl values in
    sm_count s = length values \<and> sm_min_us s = Min (set values) \<and> sm_max_us s = Max (set values)
    \<and> nearest_rank values 50 (sm_p50_us s) \<and> nearest_rank values 90 (sm_p90_us s)
    \<and> nearest_rank values 95 (sm_p95_us s) \<and> nearest_rank values 99 (sm_p99_us s)
    \<and> sm_min_us s \<le> sm_p50_us s \<and> sm_p50_us s \<le> sm_p90_us s \<and> sm_p90_us s \<le> sm_p95_us s
    \<and> sm_p95_us s \<le> sm_p99_us s \<and> sm_p99_us s \<le> sm_max_us s
    \<and> (\<forall>values'. mset values' = mset values \<longrightarrow> summary fl values' = s)"
proof -
  let ?vs = "sort values"
  have vs: "sorted ?vs" "?vs \<noteq> []" "length ?vs = length values" "set ?vs = set values"
    using assms by (simp_all, metis length_0_conv length_sort)
  have least: "?vs ! 0 = Min (set values)" and greatest: "last ?vs = Max (set values)"
    using sorted_ends [OF vs(1,2)] vs(4) by simp_all
  have rank: "nearest_rank values p (percentile ?vs p)" if "0 < p" "p \<le> 100" for p
    using percentile_rank [OF vs(1,2) that] by simp
  have within: "Min (set values) \<le> v \<and> v \<le> Max (set values)" if "nearest_rank values p v" for p v
    using that by (simp add: nearest_rank_def)
  have ends: "Min (set values) \<le> percentile ?vs 50" "percentile ?vs 99 \<le> Max (set values)"
    using within [OF rank [of 50]] within [OF rank [of 99]] by simp_all
  have same: "summary fl values' = summary fl values" if "mset values' = mset values" for values'
    using that assms properties_for_sort [of "sort values" values'] by (auto simp: summary_def Let_def)
  show ?thesis
    using assms vs(3) least greatest rank ends percentile_mono [OF vs(1,2)] same
    by (simp add: Let_def summary_def)
qed

definition demo_floats :: "nat floats" where
  "demo_floats = \<lparr>fl_default = 0, fl_one = 1, fl_sum_start = 0, fl_of_int = id, fl_add = (+), fl_sub = (-), fl_div = (div), fl_min = min,
     fl_square = (\<lambda>x. x * x), fl_sqrt = id\<rparr>"

theorem summary_exact_witness:
  "sm_p90_us (summary demo_floats [30, 10, 20]) = 30 \<and> sm_min_us (summary demo_floats [30, 10, 20]) = 10
    \<and> nearest_rank [30, 10, 20] 50 (sm_p50_us (summary demo_floats [30, 10, 20]))"
  using summary_exact [of "[30, 10, 20]" demo_floats]
  by (simp add: Let_def summary_def percentile_def div_ceil_def)

text \<open>A collection is the sequence of its executions. Whatever the concurrency, the samples are those of
  the first \<open>n\<close> executions or workers, each exactly once and in their order, or the error of the
  first of them that failed; and a burst has at least one and never more workers than the concurrency.\<close>

theorem collect_samples_exact:
  "collect_samples single workers n concurrency
    = collect_results (map (\<lambda>i. if concurrency \<le> 1 then sample_of (single i) else join_worker (workers i)) [0..<n])
   \<and> (\<forall>start\<in>set (batch_starts n concurrency 0). 0 < batch_size n concurrency start
        \<and> batch_size n concurrency start \<le> concurrency)"
proof -
  have "collect_batches (batch_results workers n concurrency) (batch_starts n concurrency 0) []
      = collect_results (map (\<lambda>i. join_worker (workers i)) [0..<n])" if "0 < concurrency"
  proof -
    let ?f = "\<lambda>s. map (\<lambda>i. join_worker (workers (s + i))) [0..<batch_size n concurrency s]"
    have "collect_batches (batch_results workers n concurrency) (batch_starts n concurrency 0) []
        = collect_results (concat (map ?f (batch_starts n concurrency 0)))"
      by (simp add: collect_batches_append batch_results_def [abs_def] flip: collect_concat)
    also have "concat (map ?f (batch_starts n concurrency 0))
        = map (\<lambda>i. join_worker (workers i))
            (concat (map (\<lambda>s. map (\<lambda>i. i + s) [0..<batch_size n concurrency s]) (batch_starts n concurrency 0)))"
      by (simp add: map_concat comp_def add.commute)
    finally show ?thesis by (simp add: batches_cover [OF that])
  qed
  then show ?thesis using starts_in_range [of _ n concurrency 0]
    by (auto simp: collect_samples_def batch_size_def)
qed

definition quiet_result :: HttpDispatchResult where
  "quiet_result = \<lparr>hd_execution_id = ExecutionId 0, hd_lane_id = LaneId 0, hd_response = None, hd_error = None,
     hd_queued_for = 0, hd_scheduling_gap = 0, hd_duration = 0, hd_guest_started_after_request = 0,
     hd_prepared_lookup = 0, hd_runtime_timings = default_timings\<rparr>"

theorem collect_samples_exact_witness:
  "map_sum id (map sa_total_ns) (collect_samples (\<lambda>_. Inl ''e'') (\<lambda>i. WorkerDone 5 (Inr (i, quiet_result))) 3 2) = Inr [0, 1, 2]
    \<and> batch_starts 3 2 0 = [0, 2]"
proof -
  have starts: "batch_starts 3 2 0 = [0, 2]" by (simp add: batch_starts.simps)
  then show ?thesis
    using collect_samples_exact [of "\<lambda>_. Inl ''e''" "\<lambda>i. WorkerDone 5 (Inr (i, quiet_result))" 3 2]
    by (simp add: upt_conv_Cons join_worker_def sample_of_def sample_from_result_def)
qed

text \<open>The options are complete. Every combination of options has arguments that ask for it: what is printed
  as arguments is parsed back, with every number of 64 bits.\<close>

theorem bench_options_roundtrip:
  "parse_bench_args default_bench_args (render_bench_args a) = Inr (Some a)"
proof -
  have flag: "parse_bench_args b ((if c then [''--pooling''] else []) @ rest)
      = parse_bench_args (if c then b\<lparr>ba_pooling := True\<rparr> else b) rest" for b c rest
    by (simp add: parse_options del: parse_bench_args.simps)
  have mode: "parse_bench_args b (''--restore'' # (case m of Bytes \<Rightarrow> ''bytes'' | FileBacked \<Rightarrow> ''file'') # rest)
      = parse_bench_args (b\<lparr>ba_restore_mode := m\<rparr>) rest" for b m rest
    by (cases m) (simp_all add: parse_options del: parse_bench_args.simps)
  show ?thesis
    unfolding render_bench_args_def append.simps append_assoc
    by (simp only: parse_options parse_maybe flag mode append.simps)
      (cases a, auto simp: parse_options default_bench_args_def simp del: parse_bench_args.simps(2) split: option.splits)
qed

end
