(* ===== verification/Example_Guests.thy ===== *)
theory Example_Guests
  imports Rt_Exec_Claims
begin

section \<open>The example guests\<close>

text \<open>
  \<^verbatim>\<open>examples/*/src/main.rs\<close>: six command-line programs that exercise one behaviour of the
  runtime each. A program is given by what it writes and how it ends, from its arguments and its
  environment; when it is run, epoch checks and the growth of its memory come anywhere in between. The
  properties say what \<^verbatim>\<open>execute\<close> makes of them.
\<close>

type_synonym behaviour = "guest_event list \<times> (call_error + unit)"

subsection \<open>hello, env and exit\<close>

definition hello_main :: "string list \<Rightarrow> behaviour" where
  "hello_main argv =
     (let args = drop 1 argv in
      (WriteOut ''Hello from PitFast!\<newline>''
         # (if args \<noteq> [] then [WriteOut (''Arguments: '' @ join '' | '' args @ ''\<newline>'')] else []), Inr ()))"

text \<open>\<^verbatim>\<open>std::env::var\<close> finds the first entry of a name.\<close>

definition shown_variable :: "(string \<times> string) list \<Rightarrow> string \<Rightarrow> string" where
  "shown_variable env key = (case map_of env key of Some v \<Rightarrow> v | None \<Rightarrow> ''<unset>'')"

definition env_main :: "(string \<times> string) list \<Rightarrow> behaviour" where
  "env_main env =
     (map (\<lambda>key. WriteOut (key @ ''='' @ shown_variable env key @ ''\<newline>''))
        [''MODE'', ''REGION''], Inr ())"

text \<open>The message is how Wasmtime shows the exit.\<close>

definition exit_main :: "string \<Rightarrow> behaviour" where
  "exit_main shown_exit =
     ([WriteOut ''stdout before exit\<newline>'', WriteErr ''stderr before exit\<newline>''], Inl (CallError (Some 7) shown_exit))"

subsection \<open>cpu-burn\<close>

definition DEFAULT_ITERATIONS :: u64 where
  "DEFAULT_ITERATIONS = 50000000"

definition burn_round :: "u64 \<Rightarrow> u64 \<Rightarrow> u64" where
  "burn_round index state =
     (let state = state + word_rotl 17 index;
          state = xor state (word_rotl 29 state);
          state = state * 0x9e3779b97f4a7c15 + 0x6a09e667f3bcc909
      in xor state (drop_bit 31 state))"

lemma burn_index: "index < iterations \<Longrightarrow> unat (index + 1) = Suc (unat index)" for index iterations :: u64
  using unsigned_less [of iterations, where ?'a = nat] by (simp add: word_less_nat_alt unat_word_ariths)

function burn_loop :: "u64 \<Rightarrow> u64 \<Rightarrow> u64 \<Rightarrow> u64" where
  "burn_loop iterations index state =
     (if index < iterations then burn_loop iterations (index + 1) (burn_round index state) else state)"
  by auto
termination
  by (relation "measure (\<lambda>(iterations, index, state). unat iterations - unat index)")
    (auto simp: burn_index word_less_nat_alt)

declare burn_loop.simps [simp del]

definition cpu_burn :: "u64 \<Rightarrow> u64" where
  "cpu_burn iterations = burn_loop iterations 0 0x243f6a8885a308d3"

definition cpu_iterations :: "string list \<Rightarrow> u64" where
  "cpu_iterations argv =
     (case drop 1 argv of
        [] \<Rightarrow> DEFAULT_ITERATIONS
      | value # _ \<Rightarrow> (case parse_unsigned (2 ^ 64 - 1) value of Inl _ \<Rightarrow> DEFAULT_ITERATIONS | Inr n \<Rightarrow> of_nat n))"

text \<open>The checksum is only kept from the optimizer.\<close>

definition cpu_main :: "string list \<Rightarrow> u64 \<times> behaviour" where
  "cpu_main argv = (cpu_burn (cpu_iterations argv), ([], Inr ()))"

subsection \<open>infinite-loop and memory-grow\<close>

definition spin_round :: "u64 \<Rightarrow> u64" where
  "spin_round state =
     (let state = state * 0x9e3779b97f4a7c15 + 0x6a09e667f3bcc909 in xor state (word_rotl 13 state))"

text \<open>
  The loop has no end: after \<open>n\<close> rounds it is in this state and goes on. It calls nothing, so all
  that its host sees are epoch checks.
\<close>

definition spin :: "nat \<Rightarrow> u64" where
  "spin n = (spin_round ^^ n) 0"

definition spinning :: "'r guest \<Rightarrow> bool" where
  "spinning g \<longleftrightarrow> (\<forall>ev\<in>set (g_call_events g). \<exists>cancelled now. ev = Tick cancelled now)"

text \<open>32 MiB are reserved before a byte is written; \<open>needed\<close> is the size of the memory with them.\<close>

definition grown :: nat where
  "grown = 32 * 1024 * 1024"

definition memory_grow_main :: "nat \<Rightarrow> behaviour" where
  "memory_grow_main needed = ([Grow needed, WriteOut (''allocated '' @ dec grown @ '' bytes\<newline>'')], Inr ())"

subsection \<open>Running them\<close>

fun is_write :: "guest_event \<Rightarrow> bool" where
  "is_write (WriteOut _) = True"
| "is_write (WriteErr _) = True"
| "is_write _ = False"

text \<open>A guest that behaves like a program, and an execution that nothing interrupts.\<close>

definition runs_as :: "unit guest \<Rightarrow> behaviour \<Rightarrow> bool" where
  "runs_as g b \<longleftrightarrow> filter is_write (g_call_events g) = filter is_write (fst b) \<and> g_call_final g = snd b"

definition started_well :: "instant \<Rightarrow> ExecutionRequest \<Rightarrow> unit guest \<Rightarrow> bool" where
  "started_well now r g \<longleftrightarrow>
     g_inst_final g = Inr () \<and> g_lookup_error g = None \<and> filter is_write (g_inst_events g) = []
     \<and> find (req_stops now r) (g_inst_events g) = None"

definition undisturbed :: "instant \<Rightarrow> ExecutionRequest \<Rightarrow> unit guest \<Rightarrow> bool" where
  "undisturbed now r g \<longleftrightarrow> started_well now r g \<and> find (req_stops now r) (g_call_events g) = None"

definition ended ::
  "unit guest \<Rightarrow> ExecutionStatus \<Rightarrow> int option \<Rightarrow> string \<Rightarrow> string \<Rightarrow> string option \<Rightarrow> RuntimeExecutionResult" where
  "ended g status code out err e =
     \<lparr>res_status = status, res_exit_code = code, res_stdout = out, res_stderr = err,
      res_duration = g_elapsed g, res_started = g_started g, res_error = e\<rparr>"

lemma writes_only:
  "concat (map out_of (filter is_write evs)) = concat (map out_of evs)"
  "concat (map err_of (filter is_write evs)) = concat (map err_of evs)"
proof (induction evs)
  case (Cons ev evs)
  { case 1 show ?case using Cons by (cases ev) simp_all }
  { case 2 show ?case using Cons by (cases ev) simp_all }
qed simp_all

lemma undisturbed_run:
  assumes "undisturbed now r g" and "runs_as g b"
  shows "execute_p1 now g r =
    (case snd b of
       Inr _ \<Rightarrow> ended g Completed (Some 0) (concat (map out_of (fst b))) (concat (map err_of (fst b))) None
     | Inl (CallError None msg) \<Rightarrow>
         ended g GuestTrap None (concat (map out_of (fst b))) (concat (map err_of (fst b))) (Some msg)
     | Inl (CallError (Some code) msg) \<Rightarrow>
         ended g (if code = 0 then Completed else GuestExitNonZero) (Some code) (concat (map out_of (fst b)))
           (concat (map err_of (fst b))) (if code = 0 then None else Some msg))"
proof -
  have writes: "concat (map out_of (g_inst_events g)) = []" "concat (map err_of (g_inst_events g)) = []"
    "concat (map out_of (g_call_events g)) = concat (map out_of (fst b))"
    "concat (map err_of (g_call_events g)) = concat (map err_of (fst b))"
    using assms writes_only [of "g_inst_events g"] writes_only [of "g_call_events g"] writes_only [of "fst b"]
    by (simp_all add: runs_as_def undisturbed_def started_well_def)
  obtain s where s: "run_guest (g_trap_text g) (g_inst_events g) (g_inst_final g) (new_store now r) = (Inr (), s)"
    "quiet s" "store_stops s = req_stops now r" "st_stdout s = []" "st_stderr s = []"
    using run_guest_free [of "new_store now r" "g_inst_events g" "g_trap_text g" "g_inst_final g"] assms(1) writes
    by (auto simp: undisturbed_def started_well_def)
  obtain s' where s': "run_guest (g_trap_text g) (g_call_events g) (g_call_final g) s = (snd b, s')"
    "quiet s'" "st_stdout s' = concat (map out_of (fst b))" "st_stderr s' = concat (map err_of (fst b))"
    using run_guest_free [of s "g_call_events g" "g_trap_text g" "g_call_final g"] s assms writes
    by (auto simp: undisturbed_def runs_as_def)
  show ?thesis
    using s(1) s' assms(1)
    by (auto simp: execute_p1_def undisturbed_def started_well_def interrupted_def quiet_def make_result_def
        classify_error_def ended_def split: sum.split call_error.split option.split)
qed

lemma find_after: "find P xs = None \<Longrightarrow> find P (xs @ ys) = find P ys"
  by (induction xs) (auto split: if_splits)

text \<open>A call that an event stops writes what came before it and ends with the status of that event.\<close>

lemma stopped_run:
  assumes "started_well now r g" and "find (req_stops now r) (g_call_events g) = Some ev"
  shows "res_status (execute_p1 now g r) = stop_status ev \<and> res_exit_code (execute_p1 now g r) = None
    \<and> res_stdout (execute_p1 now g r) = concat (map out_of (takeWhile (\<lambda>e. \<not> req_stops now r e) (g_call_events g)))
    \<and> res_stderr (execute_p1 now g r) = concat (map err_of (takeWhile (\<lambda>e. \<not> req_stops now r e) (g_call_events g)))"
proof -
  have inst: "find (req_stops now r) (g_inst_events g) = None" "g_inst_final g = Inr ()" "g_lookup_error g = None"
    "takeWhile (\<lambda>e. \<not> req_stops now r e) (g_inst_events g) = g_inst_events g"
    "concat (map out_of (g_inst_events g)) = []" "concat (map err_of (g_inst_events g)) = []"
    using assms(1) writes_only [of "g_inst_events g"] by (auto simp: started_well_def find_None_iff takeWhile_eq_all_conv)
  have status: "res_status (execute_p1 now g r) = stop_status ev"
    using p1.status_exact [of now g r] inst(1-3) assms(2) by (simp add: spec_status_def)
  moreover have "stop_status ev \<noteq> Completed \<and> stop_status ev \<noteq> GuestExitNonZero" by (cases ev) simp_all
  ultimately have "res_exit_code (execute_p1 now g r) = None"
    using p1.result_shape [of now g r] by (cases "res_exit_code (execute_p1 now g r)") (auto simp: well_shaped_def)
  then show ?thesis
    using status p1.output_exact [of now g r] inst by (simp add: spec_events_def)
qed

lemma burn_loop_rounds:
  "unat index \<le> unat iterations \<Longrightarrow>
    burn_loop iterations index state = fold (\<lambda>i. burn_round (of_nat i)) [unat index..<unat iterations] state"
proof (induction iterations index state rule: burn_loop.induct)
  case (1 iterations index state)
  show ?case
  proof (cases "index < iterations")
    case True
    then have "[unat index..<unat iterations] = unat index # [unat (index + 1)..<unat iterations]"
      "unat (index + 1) \<le> unat iterations"
      by (simp_all add: burn_index upt_conv_Cons word_less_nat_alt Suc_le_eq)
    then show ?thesis using 1 True by (simp add: burn_loop.simps [of iterations index])
  next
    case False
    then show ?thesis using 1 by (simp add: burn_loop.simps [of iterations index] word_less_nat_alt)
  qed
qed

subsection \<open>The properties\<close>

text \<open>What the runtime reports of the examples when nothing interrupts them: hello completes with its
  greeting and its arguments, which do not include the name of the program; env shows exactly the variables
  of the request; exit ends with its code and both of its outputs; cpu-burn and memory-grow complete.\<close>

theorem example_guests_exact:
  assumes "undisturbed now r g"
  shows "(runs_as g (hello_main (guest_args r)) \<longrightarrow>
      execute_p1 now g r = ended g Completed (Some 0)
        (''Hello from PitFast!\<newline>''
         @ (if req_args r = [] then [] else ''Arguments: '' @ join '' | '' (req_args r) @ ''\<newline>'')) [] None)
    \<and> (runs_as g (env_main (req_env r)) \<longrightarrow>
      execute_p1 now g r = ended g Completed (Some 0)
        (''MODE='' @ shown_variable (req_env r) ''MODE'' @ ''\<newline>REGION='' @ shown_variable (req_env r) ''REGION'' @ ''\<newline>'')
        [] None)
    \<and> (runs_as g (exit_main shown) \<longrightarrow>
      execute_p1 now g r = ended g GuestExitNonZero (Some 7) ''stdout before exit\<newline>'' ''stderr before exit\<newline>'' (Some shown))
    \<and> (runs_as g (snd (cpu_main (guest_args r))) \<longrightarrow> execute_p1 now g r = ended g Completed (Some 0) [] [] None)
    \<and> (runs_as g (memory_grow_main needed) \<longrightarrow>
      execute_p1 now g r = ended g Completed (Some 0) ''allocated 33554432 bytes\<newline>'' [] None)"
proof -
  note run = undisturbed_run [OF assms]
  have "dec grown = ''33554432''" by (simp add: grown_def dec.simps digit_char_def byte_of_val_def char_of_def bit_0)
  then show ?thesis
    using run [of "hello_main (guest_args r)"] run [of "env_main (req_env r)"] run [of "exit_main shown"]
      run [of "snd (cpu_main (guest_args r))"] run [of "memory_grow_main needed"]
    by (simp add: hello_main_def env_main_def exit_main_def cpu_main_def memory_grow_main_def guest_args_def ended_def)
qed

definition demo_limits :: ExecutionLimits where
  "demo_limits = \<lparr>lim_timeout = Some 100, lim_memory_bytes = Some 1048576\<rparr>"

definition demo_command :: ExecutionRequest where
  "demo_command = \<lparr>req_artifact = ''a'', req_program = ''hello'', req_entrypoint = ''_start'',
     req_args = [''x'', ''y''], req_env = [], req_limits = demo_limits\<rparr>"

definition guest_with :: "guest_event list \<Rightarrow> call_error + unit \<Rightarrow> unit guest" where
  "guest_with evs final =
     \<lparr>g_trap_text = ''wasm trap: interrupt'', g_inst_events = [Grow 65536], g_inst_final = Inr (),
      g_lookup_error = None, g_call_events = evs, g_call_final = final, g_started = 0, g_elapsed = 1\<rparr>"

theorem example_guests_exact_witness:
  "res_stdout (execute_p1 5 (guest_with (Tick False 6 # fst (hello_main [''hello'', ''x'', ''y''])) (Inr ())) demo_command)
    = ''Hello from PitFast!\<newline>Arguments: x | y\<newline>''"
proof -
  let ?g = "guest_with (Tick False 6 # fst (hello_main [''hello'', ''x'', ''y''])) (Inr ())"
  have "undisturbed 5 demo_command ?g" "runs_as ?g (hello_main (guest_args demo_command))"
    by (simp_all add: undisturbed_def started_well_def runs_as_def guest_with_def demo_command_def demo_limits_def
        hello_main_def guest_args_def)
  with example_guests_exact [of 5 demo_command ?g] show ?thesis
    by (simp add: ended_def demo_command_def)
qed

text \<open>How the other two end. The endless loop runs exactly as long as nothing stops it: under a deadline
  it times out at the first epoch check after it, a cancelled token cancels it, and without either no check
  ever does. A memory limit below what memory-grow needs stops it before it writes anything.\<close>

theorem example_guests_stopped:
  assumes "started_well now r g"
  shows "(spinning g \<and> find (req_stops now r) (g_call_events g) = Some (Tick cancelled t) \<longrightarrow>
      res_status (execute_p1 now g r) = (if cancelled then Cancelled else TimedOut)
      \<and> res_stdout (execute_p1 now g r) = [] \<and> res_stderr (execute_p1 now g r) = [])
    \<and> (spinning g \<and> lim_timeout (req_limits r) = None \<and> (\<forall>u. Tick True u \<notin> set (g_call_events g)) \<longrightarrow>
      find (req_stops now r) (g_call_events g) = None)
    \<and> (lim_memory_bytes (req_limits r) = Some limit \<and> limit < grown \<and> grown \<le> needed
        \<and> g_call_events g = early @ Grow needed # late \<and> filter is_write early = []
        \<and> find (req_stops now r) early = None \<longrightarrow>
      res_status (execute_p1 now g r) = MemoryLimitExceeded \<and> res_stdout (execute_p1 now g r) = [])"
proof (intro conjI impI)
  assume spin: "spinning g \<and> find (req_stops now r) (g_call_events g) = Some (Tick cancelled t)"
  have "out_of ev = [] \<and> err_of ev = []" if "ev \<in> set (takeWhile P (g_call_events g))" for P ev
    using spin that by (auto simp: spinning_def dest!: set_takeWhileD)
  then show "res_status (execute_p1 now g r) = (if cancelled then Cancelled else TimedOut)"
    "res_stdout (execute_p1 now g r) = []" "res_stderr (execute_p1 now g r) = []"
    using stopped_run [OF assms conjunct2 [OF spin]] by simp_all
next
  assume "spinning g \<and> lim_timeout (req_limits r) = None \<and> (\<forall>u. Tick True u \<notin> set (g_call_events g))"
  then show "find (req_stops now r) (g_call_events g) = None"
    by (auto simp: find_None_iff spinning_def)
next
  assume mem: "lim_memory_bytes (req_limits r) = Some limit \<and> limit < grown \<and> grown \<le> needed
    \<and> g_call_events g = early @ Grow needed # late \<and> filter is_write early = [] \<and> find (req_stops now r) early = None"
  then have stop: "find (req_stops now r) (g_call_events g) = Some (Grow needed)"
    and early: "takeWhile (\<lambda>e. \<not> req_stops now r e) (g_call_events g) = early"
    using find_after [of "req_stops now r" early] by (auto simp: find_None_iff takeWhile_append)
  have "concat (map out_of early) = []" using mem writes_only(1) [of early] by simp
  then show "res_status (execute_p1 now g r) = MemoryLimitExceeded" "res_stdout (execute_p1 now g r) = []"
    using stopped_run [OF assms stop] early by simp_all
qed

theorem example_guests_stopped_witness:
  "res_status (execute_p1 5 (guest_with [Tick False 6, Tick False 105, Tick False 106] (Inr ())) demo_command) = TimedOut"
proof -
  let ?g = "guest_with [Tick False 6, Tick False 105, Tick False 106] (Inr ())"
  have "started_well 5 demo_command ?g" "spinning ?g"
    "find (req_stops 5 demo_command) (g_call_events ?g) = Some (Tick False 105)"
    by (auto simp: started_well_def spinning_def guest_with_def demo_command_def demo_limits_def)
  then show ?thesis using example_guests_stopped [of 5 demo_command ?g False 105] by simp
qed

text \<open>cpu-burn mixes the numbers of its rounds into its state in order, as many as it is told, and nothing
  else; the argument is any number of 64 bits, anything else counts as absent.\<close>

theorem cpu_burn_rounds:
  "cpu_burn n = fold (\<lambda>i. burn_round (of_nat i)) [0..<unat n] 0x243f6a8885a308d3
    \<and> cpu_iterations [program, dec (unat n)] = n \<and> cpu_iterations [program] = DEFAULT_ITERATIONS"
  using burn_loop_rounds [of 0 n] parse_unsigned_dec [of "unat n" "2 ^ 64 - 1"] unsigned_less [of n, where ?'a = nat]
  by (simp add: cpu_burn_def cpu_iterations_def)

end
