(* ===== verification/Sched_Tests.thy ===== *)
theory Sched_Tests
  imports Sched_Batch_Claims Sched_Shared_Claims Pit_Strings
begin

section \<open>The unit tests of the scheduler\<close>

text \<open>
  The tests at the end of \<^verbatim>\<open>crates/pit-scheduler/src/lib.rs\<close>, on the model: each is a definition
  of what it asserts, and a lemma that it passes, for every interleaving of its workers and all timings.
  The assertions that the clock decides (that three sleeping tasks have met, that a call took less than
  100 milliseconds) are left out.
\<close>

subsection \<open>Running a batch to its end\<close>

text \<open>\<^verbatim>\<open>PitScheduler::new(lanes)\<close>, \<^verbatim>\<open>run_many_detailed(n, task)\<close>, and \<^verbatim>\<open>expect\<close> on both.\<close>

definition test_run ::
  "nat \<Rightarrow> nat \<Rightarrow> (ExecutionId \<Rightarrow> LaneId \<Rightarrow> 'a outcome \<Rightarrow> bool) \<Rightarrow> 'a SchedulerRun \<Rightarrow> bool" where
  "test_run lanes n returns run \<longleftrightarrow>
     (\<exists>p created now queued wall job s0 s. new_scheduler lanes created = Inr p
        \<and> run_many_detailed n (replicate n 0) queued returns wall now p = Inr (job, s0)
        \<and> length queued = n \<and> (\<forall>q\<in>set queued. q \<le> now)
        \<and> (batch_step job)\<^sup>*\<^sup>* s0 s \<and> batch_finish s = Some (Inr run))"

lemma alloc_ids_consecutive:
  "alloc_ids (replicate n 0) first = (map (\<lambda>k. ExecutionId (first + of_nat k)) [0..<n], first + of_nat n)"
proof (induction n arbitrary: first)
  case (Suc n)
  have "map (\<lambda>k. ExecutionId (first + of_nat k)) [0..<Suc n]
      = ExecutionId first # map (\<lambda>k. ExecutionId (first + 1 + of_nat k)) [0..<n]"
    by (simp add: upt_conv_Cons map_Suc_upt [symmetric] comp_def ac_simps del: upt_Suc)
  then show ?case by (simp add: Suc.IH)
qed simp

lemma test_run_facts:
  assumes "test_run lanes n returns run" and "n + lanes < 2 ^ 64"
  obtains job s where "batch_reachable lanes job s" "list_all (\<lambda>w. w_pc w = WExit) (bt_workers s)"
    "batch_finish s = Some (Inr run)" "j_returns job = returns" "j_classify job = (\<lambda>_. None)"
    "j_ids job = map (\<lambda>k. ExecutionId (of_nat k)) [0..<n]"
proof -
  from assms(1) obtain p created now queued wall job s0 s where w: "new_scheduler lanes created = Inr p"
    "run_many_detailed n (replicate n 0) queued returns wall now p = Inr (job, s0)"
    "length queued = n" "\<forall>q\<in>set queued. q \<le> now" "(batch_step job)\<^sup>*\<^sup>* s0 s" "batch_finish s = Some (Inr run)"
    unfolding test_run_def by blast
  have p: "0 < lanes" "p = scheduler_with_lanes lanes created"
    using w(1) by (simp_all add: new_scheduler_Inr_iff)
  have begun: "batch_begin n (replicate n 0) queued returns (\<lambda>_. None) (\<lambda>_. False) wall now p = Inr (job, s0)"
    using w(2) by (simp add: run_many_detailed_def)
  have "batch_begun lanes job s0"
    unfolding batch_begun_def
    by (intro exI conjI, rule begun) (use w(3,4) p assms(2) in \<open>simp_all add: scheduler_with_lanes_def sum_list_replicate\<close>)
  moreover have "list_all (\<lambda>w. w_pc w = WExit) (bt_workers s)"
    using w(6) by (auto simp: batch_finish_def list_all_iff list_ex_iff split: if_splits)
  moreover have "j_returns job = returns \<and> j_classify job = (\<lambda>_. None)
      \<and> j_ids job = map (\<lambda>k. ExecutionId (of_nat k)) [0..<n]"
    using begun p(2) by (auto simp: batch_begin_def Let_def batch_job_of_def alloc_ids_consecutive
        scheduler_with_lanes_def split: if_splits)
  ultimately show ?thesis using that w(5,6) unfolding batch_reachable_def by blast
qed

text \<open>Every such test does run to its end, if its task returns and does not panic.\<close>

lemma test_run_exists:
  assumes "0 < lanes" "0 < n" "n + lanes < 2 ^ 64"
    and "\<And>e l. \<exists>out. returns e l out" "\<And>e l. \<not> returns e l TaskPanic"
  shows "\<exists>run. test_run lanes n returns run"
proof -
  let ?p = "scheduler_with_lanes lanes 0"
  let ?job = "batch_job_of n (replicate n 0) (replicate n 0) returns (\<lambda>_. None) (\<lambda>_. False) id ?p"
  let ?s0 = "batch_start ?job 0 (snd (alloc_ids (replicate n 0) (next_execution_id ?p))) ?p"
  have begun: "batch_begin n (replicate n 0) (replicate n 0) returns (\<lambda>_. None) (\<lambda>_. False) id 0 ?p = Inr (?job, ?s0)"
    using assms(2) by (simp add: batch_begin_def Let_def)
  have b: "batch_begun lanes ?job ?s0"
    unfolding batch_begun_def
    by (intro exI conjI, rule begun) (use assms(1,3) in \<open>simp_all add: scheduler_with_lanes_def sum_list_replicate\<close>)
  have calm: "job_calm ?job" "job_returns ?job"
    using assms(4,5) by (simp_all add: job_calm_def job_returns_def batch_job_of_def)
  obtain s where s: "(batch_step ?job)\<^sup>*\<^sup>* ?s0 s" "list_all worker_ended (bt_workers s)"
    using batch_reaches_end [OF b calm(2)] by blast
  have r: "batch_reachable lanes ?job s" unfolding batch_reachable_def using b s(1) by blast
  have "list_all (\<lambda>w. w_pc w = WExit) (bt_workers s)"
    using worker_all_exit [OF s(2)] batch_never_panics [OF r calm(1)] by blast
  then obtain run where "batch_finish s = Some (Inr run)" using batch_done_run by blast
  moreover have "new_scheduler lanes 0 = Inr ?p" using assms(1) by (simp add: new_scheduler_def)
  moreover have "run_many_detailed n (replicate n 0) (replicate n 0) returns id 0 ?p = Inr (?job, ?s0)"
    using begun by (simp add: run_many_detailed_def)
  ultimately show ?thesis unfolding test_run_def using s(1) by force
qed

text \<open>\<^verbatim>\<open>matches!(event, ExecutionEvent::Queued { .. })\<close>\<close>

fun is_queued :: "ExecutionEvent \<Rightarrow> bool" where
  "is_queued (EvQueued _) = True"
| "is_queued _ = False"

text \<open>What every finished test run has, in one place.\<close>

definition run_ok :: "nat \<Rightarrow> nat \<Rightarrow> (ExecutionId \<Rightarrow> LaneId \<Rightarrow> 'a outcome \<Rightarrow> bool) \<Rightarrow> 'a SchedulerRun \<Rightarrow> bool" where
  "run_ok lanes n returns run \<longleftrightarrow>
     map rid (run_results run) = map (\<lambda>k. ExecutionId (of_nat k)) [0..<n]
     \<and> unat (snap_completed (run_snapshot run)) = cnt (\<lambda>r. success (report r)) (run_results run)
     \<and> unat (snap_failed (run_snapshot run)) = cnt (\<lambda>r. \<not> success (report r)) (run_results run)
     \<and> snap_queued (run_snapshot run) = 0 \<and> snap_running (run_snapshot run) = 0
     \<and> list_all (\<lambda>st. st = LaneFree) (snap_lanes (run_snapshot run))
     \<and> (\<forall>r\<in>set (run_results run). \<exists>out. out \<noteq> TaskPanic \<and> returns (rid r) (lane_id (report r)) out
          \<and> (success (report r), rep_error (report r), result_value r) = classified (\<lambda>_. None) out
          \<and> final_event (report r) \<in> set (run_events run))
     \<and> length (filter is_queued (run_events run)) = n"

text \<open>Counting by key: over distinct keys that cover a list, the counts within each key add up.\<close>

lemma filter_by_key:
  assumes "key ` set xs \<subseteq> set ks" and "distinct ks"
  shows "length (filter Q xs) = sum_list (map (\<lambda>k. length (filter Q (filter (\<lambda>x. key x = k) xs))) ks)"
  using assms(1)
proof (induction xs)
  case (Cons x xs)
  have "sum_list (map (\<lambda>k. length (filter Q (filter (\<lambda>x. key x = k) (x # xs)))) ks)
      = sum_list (map (\<lambda>k. (if key x = k then of_bool (Q x) else 0) + length (filter Q (filter (\<lambda>x. key x = k) xs))) ks)"
    by (intro arg_cong [of _ _ sum_list] map_cong refl) simp
  also have "\<dots> = of_bool (Q x) + sum_list (map (\<lambda>k. length (filter Q (filter (\<lambda>x. key x = k) xs))) ks)"
    using Cons.prems assms(2) by (simp add: sum_list_addf sum_list_distinct_conv_sum_set sum.delta)
  finally show ?case using Cons by simp
qed (simp add: sum_list_0)

lemma run_ok_finished:
  assumes "test_run lanes n returns run" and "n + lanes < 2 ^ 64"
  shows "run_ok lanes n returns run"
proof -
  obtain job s where s: "batch_reachable lanes job s" "list_all (\<lambda>w. w_pc w = WExit) (bt_workers s)"
    "batch_finish s = Some (Inr run)" "j_returns job = returns" "j_classify job = (\<lambda>_. None)"
    "j_ids job = map (\<lambda>k. ExecutionId (of_nat k)) [0..<n]"
    using test_run_facts [OF assms] .
  obtain run' where c: "batch_finish s = Some (Inr run')"
    "map rid (run_results run') = j_ids job"
    "unat (snap_completed (run_snapshot run')) = cnt (\<lambda>r. success (report r)) (run_results run')"
    "unat (snap_failed (run_snapshot run')) = cnt (\<lambda>r. \<not> success (report r)) (run_results run')"
    "snap_queued (run_snapshot run') = 0" "snap_running (run_snapshot run') = 0"
    "snap_lanes (run_snapshot run') = replicate lanes LaneFree"
    using batch_complete_run [OF s(1,2)] by blast
  have same: "run' = run" using c(1) s(3) by simp
  note life = finished_lifecycle [OF s(1,2,3)]
  have results: "\<exists>out. out \<noteq> TaskPanic \<and> returns (rid r) (lane_id (report r)) out
      \<and> (success (report r), rep_error (report r), result_value r) = classified (\<lambda>_. None) out
      \<and> final_event (report r) \<in> set (run_events run)" if r: "r \<in> set (run_results run)" for r
  proof -
    have "final_event (report r) \<in> set (filter (\<lambda>ev. event_id ev = rid r) (run_events run))"
      using life [OF r] by simp
    then show ?thesis
      using finished_results_fine [OF s(1,3) r] s(4,5) unfolding result_fine_def by auto
  qed
  have "length (filter is_queued (run_events run)) = n"
  proof -
    have ids: "distinct (j_ids job)" "length (j_ids job) = n" "0 < length (j_ids job)"
      using batch_reachable_inv [OF s(1)] s(6) by (auto simp: batch_inv_def job_ok_def)
    have one: "length (filter is_queued (filter (\<lambda>ev. event_id ev = e) (run_events run))) = 1"
      if e: "e \<in> set (j_ids job)" for e
    proof -
      have "e \<in> set (map rid (run_results run))" using e c(2) same by (simp only:)
      then obtain r where "r \<in> set (run_results run)" "rid r = e" by auto
      then show ?thesis using life [of r] by (simp add: final_event_def)
    qed
    show ?thesis
    proof (cases "run_results run")
      case Nil
      then show ?thesis using arg_cong [OF c(2), of length] same ids(3) by simp
    next
      case (Cons r rs)
      then have "event_id ` set (run_events run) \<subseteq> set (j_ids job)" using life [of r] by simp
      from filter_by_key [OF this ids(1), of is_queued] show ?thesis
        using one ids(2) by (simp add: sum_list_const_mult [symmetric] cong: map_cong) (simp add: sum_list_triv)
    qed
  qed
  then show ?thesis
    using c s(6) results by (simp add: run_ok_def same list_all_iff)
qed

lemma run_ok_length: "run_ok lanes n returns run \<Longrightarrow> length (run_results run) = n"
  unfolding run_ok_def by (metis diff_zero length_map length_upt)

subsection \<open>The tests\<close>

definition detects_at_least_one_lane :: "nat option \<Rightarrow> instant \<Rightarrow> bool" where
  "detects_at_least_one_lane parallelism now \<longleftrightarrow> 1 \<le> lane_count (local_scheduler parallelism now)"

lemma detects_at_least_one_lane_passes: "parallelism \<noteq> Some 0 \<Longrightarrow> detects_at_least_one_lane parallelism now"
  by (auto simp: detects_at_least_one_lane_def local_scheduler_def split: option.split)

definition rejects_invalid_counts :: "(instant \<Rightarrow> nat) \<Rightarrow> instant \<Rightarrow> bool" where
  "rejects_invalid_counts wall now \<longleftrightarrow>
     isl (new_scheduler 0 now)
     \<and> (case new_scheduler 1 now of
          Inl _ \<Rightarrow> False
        | Inr p \<Rightarrow> isl (run_many_detailed 0 [] [] (\<lambda>_ _ out. out = TaskOk ()) wall now p))"

lemma rejects_invalid_counts_passes: "rejects_invalid_counts wall now"
  by (simp add: rejects_invalid_counts_def new_scheduler_def run_many_detailed_def batch_begin_def)

definition completes_requested_task_count :: "ExecutionId SchedulerRun \<Rightarrow> bool" where
  "completes_requested_task_count run \<longleftrightarrow>
     length (run_results run) = 25
     \<and> snap_completed (run_snapshot run) = 25 \<and> snap_failed (run_snapshot run) = 0
     \<and> snap_queued (run_snapshot run) = 0 \<and> snap_running (run_snapshot run) = 0
     \<and> length (filter is_queued (run_events run)) = 25
     \<and> list_all (\<lambda>st. st = LaneFree) (snap_lanes (run_snapshot run))"

lemma unat_usize_eq: "unat (w :: usize) = n \<Longrightarrow> w = of_nat n"
  by auto

lemma all_succeed:
  assumes "run_ok lanes n returns run" and "\<And>e l out. returns e l out \<Longrightarrow> \<exists>v. out = TaskOk v"
  shows "snap_completed (run_snapshot run) = of_nat n" "snap_failed (run_snapshot run) = 0"
proof -
  have ok: "success (report r)" if "r \<in> set (run_results run)" for r
    using assms that unfolding run_ok_def by fastforce
  then have "cnt (\<lambda>r. success (report r)) (run_results run) = n"
    using run_ok_length [OF assms(1)] cnt_eq_length_iff [of "\<lambda>r. success (report r)" "run_results run"] by simp
  moreover have "cnt (\<lambda>r. \<not> success (report r)) (run_results run) = 0"
    using ok by (simp add: cnt_0_iff)
  ultimately show "snap_completed (run_snapshot run) = of_nat n" "snap_failed (run_snapshot run) = 0"
    using assms(1) by (auto simp: run_ok_def unat_eq_0 intro: unat_usize_eq)
qed

lemma completes_requested_task_count_passes:
  assumes "test_run 2 25 (\<lambda>e _ out. out = TaskOk e) run"
  shows "completes_requested_task_count run"
proof -
  have ok: "run_ok 2 25 (\<lambda>e _ out. out = TaskOk e) run" by (rule run_ok_finished [OF assms]) simp
  show ?thesis
    using all_succeed [OF ok] run_ok_length [OF ok] ok
    by (simp add: completes_requested_task_count_def run_ok_def)
qed

text \<open>All but the peak that the tasks measure with their own counters.\<close>

definition reuses_lanes :: "unit SchedulerRun \<Rightarrow> bool" where
  "reuses_lanes run \<longleftrightarrow>
     length (run_results run) = 18 \<and> snap_running (run_snapshot run) = 0
     \<and> list_all (\<lambda>st. st = LaneFree) (snap_lanes (run_snapshot run))"

lemma reuses_lanes_passes:
  assumes "test_run 3 18 (\<lambda>_ _ out. out = TaskOk ()) run"
  shows "reuses_lanes run"
proof -
  have ok: "run_ok 3 18 (\<lambda>_ _ out. out = TaskOk ()) run" by (rule run_ok_finished [OF assms]) simp
  show ?thesis using run_ok_length [OF ok] ok by (simp add: reuses_lanes_def run_ok_def)
qed

text \<open>That peak: however many tasks there are, no more than the lanes are inside one.\<close>

lemma tasks_never_exceed_lanes:
  assumes "batch_reachable lanes job s"
  shows "cnt (\<lambda>w. w_pc w = WTask) (bt_workers s) \<le> lanes"
  using cnt_le_length [of "\<lambda>w. w_pc w = WTask" "bt_workers s"] batch_reachable_inv [OF assms]
  by (simp add: batch_inv_def)

definition intentional_failure :: "ExecutionId \<Rightarrow> LaneId \<Rightarrow> unit outcome \<Rightarrow> bool" where
  "intentional_failure e l out \<longleftrightarrow>
     out = (if e = ExecutionId 0 then TaskErr ''intentional failure'' else TaskOk ())"

fun failed_with :: "string \<Rightarrow> ExecutionEvent \<Rightarrow> bool" where
  "failed_with text (EvFailed _ _ _ err) = contains text err"
| "failed_with text _ = False"

definition failure_releases_lane :: "unit SchedulerRun \<Rightarrow> bool" where
  "failure_releases_lane run \<longleftrightarrow>
     length (run_results run) = 12 \<and> snap_completed (run_snapshot run) = 11 \<and> snap_failed (run_snapshot run) = 1
     \<and> snap_running (run_snapshot run) = 0 \<and> list_all (\<lambda>st. st = LaneFree) (snap_lanes (run_snapshot run))
     \<and> list_ex (failed_with ''intentional failure'') (run_events run)"

lemma failure_releases_lane_passes:
  assumes "test_run 2 12 intentional_failure run"
  shows "failure_releases_lane run"
proof -
  have ok: "run_ok 2 12 intentional_failure run" by (rule run_ok_finished [OF assms]) simp
  then have ids: "map rid (run_results run) = map (\<lambda>k. ExecutionId (of_nat k)) [0..<12]"
    by (simp add: run_ok_def)
  have each: "(success (report r) \<longleftrightarrow> rid r \<noteq> ExecutionId 0)
      \<and> (rid r = ExecutionId 0 \<longrightarrow> rep_error (report r) = Some ''intentional failure'')
      \<and> final_event (report r) \<in> set (run_events run)" if "r \<in> set (run_results run)" for r
    using ok that unfolding run_ok_def by (fastforce simp: intentional_failure_def)
  have good: "cnt (\<lambda>r. success (report r)) (run_results run) = cnt (\<lambda>e. e \<noteq> ExecutionId 0) (map rid (run_results run))"
    "cnt (\<lambda>r. \<not> success (report r)) (run_results run) = cnt (\<lambda>e. e = ExecutionId 0) (map rid (run_results run))"
    using each by (auto simp: cnt_def filter_map comp_def intro!: arg_cong [of _ _ length] filter_cong)
  have counts: "cnt (\<lambda>e. e \<noteq> ExecutionId 0) (map rid (run_results run)) = 11"
    "cnt (\<lambda>e. e = ExecutionId 0) (map rid (run_results run)) = 1"
    unfolding ids by (simp_all add: upt_0_numeral)
  have "ExecutionId 0 \<in> rid ` set (run_results run)" using arg_cong [OF ids, of set] by force
  then obtain r where r: "r \<in> set (run_results run)" "rid r = ExecutionId 0" by force
  then have "failed_with ''intentional failure'' (final_event (report r))"
    using each [OF r(1)] by (simp add: final_event_def contains_def)
  then have "list_ex (failed_with ''intentional failure'') (run_events run)"
    using each [OF r(1)] by (auto simp: list_ex_iff)
  moreover have "snap_completed (run_snapshot run) = 11" "snap_failed (run_snapshot run) = 1"
    using ok good counts unat_usize_eq [of "snap_completed (run_snapshot run)" 11]
      unat_usize_eq [of "snap_failed (run_snapshot run)" 1] by (simp_all add: run_ok_def)
  ultimately show ?thesis
    using run_ok_length [OF ok] ok by (simp add: failure_releases_lane_def run_ok_def)
qed

text \<open>None of the three is about nothing: each does run to its end.\<close>

lemma batch_tests_run:
  "\<exists>run. test_run 2 25 (\<lambda>e _ out. out = TaskOk e) run"
  "\<exists>run. test_run 3 18 (\<lambda>_ _ out. out = TaskOk ()) run"
  "\<exists>run. test_run 2 12 intentional_failure run"
  by (rule test_run_exists; simp add: intentional_failure_def)+

text \<open>Two runs in a row on one scheduler, which nobody else uses: what its atomics are after the first.\<close>

lemma worker_step_sched:
  "worker_step job now out w b = Some (w', b') \<Longrightarrow>
    next_execution_id (bd_sched b') = next_execution_id (bd_sched b) \<and> sched_lanes (bd_sched b') = sched_lanes (bd_sched b)"
  unfolding worker_step_def set_lane_or_panic_def
  by (cases "w_pc w") (auto simp: Let_def split: if_splits option.splits)

lemma batch_run_sched:
  "batch_run job acts s = Some t \<Longrightarrow>
    next_execution_id (bd_sched (bt_board t)) = next_execution_id (bd_sched (bt_board s))
    \<and> sched_lanes (bd_sched (bt_board t)) = sched_lanes (bd_sched (bt_board s))"
  by (induction job acts s rule: batch_run.induct) (auto split: if_splits option.splits dest: worker_step_sched)

lemma one_run_id:
  assumes "run_many_detailed 1 [0] [now] returns wall now p = Inr (job, s0)" and "batch_run job acts s0 = Some s"
    and "run_many s = Some (Inr results)" and "sched_lanes p = sched_lanes (scheduler_with_lanes 1 now)"
    and "unat (next_execution_id p) < 2 ^ 32"
  shows "map rid results = [ExecutionId (next_execution_id p)]
    \<and> next_execution_id (bd_sched (bt_board s)) = next_execution_id p + 1
    \<and> sched_lanes (bd_sched (bt_board s)) = sched_lanes p"
proof -
  have begun: "batch_begin 1 [0] [now] returns (\<lambda>_. None) (\<lambda>_. False) wall now p = Inr (job, s0)"
    using assms(1) by (simp add: run_many_detailed_def)
  have "batch_begun 1 job s0"
    unfolding batch_begun_def by (intro exI conjI, rule begun) (use assms(4,5) in simp_all)
  then have r: "batch_reachable 1 job s"
    unfolding batch_reachable_def using batch_run_steps [OF assms(2)] by blast
  have exit: "list_all (\<lambda>w. w_pc w = WExit) (bt_workers s)"
    using assms(3) by (auto simp: run_many_def batch_finish_def list_all_iff list_ex_iff split: if_splits)
  have "map rid results = j_ids job"
    using batch_complete_run [OF r exit] assms(3) by (auto simp: run_many_def)
  then show ?thesis
    using begun batch_run_sched [OF assms(2)]
    by (auto simp: batch_begin_def batch_job_of_def batch_start_def Let_def)
qed

definition ids_monotonic :: "ExecutionId ExecutionResult list \<Rightarrow> ExecutionId ExecutionResult list \<Rightarrow> bool" where
  "ids_monotonic first second \<longleftrightarrow> execution_id (report (first ! 0)) < execution_id (report (second ! 0))"

lemma ids_monotonic_passes:
  assumes "new_scheduler 1 created = Inr p"
    and "run_many_detailed 1 [0] [now] (\<lambda>e _ out. out = TaskOk e) wall now p = Inr (job, s0)"
    and "batch_run job acts s0 = Some s" and "run_many s = Some (Inr first)"
    and "run_many_detailed 1 [0] [later] (\<lambda>e _ out. out = TaskOk e) wall later (bd_sched (bt_board s)) = Inr (job', s0')"
    and "batch_run job' acts' s0' = Some s'" and "run_many s' = Some (Inr second)"
  shows "ids_monotonic first second"
proof -
  have p: "p = scheduler_with_lanes 1 created" using assms(1) by (simp add: new_scheduler_Inr_iff)
  then have one: "map rid first = [ExecutionId 0]" "next_execution_id (bd_sched (bt_board s)) = 1"
    "sched_lanes (bd_sched (bt_board s)) = sched_lanes (scheduler_with_lanes 1 later)"
    using one_run_id [OF assms(2-4)] by (simp_all add: scheduler_with_lanes_def)
  have "map rid second = [ExecutionId 1]"
    using one_run_id [OF assms(5-7) one(3)] one(2) by simp
  then show ?thesis
    using one(1) by (cases first; cases second) (auto simp: ids_monotonic_def less_ExecutionId_def)
qed

text \<open>One call on one lane, run through.\<close>

definition short_execution_in_peak :: "PitScheduler \<Rightarrow> bool" where
  "short_execution_in_peak p \<longleftrightarrow> peak_active_now p = 1 \<and> active_now p = 0"

lemma short_execution_in_peak_passes: "short_execution_in_peak (sched (demo_run 1 1 demo_done))"
  by (simp add: short_execution_in_peak_def demo_run_def demo_done_def demo_eval)

end
