(* ===== verification/Rt_Tests.thy ===== *)
theory Rt_Tests
  imports Pit_Node_Main Pit_Dispatch_Claims Rt_SigV4_Claims Rt_Token "HOL-Library.Countable"
begin

section \<open>The unit tests of the runtime\<close>

text \<open>
  The tests at the end of \<^verbatim>\<open>crates/pit-runtime/src/lib.rs\<close>, on the model: each is a definition
  of what it does and asserts, and a lemma that it passes. What a test takes from outside (the time
  crate, Wasmtime and its compiler, SHA-256, JSON) is a parameter with the documented behaviour it
  relies on as a hypothesis; its WebAssembly text is the guest as the model has guests. The assertion on
  the time of the readiness query is left out.
\<close>

subsection \<open>Requests, artifacts and configuration\<close>

definition request_defaults_valid :: "(string \<Rightarrow> bool) \<Rightarrow> bool" where
  "request_defaults_valid utf8 \<longleftrightarrow>
     (let r = new_request utf8 (from_path ''hello.wasm'') in
      req_args r = [] \<and> req_env r = [] \<and> lim_timeout (req_limits r) = None
      \<and> lim_memory_bytes (req_limits r) = None \<and> \<not> isl (validate r))"

lemma validate_new_request [simp]: "validate (new_request utf8 a) = Inr ()"
  by (simp add: validate_def new_request_def NUL_def byte_of_val_def char_of_def)

lemma request_defaults_valid_passes: "request_defaults_valid utf8"
  by (simp add: request_defaults_valid_def) (simp add: new_request_def)

definition missing_path_fails :: "preparation \<Rightarrow> bool" where
  "missing_path_fails pr \<longleftrightarrow>
     (case prepare_plain pr (from_path ''/pitfast/path-that-does-not-exist.wasm'') of
        Inl e \<Rightarrow> contains ''WASM file does not exist'' e
      | Inr _ \<Rightarrow> False)"

lemma missing_path_fails_passes:
  assumes "prep_files pr ''/pitfast/path-that-does-not-exist.wasm'' = PathMissing"
  shows "missing_path_fails pr"
  using assms
  by (simp add: missing_path_fails_def prepare_plain_def prepare_with_world_def open_artifact_def read_artifact_def
      from_path_def contains_def upt_rec)

definition bytes_identity :: "(string \<Rightarrow> string) \<Rightarrow> bool" where
  "bytes_identity sha \<longleftrightarrow>
     (let bytes = map byte_of_val; first = from_bytes sha (bytes [1, 2, 3]);
          second = from_bytes sha (bytes [1, 2, 3]); third = from_bytes sha (bytes [1, 2, 4])
      in art_id first = art_id second \<and> art_id first \<noteq> art_id third)"

lemma bytes_identity_passes:
  assumes "sha (map byte_of_val [1, 2, 3]) \<noteq> sha (map byte_of_val [1, 2, 4])"
  shows "bytes_identity sha"
  using assms by (simp add: bytes_identity_def from_bytes_def)

fun is_path :: "ArtifactSource \<Rightarrow> bool" where
  "is_path (PathSource _) = True"
| "is_path (BytesSource _) = False"

definition verified_path_identity :: bool where
  "verified_path_identity \<longleftrightarrow>
     (let artifact = from_path_with_digest ''/tmp/verified-artifact.wasm'' ''sha256:0123456789abcdef''
      in art_id artifact = ''sha256:0123456789abcdef'' \<and> is_path (art_source artifact))"

lemma verified_path_identity_passes: verified_path_identity
  by (simp add: verified_path_identity_def from_path_with_digest_def)

definition file_backed_default :: bool where
  "file_backed_default \<longleftrightarrow>
     rc_compiled_cache_restore default_config = FileBacked \<and> rc_allocation default_config = OnDemand"

lemma file_backed_default_passes: file_backed_default
  by (simp add: file_backed_default_def default_config_def)

definition rejects_guest_strings :: "(string \<Rightarrow> bool) \<Rightarrow> (string \<Rightarrow> string) \<Rightarrow> bool" where
  "rejects_guest_strings utf8 sha \<longleftrightarrow>
     isl (validate (with_limits \<lparr>lim_timeout = Some 1000000, lim_memory_bytes = Some 1024\<rparr>
       (with_args [''bad'' @ [NUL] @ ''arg''] (new_request utf8 (from_bytes sha [])))))"

lemma rejects_guest_strings_passes: "rejects_guest_strings utf8 sha"
  by (simp add: rejects_guest_strings_def validate_def with_limits_def with_args_def new_request_def)

definition rejects_environment :: "(string \<Rightarrow> bool) \<Rightarrow> (string \<Rightarrow> string) \<Rightarrow> bool" where
  "rejects_environment utf8 sha \<longleftrightarrow>
     isl (validate (with_env [([], ''value'')] (new_request utf8 (from_bytes sha []))))
     \<and> isl (validate (with_env [(''KEY'', ''bad'' @ [NUL] @ ''value'')] (new_request utf8 (from_bytes sha []))))"

lemma rejects_environment_passes: "rejects_environment utf8 sha"
  by (simp add: rejects_environment_def validate_def validate_env_entry_def with_env_def new_request_def)

definition token_shareable :: bool where
  "token_shareable \<longleftrightarrow>
     (let token = new_token; clone = token; before = is_cancelled clone; token = cancel token; clone = token
      in \<not> before \<and> is_cancelled clone)"

lemma token_shareable_passes: token_shareable
  by (simp add: token_shareable_def token_ops)

subsection \<open>The signature check\<close>

text \<open>The calendar of the time crate: the proleptic Gregorian one, in whole seconds.\<close>

definition leap_year :: "nat \<Rightarrow> bool" where
  "leap_year y \<longleftrightarrow> y mod 4 = 0 \<and> y mod 100 \<noteq> 0 \<or> y mod 400 = 0"

definition month_days :: "nat \<Rightarrow> nat \<Rightarrow> nat" where
  "month_days y m = (if m = 2 then (if leap_year y then 29 else 28) else if m \<in> {4, 6, 9, 11} then 30 else 31)"

definition day_number :: "nat \<Rightarrow> nat \<Rightarrow> nat \<Rightarrow> int" where
  "day_number y m d =
     (let before = int y - 1 in
      365 * (int y - 1970) + before div 4 - before div 100 + before div 400 - 477
      + int (sum_list (map (month_days y) [1..<m])) + int d - 1)"

definition gregorian :: "(nat, nat \<times> nat \<times> nat, nat \<times> nat \<times> nat) calendar" where
  "gregorian =
     \<lparr>month_try_from = (\<lambda>m. if 1 \<le> m \<and> m \<le> 12 then Some m else None),
      from_calendar_date = (\<lambda>y m d. if 1 \<le> d \<and> d \<le> month_days y m then Some (y, m, d) else None),
      from_hms = (\<lambda>h m s. if h < 24 \<and> m < 60 \<and> s < 60 then Some (h, m, s) else None),
      unix_timestamp = (\<lambda>(y, m, d) (hour, minute, second).
        86400 * day_number y m d + int (3600 * hour + 60 * minute + second))\<rparr>"

definition timestamp_requires_datetime :: bool where
  "timestamp_requires_datetime \<longleftrightarrow>
     \<not> isl (parse_amz_timestamp gregorian ''20260908T120000Z'')
     \<and> isl (parse_amz_timestamp gregorian ''20260230T120000Z'')
     \<and> isl (parse_amz_timestamp gregorian ''20260908T120000+00'')"

lemmas timestamp_eval =
  parse_amz_timestamp_def digits_at_def undec_def digit_val_def byte_val_def is_ascii_digit_def Let_def
  gregorian_def month_days_def leap_year_def day_number_def

lemma timestamp_requires_datetime_passes: timestamp_requires_datetime
  by (simp add: timestamp_requires_datetime_def timestamp_eval)

text \<open>The seconds are those of the Unix epoch.\<close>

lemma gregorian_epoch:
  "parse_amz_timestamp gregorian ''19700101T000000Z'' = Inr 0"
  "parse_amz_timestamp gregorian ''20000301T000001Z'' = Inr 951868801"
  by (simp_all add: timestamp_eval upt_rec)

definition query_sorted_encoded :: bool where
  "query_sorted_encoded \<longleftrightarrow>
     canonical_path_and_query ''/a space/utf8?q=z value&b=2&a=1'' = Inr (''/a%20space/utf8'', ''a=1&b=2&q=z%20value'')"

lemma query_sorted_encoded_passes: query_sorted_encoded
  by code_simp

definition no_double_encoding :: bool where
  "no_double_encoding \<longleftrightarrow>
     canonical_path_and_query ''/utf%208/obj?q=a%2Bb'' = Inr (''/utf%208/obj'', ''q=a%2Bb'')"

lemma no_double_encoding_passes: no_double_encoding
  by code_simp

definition streaming_marker_accepted :: bool where
  "streaming_marker_accepted \<longleftrightarrow>
     accepted_payload_hash ''STREAMING-AWS4-HMAC-SHA256-PAYLOAD'' ''sha256:request-body''
     \<and> \<not> accepted_payload_hash ''sha256:other'' ''sha256:request-body''"

lemma streaming_marker_accepted_passes: streaming_marker_accepted
  by code_simp

subsection \<open>The compiled cache\<close>

text \<open>What the tests do to the files of an entry: rewrite its metadata, resize or rewrite its artifact.\<close>

definition set_len :: "nat \<Rightarrow> string \<Rightarrow> string" where
  "set_len n bytes = take n bytes @ replicate (n - length bytes) NUL"

definition edit_metadata ::
  "cache_env \<Rightarrow> (CompiledCacheMetadata \<Rightarrow> CompiledCacheMetadata) \<Rightarrow> cache_key \<Rightarrow> cache_fs \<Rightarrow> cache_fs" where
  "edit_metadata env f k fs =
     (case Option.bind (metadata_file (dir_at fs k)) (ce_from_json env) of
        None \<Rightarrow> fs
      | Some m \<Rightarrow> AList.update k ((dir_at fs k)\<lparr>metadata_file := Some (ce_to_json env (f m))\<rparr>) fs)"

definition edit_artifact :: "(string \<Rightarrow> string) \<Rightarrow> cache_key \<Rightarrow> cache_fs \<Rightarrow> cache_fs" where
  "edit_artifact f k fs =
     (case artifact_file (dir_at fs k) of
        None \<Rightarrow> fs
      | Some (bytes, mtime) \<Rightarrow> AList.update k ((dir_at fs k)\<lparr>artifact_file := Some (f bytes, mtime)\<rparr>) fs)"

definition looks_up :: "cache_env \<Rightarrow> cache_io \<Rightarrow> cache_request \<Rightarrow> CompiledCacheSource \<Rightarrow> cache_fs \<Rightarrow> cache_fs option" where
  "looks_up env io q source fs =
     (case compiled_cache_entry env io default_max_bytes q fs of
        (Inl _, _) \<Rightarrow> None
      | (Inr entry, fs') \<Rightarrow> if entry_source entry = source then Some fs' else None)"

definition large_size :: nat where
  "large_size = 256 * 1024 * 1024"

definition cache_rejects_mismatches :: "cache_env \<Rightarrow> cache_io \<Rightarrow> cache_request \<Rightarrow> bool" where
  "cache_rejects_mismatches env io q \<longleftrightarrow>
     (let k = cache_entry_paths (cr_digest q) (cr_fingerprint q) in
      case looks_up env io q ColdCompiled [] of None \<Rightarrow> False | Some first \<Rightarrow>
        warm_digests env first = [cr_digest q]
        \<and> (let large = edit_artifact (set_len large_size) k
                 (edit_metadata env (\<lambda>m. m\<lparr>compiled_size_bytes := large_size\<rparr>) k first) in
           warm_digests env large = [cr_digest q]
           \<and> (case looks_up env io q WarmRestored large of None \<Rightarrow> False | Some second \<Rightarrow>
             (case looks_up env io q ColdCompiled
                 (edit_metadata env (\<lambda>m. m\<lparr>meta_fingerprint := ''wrong''\<rparr>) k second) of None \<Rightarrow> False | Some third \<Rightarrow>
               looks_up env io q ColdCompiled (edit_artifact (\<lambda>_. [NUL]) k third) \<noteq> None))))"

text \<open>One entry alone in the cache: what the lookup makes of it.\<close>

abbreviation one_entry :: "cache_key \<Rightarrow> string \<Rightarrow> nat \<Rightarrow> string \<Rightarrow> cache_fs" where
  "one_entry k bytes mtime meta \<equiv> [(k, \<lparr>artifact_file = Some (bytes, mtime), metadata_file = Some meta\<rparr>)]"

lemma one_entry_simps [simp]:
  "dir_at [(k, d)] k = d"
  "dir_at [] k = \<lparr>artifact_file = None, metadata_file = None\<rparr>"
  by (simp_all add: dir_at_def)

lemma length_set_len [simp]: "length (set_len n bytes) = n"
  by (simp add: set_len_def)

locale cache_test =
  fixes env :: cache_env and io :: cache_io and q :: cache_request and hex :: string and compiled :: string
  assumes json: "\<And>m. ce_from_json env (ce_to_json env m) = Some m"
    and compiles: "ce_precompile env (cr_source q) = Inr compiled"
    and compiled_size: "1 < length compiled" "length compiled \<le> default_max_bytes"
    and disk: "io_write_artifact io = None" "io_write_metadata io = None" "\<And>k. io_rmdir io k"
    and digest: "cr_digest q = ''sha256:'' @ hex" and fingerprint: "cr_fingerprint q \<noteq> ''wrong''"
begin

abbreviation key :: cache_key where
  "key \<equiv> cache_entry_paths (cr_digest q) (cr_fingerprint q)"

abbreviation good :: "nat \<Rightarrow> string" where
  "good n \<equiv> ce_to_json env (expected_metadata (ce_platform env) q n)"

lemma key: "key = (take 2 hex, hex, cr_fingerprint q)"
  by (simp add: cache_entry_paths_def digest strip_prefix_def)

lemma publishes:
  "publish env io default_max_bytes q [] = (Inr \<lparr>entry_source = ColdCompiled, entry_compile_duration = io_compile_time io,
     entry_restore_duration = 0, entry_publication_duration = io_publication_time io\<rparr>,
     one_entry key compiled (io_mtime io) (good (length compiled)))"
  using compiled_size(2)
  by (simp add: publish_def compiles write_artifact_def write_metadata_def disk Let_def evict_compiled_cache_def
      scan_entries_def)

lemma cold_first: "looks_up env io q ColdCompiled [] = Some (one_entry key compiled (io_mtime io) (good (length compiled)))"
  by (simp add: looks_up_def compiled_cache_entry_def Let_def publishes)

lemma warm_again:
  assumes "bytes \<noteq> []"
  shows "looks_up env io q WarmRestored (one_entry key bytes t (good (length bytes))) = Some (one_entry key bytes t (good (length bytes)))"
  using assms
  by (simp add: looks_up_def compiled_cache_entry_def Let_def cache_hit_def json artifact_size_def metadata_valid_def
      expected_metadata_def)

lemma cold_after_mismatch:
  assumes "\<not> metadata_valid (ce_platform env) q (Some (length bytes)) m"
  shows "looks_up env io q ColdCompiled (one_entry key bytes t (ce_to_json env m))
    = Some (one_entry key compiled (io_mtime io) (good (length compiled)))"
  using assms
  by (simp add: looks_up_def compiled_cache_entry_def Let_def cache_hit_def json artifact_size_def
      remove_cache_entry_def remove_cache_dir_def disk publishes)

lemma warm_one:
  assumes "bytes \<noteq> []"
  shows "warm_digests env (one_entry key bytes t (good (length bytes))) = [cr_digest q]"
  using assms unfolding key
  by (simp add: warm_digests_def digest_dirs_def warm_entry_def json expected_metadata_def digest)

lemma edited:
  "edit_metadata env f k (one_entry k bytes t (ce_to_json env m)) = one_entry k bytes t (ce_to_json env (f m))"
  "edit_artifact g k (one_entry k bytes t meta) = one_entry k (g bytes) t meta"
  by (simp_all add: edit_metadata_def edit_artifact_def json)

lemma resized: "(expected_metadata pf q n)\<lparr>compiled_size_bytes := m\<rparr> = expected_metadata pf q m"
  by (simp add: expected_metadata_def)

lemma cache_rejects: "cache_rejects_mismatches env io q"
proof -
  let ?large = "set_len large_size compiled"
  have size: "length ?large = large_size" by (rule length_set_len)
  then have "0 < length ?large" by (simp only: large_size_def)
  then have large: "?large \<noteq> []" by (rule length_greater_0_conv [THEN iffD1])
  have warm: "looks_up env io q WarmRestored (one_entry key ?large (io_mtime io) (good large_size))
      = Some (one_entry key ?large (io_mtime io) (good large_size))"
    "warm_digests env (one_entry key ?large (io_mtime io) (good large_size)) = [cr_digest q]"
    using warm_again [OF large] warm_one [OF large] by (simp_all only: size)
  have "compiled \<noteq> []" using compiled_size(1) by auto
  note first = warm_one [OF this, of "io_mtime io"]
  have third: "looks_up env io q ColdCompiled (one_entry key ?large (io_mtime io)
        (ce_to_json env ((expected_metadata (ce_platform env) q large_size)\<lparr>meta_fingerprint := ''wrong''\<rparr>)))
      = Some (one_entry key compiled (io_mtime io) (good (length compiled)))"
    by (rule cold_after_mismatch) (use fingerprint in \<open>auto simp: metadata_valid_def\<close>)
  have fourth: "looks_up env io q ColdCompiled (one_entry key [NUL] (io_mtime io) (good (length compiled)))
      = Some (one_entry key compiled (io_mtime io) (good (length compiled)))"
    by (rule cold_after_mismatch) (use compiled_size(1) in \<open>simp add: metadata_valid_def expected_metadata_def\<close>)
  show ?thesis
    unfolding cache_rejects_mismatches_def Let_def
    by (simp only: cold_first option.case edited resized warm first third fourth) simp
qed

end

text \<open>An encoding that can be read back, for any metadata: the number of the record, in unary.\<close>

definition counted_env :: cache_env where
  "counted_env = cache_demo_env\<lparr>
     ce_to_json := (\<lambda>m. replicate (to_nat (schema_version m, artifact_digest m, meta_fingerprint m, meta_wasmtime m,
       meta_target m, meta_architecture m, meta_format m, meta_world m, wasm_size_bytes m, compiled_size_bytes m)) NUL),
     ce_from_json := (\<lambda>s. case from_nat (length s) of (schema, digest, print, wasmtime, target, arch, format, world, wasm, compiled) \<Rightarrow>
       Some \<lparr>schema_version = schema, artifact_digest = digest, meta_fingerprint = print, meta_wasmtime = wasmtime,
         meta_target = target, meta_architecture = arch, meta_format = format, meta_world = world,
         wasm_size_bytes = wasm, compiled_size_bytes = compiled\<rparr>)\<rparr>"

interpretation demo_cache: cache_test counted_env cache_demo_io cache_demo_request "''abcd''" "''!wasm''"
  by unfold_locales
    (simp_all add: counted_env_def cache_demo_env_def cache_demo_io_def cache_demo_request_def default_max_bytes_def)

lemma cache_rejects_mismatches_passes: "cache_rejects_mismatches counted_env cache_demo_io cache_demo_request"
  by (rule demo_cache.cache_rejects)

text \<open>
  A damaged component is compiled again. The runtime restores from files, as it does by default; the
  artifact is made of its bytes, and the two preparations meet the same world.
\<close>

definition corrupted_cache_recompiles :: "preparation \<Rightarrow> string \<Rightarrow> bool" where
  "corrupted_cache_recompiles pr component \<longleftrightarrow>
     (let pr = pr\<lparr>prep_config := default_config\<lparr>rc_compiled_cache_restore := FileBacked\<rparr>\<rparr>;
          artifact = from_bytes (prep_sha pr) component;
          k = cache_entry_paths (digest_of_bytes (prep_sha pr) component) (prep_fingerprint pr) in
      case prepare_http_cached pr artifact default_max_bytes [] of
        (Inl _, _) \<Rightarrow> False
      | (Inr (_, first), fs) \<Rightarrow>
          pr_source first = ColdCompiled
          \<and> (case prepare_http_cached pr artifact default_max_bytes
                (edit_artifact (\<lambda>bytes. bytes[0 := byte_of_val (byte_val (bytes ! 0) XOR 0x5a)]) k fs) of
               (Inl _, _) \<Rightarrow> False
             | (Inr (_, second), _) \<Rightarrow> pr_source second = ColdCompiled \<and> 0 < pr_compile_duration second))"

lemma corrupted_magic: "byte_of_val (byte_val (CHR ''!'') XOR 90) \<noteq> CHR ''!''" "Suc (Suc (Suc (Suc (Suc 0)))) \<le> default_max_bytes"
  by (code_simp, simp add: default_max_bytes_def)

lemma corrupted_cache_recompiles_passes:
  "corrupted_cache_recompiles (demo_preparation\<lparr>prep_sha := \<lambda>_. ''abcd''\<rparr>) ''wasm''"
  by (simp add: corrupted_cache_recompiles_def demo_preparation_def Let_def prepare_http_cached_def prepare_with_world_def
      prepare_cached_def default_config_def no_errors_def http_linker_calls_def resolve_calls_def open_artifact_def
      from_bytes_def read_artifact_def digest_once_def digest_of_bytes_def cache_request_of_def edit_artifact_def cache_eval corrupted_magic)

subsection \<open>Guests\<close>

text \<open>The core module of a test, prepared; its program is entered at \<^verbatim>\<open>_start\<close> and returns.\<close>

definition test_guest :: "guest_event list \<Rightarrow> guest_event list \<Rightarrow> unit guest" where
  "test_guest start evs = \<lparr>g_trap_text = ''wasm trap: interrupt'', g_inst_events = start, g_inst_final = Inr (),
     g_lookup_error = None, g_call_events = evs, g_call_final = Inr (), g_started = 0, g_elapsed = 1\<rparr>"

definition test_execute :: "unit program \<Rightarrow> (ExecutionRequest \<Rightarrow> ExecutionRequest) \<Rightarrow> RuntimeExecutionResult option" where
  "test_execute program adjust =
     (let artifact = from_bytes id ''module''; request = adjust (new_request (\<lambda>_. True) artifact) in
      case execute ''run'' 0 program (\<lambda>_ _ _. undefined)
             (prepared_with_world (art_id artifact) CoreModule None False True) request of
        Some (Inr res) \<Rightarrow> Some res
      | _ \<Rightarrow> None)"

lemmas test_execute_eval =
  test_execute_def test_guest_def execute_def prepared_with_world_def guest_args_def validate_def new_request_def
  from_bytes_def program_name_def Let_def

lemmas run_eval =
  execute_p1_def new_store_def new_control_def new_limiter_def interrupted_def control_signal_def make_result_def
  epoch_callback_def timed_out_def memory_growing_def status_for_error_def

lemma nul_letters [simp]:
  "NUL \<noteq> CHR ''_''" "NUL \<noteq> CHR ''s''" "NUL \<noteq> CHR ''t''" "NUL \<noteq> CHR ''a''" "NUL \<noteq> CHR ''r''"
  by (simp_all add: NUL_def byte_of_val_def char_of_def)

definition captures_separately :: bool where
  "captures_separately \<longleftrightarrow>
     (case test_execute (\<lambda>_ _ _. test_guest [] [WriteOut ''out\<newline>'', WriteErr ''err\<newline>'']) id of
        None \<Rightarrow> False
      | Some res \<Rightarrow> res_status res = Completed \<and> res_stdout res = ''out\<newline>'' \<and> res_stderr res = ''err\<newline>'')"

lemma captures_separately_passes: captures_separately
  by (simp add: captures_separately_def test_execute_eval run_eval)

text \<open>The module writes five bytes from its first and from its second argument pointer.\<close>

definition arguments_in_order :: bool where
  "arguments_in_order \<longleftrightarrow>
     (case test_execute (\<lambda>args _ _. test_guest [] [WriteOut (take 5 (args ! 1)), WriteOut (take 5 (args ! 2))])
             (with_args [''hello'', ''world'']) of
        None \<Rightarrow> False
      | Some res \<Rightarrow> res_stdout res = ''helloworld'')"

lemma arguments_in_order_passes: arguments_in_order
  by (simp add: arguments_in_order_def with_args_def test_execute_eval run_eval NUL_def byte_of_val_def char_of_def)

text \<open>The module looks at the number of its environment variables.\<close>

definition environment_explicit :: bool where
  "environment_explicit \<longleftrightarrow>
     (let program = (\<lambda>_ env _. test_guest [] [WriteOut (if length env = 0 then ''empty'' else ''nonempty'')]) in
      (case test_execute program id of None \<Rightarrow> False | Some res \<Rightarrow> res_stdout res = ''empty'')
      \<and> (case test_execute program (with_env [(''MODE'', ''production'')]) of
           None \<Rightarrow> False | Some res \<Rightarrow> res_stdout res = ''nonempty''))"

lemma environment_explicit_passes: environment_explicit
  by (simp add: environment_explicit_def with_env_def test_execute_eval run_eval validate_env_entry_def
      NUL_def byte_of_val_def char_of_def)

text \<open>
  The loop never ends by itself: it meets epoch checks, and the first at or after the deadline of 20
  milliseconds stops it.
\<close>

definition timeout_interrupts_loop :: "instant list \<Rightarrow> bool" where
  "timeout_interrupts_loop checks \<longleftrightarrow>
     (case test_execute (\<lambda>_ _ _. test_guest [] (observed new_token (map EpochCheck checks)))
             (with_limits \<lparr>lim_timeout = Some 20000000, lim_memory_bytes = None\<rparr>) of
        None \<Rightarrow> False
      | Some res \<Rightarrow> res_status res = TimedOut)"

lemma timeout_interrupts_loop_passes:
  assumes "\<exists>t\<in>set checks. 20000000 \<le> t"
  shows "timeout_interrupts_loop checks"
proof -
  have "\<exists>t. find (stops (Some 20000000) None) (observed False (map EpochCheck checks)) = Some (Tick False t)"
    using assms by (induction checks) (auto simp: token_ops)
  then show ?thesis
    by (auto simp: timeout_interrupts_loop_def test_execute_eval with_limits_def p1.status_exact spec_status_def
        new_token_def)
qed

text \<open>One page to start with, and 200 more than eight MiB allow; a page has 64 KiB.\<close>

definition growth_limited :: bool where
  "growth_limited \<longleftrightarrow>
     (case test_execute (\<lambda>_ _ _. test_guest [Grow 65536] [Grow (201 * 65536)])
             (with_limits \<lparr>lim_timeout = None, lim_memory_bytes = Some (8 * 1024 * 1024)\<rparr>) of
        None \<Rightarrow> False
      | Some res \<Rightarrow> res_status res = MemoryLimitExceeded)"

lemma growth_limited_passes: growth_limited
  by (simp add: growth_limited_def with_limits_def test_execute_eval p1.status_exact spec_status_def)

end
