(* ===== verification/Node_Adaptation.thy ===== *)
theory Node_Adaptation
  imports Garage_End_To_End
begin

section \<open>The adaptation test of the node\<close>

text \<open>
  \<^verbatim>\<open>apps/pit-node/tests/adaptation.rs\<close>: registers the component that the environment names and
  sends it one request, or two, through the dispatcher. The environment and what the dispatcher answers
  are parameters; that it answers as callers of the pool are answered is a hypothesis of the lemmas. The
  progress lines on standard error are left out.
\<close>

datatype test_end = TestSkipped | TestPassed | TestPanics string

text \<open>\<^verbatim>\<open>std::env::var\<close>: set, and valid text.\<close>

definition env_var :: "(string \<Rightarrow> bool) \<Rightarrow> (string \<Rightarrow> string option) \<Rightarrow> string \<Rightarrow> string option" where
  "env_var utf8 environment name = (case environment name of Some v \<Rightarrow> if utf8 v then Some v else None | None \<Rightarrow> None)"

definition adapter_call :: "string \<Rightarrow> string \<Rightarrow> string \<Rightarrow> ('b, 'w) HttpCall" where
  "adapter_call meth path body =
     \<lparr>hq_method = meth, hq_path_and_query = path, hq_headers = [(''host'', ''pitfast'')], hq_body = body, hq_env = [],
      hq_allowed_tcp = [], hq_source_garage_id = None, hq_visited_garages = [], hq_application_id = None,
      hq_release_id = None, hq_paddock_grants = [], hq_paddock = None, hq_paddock_auth = None\<rparr>"

definition language_call :: "('b, 'w) HttpCall" where
  "language_call = adapter_call ''GET'' ''/language'' []"

definition echo_call :: "('b, 'w) HttpCall" where
  "echo_call = adapter_call ''POST'' ''/echo?source=adapter'' ''adapter-body''"

definition check_reply :: "string \<Rightarrow> string \<Rightarrow> nat \<Rightarrow> string \<Rightarrow> string + HttpDispatchResult \<Rightarrow> test_end" where
  "check_reply failed silent status body answered =
     (case answered of
        Inl _ \<Rightarrow> TestPanics failed
      | Inr result \<Rightarrow>
          (case hd_response result of
             None \<Rightarrow> TestPanics silent
           | Some response \<Rightarrow>
               if http_status response \<noteq> status then TestPanics ''assertion failed: status''
               else if http_body response \<noteq> body then TestPanics ''assertion failed: body''
               else TestPassed))"

definition expected_body :: "(string \<Rightarrow> bool) \<Rightarrow> (string \<Rightarrow> string option) \<Rightarrow> string" where
  "expected_body utf8 environment =
     (case env_var utf8 environment ''PITFAST_ADAPTER_EXPECTED'' of Some v \<Rightarrow> v | None \<Rightarrow> ''mystery-asgi'')"

definition expected_status :: "(string \<Rightarrow> bool) \<Rightarrow> (string \<Rightarrow> string option) \<Rightarrow> nat" where
  "expected_status utf8 environment =
     (case env_var utf8 environment ''PITFAST_ADAPTER_ECHO_STATUS'' of
        Some v \<Rightarrow> (case parse_unsigned (2 ^ 16 - 1) v of Inr n \<Rightarrow> n | Inl _ \<Rightarrow> 200)
      | None \<Rightarrow> 200)"

definition adapted_component_executes ::
  "(string \<Rightarrow> bool) \<Rightarrow> (string \<Rightarrow> string option) \<Rightarrow> runtime_world \<Rightarrow> instant \<Rightarrow> preparation \<Rightarrow> cache_fs
    \<Rightarrow> (PitHttpDispatcher \<Rightarrow> string \<Rightarrow> ('b, 'w) HttpCall \<Rightarrow> string + HttpDispatchResult) \<Rightarrow> test_end" where
  "adapted_component_executes utf8 environment w now pr fs answer =
     (case environment ''PITFAST_ADAPTER_WASM'' of
        None \<Rightarrow> TestSkipped
      | Some path \<Rightarrow>
          (case with_lanes w 2 now of
             Inl _ \<Rightarrow> TestPanics ''dispatcher should initialize''
           | Inr d \<Rightarrow>
               (case register ''adapted'' pr (from_path path) d fs of
                  (Inl _, _, _) \<Rightarrow> TestPanics ''adapter-produced Component should prepare''
                | (Inr _, d', _) \<Rightarrow>
                    (case check_reply ''adapted Component should execute'' ''guest should return a response'' 200
                        (expected_body utf8 environment) (answer d' ''adapted'' language_call) of
                       TestPassed \<Rightarrow>
                         if environment ''PITFAST_ADAPTER_TEST_ECHO'' = None then TestPassed
                         else check_reply ''adapted POST should execute'' ''adapted POST should return a response''
                           (expected_status utf8 environment) ''adapter-body'' (answer d' ''adapted'' echo_call)
                     | failed \<Rightarrow> failed))))"

text \<open>The dispatcher answers a call of \<^verbatim>\<open>execute_http\<close> as some run of its pool does.\<close>

definition answers_from_pool ::
  "http_lib \<Rightarrow> (string \<Rightarrow> string + string) \<Rightarrow> (string \<Rightarrow> string) \<Rightarrow> ('b, 'w) http_program
    \<Rightarrow> (ExecutionId \<Rightarrow> LaneId \<Rightarrow> instant \<times> http_clock) \<Rightarrow> PreparedArtifact \<Rightarrow> ('b, 'w) HttpCall
    \<Rightarrow> string + HttpDispatchResult \<Rightarrow> bool" where
  "answers_from_pool lib parse_uri sha program clock p call answered \<longleftrightarrow>
     (\<exists>requests wall lanes s m gs lk scheduled.
        pool_reachable (execute_http_with_invoker requests wall) lanes (length requests) s \<and> m < length requests
        \<and> c_pc (callers s ! m) = AtDone \<and> c_result (callers s ! m) = Some scheduled
        \<and> requests ! m = plain_caller lib parse_uri sha program clock p call default_limits
        \<and> answered = Inr (dispatch_result gs lk scheduled))"

lemma answered_with_reply:
  assumes "answers_from_pool lib parse_uri sha program clock p call answered"
    and "\<forall>now parent. execute_http now (guest_of lib parse_uri sha program call default_limits None parent 0) p default_limits
      = Inr response"
  shows "\<exists>result. answered = Inr result \<and> hd_response result = Some response"
proof -
  obtain requests wall lanes s m gs lk scheduled where r:
    "pool_reachable (dispatch_env requests (\<lambda>_ _ _. False) wall) lanes (length requests) s" "m < length requests"
    "c_pc (callers s ! m) = AtDone" "c_result (callers s ! m) = Some scheduled"
    "requests ! m = plain_caller lib parse_uri sha program clock p call default_limits"
    "answered = Inr (dispatch_result gs lk scheduled)"
    using assms(1) unfolding answers_from_pool_def execute_http_with_invoker_def by blast
  from dispatched_report [OF r(1-3), of gs lk] have "hd_response (dispatch_result gs lk scheduled) = Some response"
    using assms(2) r(4,5) by (auto simp: Let_def plain_caller_def invoker_caller_def split: prod.splits)
  then show ?thesis using r(6) by blast
qed

lemma check_reply_passes:
  assumes "answers_from_pool lib parse_uri sha program clock p call answered"
    and "\<forall>now parent. execute_http now (guest_of lib parse_uri sha program call default_limits None parent 0) p default_limits
      = Inr \<lparr>http_status = status, http_headers = headers, http_body = body\<rparr>"
  shows "check_reply failed silent status body answered = TestPassed"
  using answered_with_reply [OF assms] by (auto simp: check_reply_def)

text \<open>
  The test is skipped without a component; with one that prepares and whose guest gives the expected
  replies, it passes.
\<close>

lemma adapted_component_executes_skipped:
  "environment ''PITFAST_ADAPTER_WASM'' = None \<Longrightarrow> adapted_component_executes utf8 environment w now pr fs answer = TestSkipped"
  by (simp add: adapted_component_executes_def)

lemma adapted_component_executes_passes:
  assumes "environment ''PITFAST_ADAPTER_WASM'' = Some path" and "with_lanes w 2 now = Inr d"
    and "register ''adapted'' pr (from_path path) d fs = (Inr (), d', fs')"
    and "\<forall>p call. find_prepared ''adapted'' d' = Inr p \<longrightarrow>
      answers_from_pool lib parse_uri sha program clock p call (answer d' ''adapted'' call)"
    and "\<forall>p now parent. find_prepared ''adapted'' d' = Inr p \<longrightarrow>
      execute_http now (guest_of lib parse_uri sha program language_call default_limits None parent 0) p default_limits
        = Inr \<lparr>http_status = 200, http_headers = headers, http_body = expected_body utf8 environment\<rparr>"
    and "\<forall>p now parent. find_prepared ''adapted'' d' = Inr p \<longrightarrow>
      execute_http now (guest_of lib parse_uri sha program echo_call default_limits None parent 0) p default_limits
        = Inr \<lparr>http_status = expected_status utf8 environment, http_headers = headers', http_body = ''adapter-body''\<rparr>"
  shows "adapted_component_executes utf8 environment w now pr fs answer = TestPassed"
proof -
  obtain p where p: "find_prepared ''adapted'' d' = Inr p"
    using assms(3) by (auto simp: register_def register_with_report_def find_prepared_def split: prod.splits sum.splits)
  have "check_reply failed silent 200 (expected_body utf8 environment) (answer d' ''adapted'' language_call) = TestPassed"
    for failed silent using check_reply_passes assms(4,5) p by blast
  moreover have "check_reply failed silent (expected_status utf8 environment) ''adapter-body''
      (answer d' ''adapted'' echo_call) = TestPassed" for failed silent
    using check_reply_passes assms(4,6) p by blast
  ultimately show ?thesis using assms(1-3) by (simp add: adapted_component_executes_def)
qed

end
