(* ===== verification/Spec2Isabelle.thy ===== *)
theory Spec2Isabelle
  imports Sched_Shared_Claims Sched_Batch_Claims Rt_Artifact Rt_SigV4_Claims Rt_Exec_Claims
    Rt_Cache_Claims Rt_Paddock_Claims Rt_Service_Claims Pit_Node_Claims Pit_Dispatch_Claims
    Garage_Warmup_Claims Garage_Claims Garage_Registry Garage_Host Garage_Main
    Garage_End_To_End Pit_Node_Main Pit_Node_Token Sched_Usage Pit_Bench_Claims Example_Guests
    Sched_Tests Rt_Tests Node_Adaptation
begin

text \<open>
  A verification development for PitFast's pit-box: WebAssembly guests scheduled on execution lanes.

  \<^bold>\<open>The program.\<close> \<^verbatim>\<open>crates/pit-scheduler\<close> gives executions a lane: single requests
  share a pool (\<^verbatim>\<open>run_one\<close>), a batch has a thread per lane (\<^verbatim>\<open>run_many\<close>).
  \<^verbatim>\<open>crates/pit-runtime\<close> prepares artifacts, with a cache of compiled components, and executes
  them: command-line guests, HTTP handlers, the host functions a guest calls (objects in a Paddock,
  other services), and the check of signed gateway requests. \<^verbatim>\<open>apps/pit-node\<close> joins the two:
  \<^verbatim>\<open>PitNode\<close> runs batches of one artifact, \<^verbatim>\<open>PitHttpDispatcher\<close> keeps prepared
  artifacts and sends requests through the pool. \<^verbatim>\<open>apps/pit-garage\<close> is the agent of a machine:
  it registers with a Circuit, warms artifacts up, executes remote requests on its dispatcher and
  passes nested calls of its guests to a PitLane, which may bring them back to another Garage.
  \<^verbatim>\<open>apps/pit-node/src/bin/fast-path-bench.rs\<close> measures the dispatcher, and
  \<^verbatim>\<open>examples\<close> has the small guests that exercise the runtime.

  \<^bold>\<open>Foundations.\<close> \<^theory_text>\<open>Pit_Prelude\<close> has the machine integers, time (nanoseconds as
  naturals), errors (their rendered message, in a sum) and counting in lists;
  \<^theory_text>\<open>Pit_Text\<close> and \<^theory_text>\<open>Pit_Strings\<close> the text operations of the standard
  library on byte lists, with round trips for decimal numbers and splitting.
  \<^theory_text>\<open>Transition_System\<close> has two locales, for step relations with an invariant and for those
  that also lose rank with every step and can always move until they are final; the lane pool, the
  batch, the warm-up table, the epoch ticker, the joint warm-up with the registry and the process of a
  Garage interpret them on their own relations. \<^theory_text>\<open>Lane_Pool\<close> has the contract of the table
  of lanes.

  \<^bold>\<open>Scheduler\<close> (\<^verbatim>\<open>crates/pit-scheduler/src/lib.rs\<close>). \<^theory_text>\<open>Sched_Types\<close>: the data,
  the constructors and the snapshot. \<^theory_text>\<open>Sched_Shared\<close>: \<^verbatim>\<open>run_one_observed\<close> as a program
  counter per caller over the atomics, the mutex with its lane table and the condition variable;
  a step is one atomic action, any caller may move, waiting callers may wake up spuriously, tasks and
  observers may panic. \<^theory_text>\<open>Sched_Shared_Inv\<close> proves the invariant step by step,
  \<^theory_text>\<open>Sched_Shared_Props\<close> and \<^theory_text>\<open>Sched_Shared_Claims\<close> what follows: exclusive lanes, exact
  snapshots, no lost wake-up, termination in at most 25 steps a caller, what a panic costs.
  \<^theory_text>\<open>Sched_Usage\<close>: the accounted busy time stays within the lanes times the age, so that
  \<^verbatim>\<open>grid_utilization\<close> is an exact quotient.
  \<^theory_text>\<open>Sched_Batch\<close>, \<^theory_text>\<open>Sched_Batch_Inv\<close>, \<^theory_text>\<open>Sched_Batch_Live\<close> and
  \<^theory_text>\<open>Sched_Batch_Claims\<close> do the same for the worker threads of \<^verbatim>\<open>run_many_classified\<close>:
  results in submission order, the life of every execution in the events, counters that add up, and an
  end after at most 20 steps an execution and one a lane.

  \<^bold>\<open>Runtime\<close> (\<^verbatim>\<open>crates/pit-runtime/src/lib.rs\<close>). \<^theory_text>\<open>Rt_Artifact\<close>: identity and
  reading of artifacts, engine configuration. \<^theory_text>\<open>Rt_Exec\<close>: requests, limits, the epoch
  callback, the memory limiter and the three executions; Wasmtime is a parameter, a guest being the
  list of host callbacks it causes in each phase and how its call ends; the loop over them is a locale
  in \<^theory_text>\<open>Rt_Exec_Claims\<close>, interpreted for both kinds of guest, where status and output are shown
  equal to a specification by the first event that stops the guest. \<^theory_text>\<open>Rt_Token\<close>: the flag of
  \<^verbatim>\<open>CancellationToken\<close> and what the epoch checks of a guest read of it. \<^theory_text>\<open>Rt_Cache\<close> and
  \<^theory_text>\<open>Rt_Cache_Claims\<close>: lookup, publication, eviction and repair over a map of directories.
  \<^theory_text>\<open>Rt_SigV4\<close> and \<^theory_text>\<open>Rt_SigV4_Claims\<close>: \<^verbatim>\<open>verify_gateway_signature\<close> on
  byte strings, with SHA-256 and the calendar as parameters. \<^theory_text>\<open>Rt_Paddock\<close> and
  \<^theory_text>\<open>Rt_Paddock_Claims\<close>: the object host functions, their grants and the life of a writer.
  \<^theory_text>\<open>Rt_Service\<close> and \<^theory_text>\<open>Rt_Service_Claims\<close>: outgoing requests and service calls of a
  guest, with the header maps of the http crate. \<^theory_text>\<open>Rt_Http\<close>: the request, the WASI context
  with its TCP check, the host state and the timings of an HTTP execution, which tie the previous
  theories together. \<^theory_text>\<open>Rt_Prepare\<close>: \<^verbatim>\<open>prepare_with_world\<close> and its callers, a call
  into Wasmtime being its error or none. \<^theory_text>\<open>Rt_Runtime\<close>: \<^verbatim>\<open>PitRuntime::with_config\<close> and
  the epoch ticker, whose thread and destructor are interleaved: it stops, at most five steps after its
  flag is set.

  \<^bold>\<open>Node\<close> (\<^verbatim>\<open>apps/pit-node/src/lib.rs\<close>). \<^theory_text>\<open>Pit_Node\<close> composes the batch with the
  execution model, \<^theory_text>\<open>Pit_Dispatch\<close> the shared pool with HTTP execution and the cache; their
  claims carry the properties of the parts over to the reports and responses.
  \<^theory_text>\<open>Pit_Node_Main\<close>: the command line, from the file to what is printed.
  \<^theory_text>\<open>Pit_Node_Token\<close>: batches whose token is cancelled while they run, and which executions are then
  reported as cancelled.
  \<^theory_text>\<open>Pit_Bench\<close> and \<^theory_text>\<open>Pit_Bench_Claims\<close>: the benchmark, its options (with a round
  trip), its collection of samples, its percentiles. \<^theory_text>\<open>Example_Guests\<close>: the example programs and
  what the runtime reports of them.

  \<^bold>\<open>Garage\<close> (\<^verbatim>\<open>apps/pit-garage/src/main.rs\<close>). \<^theory_text>\<open>Garage_Warmup\<close>: concurrent
  warm-ups as program counters over the table of once-cells, the preparation permits, the registry and
  the counters; failures and dropped requests are inputs. Its invariant, ranks (at most ten steps a
  call) and claims are in \<^theory_text>\<open>Garage_Warmup_Inv\<close> and \<^theory_text>\<open>Garage_Warmup_Claims\<close>.
  \<^theory_text>\<open>Garage_Agent\<close>: construction, registration, heartbeat. \<^theory_text>\<open>Garage_Execute\<close>: remote
  executions, routes, nested calls. \<^theory_text>\<open>Garage_Claims\<close> joins them with the pool (the heartbeat
  reports it truthfully) and with the runtime (a nested call from the guest to the PitLane and back,
  chains of calls of at most 17 executions on different Garages). \<^theory_text>\<open>Garage_Registry\<close> runs the
  warm-up model together with the dispatcher's registry, which it sees through the locale
  \<^verbatim>\<open>registry\<close>: a digest that was warmed up is found and served from then on.
  \<^theory_text>\<open>Garage_Host\<close>: what a guest can reach on a Garage. \<^theory_text>\<open>Garage_Main\<close>: the process,
  from \<^verbatim>\<open>main\<close> to connections, heartbeats and executions in any order, with requests that are
  dropped. \<^theory_text>\<open>Garage_End_To_End\<close> puts admission, warm-up, registry, pool and host state together
  for one remote execution: whatever else runs, it is answered with the outcome of its own artifact, under
  an identifier of its own.

  \<^bold>\<open>Tests.\<close> \<^theory_text>\<open>Sched_Tests\<close>, \<^theory_text>\<open>Rt_Tests\<close>, the end of
  \<^theory_text>\<open>Pit_Node_Token\<close> and \<^theory_text>\<open>Node_Adaptation\<close> have the tests of the program, each as a
  definition of what it does and asserts and a lemma that it passes: for every schedule of the threads, and
  for every answer of the other crates that keeps to their documentation.

  \<^bold>\<open>Conventions.\<close> A record or datatype of the code keeps its name, its fields get a prefix. An effect
  is a state passed and returned, a panic is a value. What belongs to other crates is an argument of
  the definitions that use it: a function, a record of functions, or what it answered. Identifiers
  and counters of the scheduler are 64-bit words, depths 16-bit; properties that need them not to
  wrap say how many callers or executions they allow. Step relations need no fuel; loops are
  structural recursions.

  \<^bold>\<open>Not modelled.\<close> The inside of Wasmtime, tokio, hyper, reqwest, clap, serde and the PitFast
  crates that are not in this repository, and with them the parsing of command lines and the framing of
  HTTP; floating-point arithmetic (the benchmark and \<^verbatim>\<open>grid_utilization\<close> take its operations as
  parameters, with a hypothesis on rounding where a property needs one); temporary files of failed cache
  writes, and several processes on one cache; log lines; what the tests assert of the time a call took and
  of how many lanes a batch happened to use at once.

  \<^bold>\<open>What the modelling showed.\<close> A panicking task keeps its lane for good; a gateway secret over 60
  bytes makes every signed request panic; an artifact restored from the cache panics when executed
  as a command; an interrupted HTTP handler is always reported as failed; an artifact larger than the
  cache can never be prepared; repeated headers of a response to an outgoing request are lost; a late
  reader of a failed warm-up lets a digest be prepared twice at once; a dropped request gives its
  preparation permit back too early, and its admission permit while its guest runs on; the depth option
  of a Garage cannot raise the depth; a Garage runs guests without limits and without credentials to check
  signatures against; the benchmark summarises another metric than it names. The manifest names the theorem
  of each.
\<close>

end
